(* ===== verification/Prelude.thy ===== *)
theory Prelude
  imports Main "HOL-Library.Word" "HOL-Library.Stream"
begin

text \<open>
  What the components share: the machine integers and byte strings of the Rust sources, the
  \<^verbatim>\<open>Result\<close> type with its early return, the big-endian integer conversions of
  \<^verbatim>\<open>core::num\<close>, and the random byte source the \<^verbatim>\<open>rand\<close> traits stand for.

  \<^item> A Rust \<^verbatim>\<open>Result<T, E>\<close> is the sum \<open>'e + 'a\<close>; \<open>Ok\<close> and \<open>Err\<close> abbreviate its
    constructors and \<open>and_then r f\<close> is the question mark operator: the rest \<open>f\<close> of the
    function runs on the success value, an error returns at once.
  \<^item> \<^verbatim>\<open>Vec<u8>\<close>, \<^verbatim>\<open>&[u8]\<close> and \<^verbatim>\<open>[u8; N]\<close> are byte lists; that an array has
    length \<open>N\<close> is a conjunct of the well-formedness predicate of the structure that holds it.
  \<^item> \<^verbatim>\<open>usize\<close> is \<open>nat\<close>: every \<^verbatim>\<open>usize\<close> of the modelled code is a length or an index
    into a buffer in memory.
  \<^item> A random number generator is the stream of bytes it is going to deliver.
\<close>

named_theorems wf_simps "well-formedness predicates of the message structures"
named_theorems tag_simps "numeric values of the TLV tag constants"
named_theorems record_simps "record lists the encoders hand to the TLV encoder"
named_theorems crypto_laws "consequences of the hypotheses on the cryptographic libraries"

type_synonym u8 = "8 word"
type_synonym u16 = "16 word"
type_synonym u32 = "32 word"
type_synonym u64 = "64 word"
type_synonym bytes = "u8 list"
type_synonym usize = nat
type_synonym rng = "u8 stream"

abbreviation (input) u16_MAX :: nat where "u16_MAX \<equiv> 65535"
abbreviation (input) u32_MAX :: u32 where "u32_MAX \<equiv> 0xFFFFFFFF"
abbreviation (input) u64_MAX :: u64 where "u64_MAX \<equiv> 0xFFFFFFFFFFFFFFFF"

subsection \<open>Results\<close>

abbreviation Ok :: "'a \<Rightarrow> 'e + 'a" where "Ok \<equiv> Inr"
abbreviation Err :: "'e \<Rightarrow> 'e + 'a" where "Err \<equiv> Inl"

definition and_then :: "'e + 'a \<Rightarrow> ('a \<Rightarrow> 'e + 'b) \<Rightarrow> 'e + 'b" where
  "and_then r f = (case r of Inl e \<Rightarrow> Inl e | Inr x \<Rightarrow> f x)"

definition ok_or :: "'a option \<Rightarrow> 'e \<Rightarrow> 'e + 'a" where
  "ok_or x e = (case x of None \<Rightarrow> Inl e | Some y \<Rightarrow> Inr y)"

definition ok_opt :: "'e + 'a \<Rightarrow> 'a option" where
  "ok_opt r = (case r of Inl e \<Rightarrow> None | Inr x \<Rightarrow> Some x)"

definition transpose_opt :: "('e + 'a) option \<Rightarrow> 'e + 'a option" where
  "transpose_opt x = (case x of None \<Rightarrow> Inr None
     | Some r \<Rightarrow> (case r of Inl e \<Rightarrow> Inl e | Inr y \<Rightarrow> Inr (Some y)))"

definition is_ok :: "'e + 'a \<Rightarrow> bool" where
  "is_ok r = (case r of Inl e \<Rightarrow> False | Inr x \<Rightarrow> True)"

fun collect_ok :: "('a \<Rightarrow> 'e + 'b) \<Rightarrow> 'a list \<Rightarrow> 'e + 'b list" where
  "collect_ok f [] = Ok []"
| "collect_ok f (x # xs) = and_then (f x) (\<lambda>y. and_then (collect_ok f xs) (\<lambda>ys. Ok (y # ys)))"

lemma and_then_simps [simp]:
  "and_then (Err e) f = Err e"
  "and_then (Ok x) f = f x"
  by (simp_all add: and_then_def)

lemma and_then_Ok_iff: "and_then r f = Ok y \<longleftrightarrow> (\<exists>x. r = Ok x \<and> f x = Ok y)"
  by (cases r) auto

lemma and_then_Err_iff:
  "and_then r f = Err e \<longleftrightarrow> r = Err e \<or> (\<exists>x. r = Ok x \<and> f x = Err e)"
  by (cases r) auto

lemma and_then_OkE [elim!]:
  assumes "and_then r f = Ok y"
  obtains x where "r = Ok x" and "f x = Ok y"
  using assms by (auto simp: and_then_Ok_iff)

lemma and_then_assoc: "and_then (and_then r f) g = and_then r (\<lambda>x. and_then (f x) g)"
  by (cases r) auto

lemma and_then_cong [fundef_cong]:
  "\<lbrakk>r = r'; \<And>x. r' = Ok x \<Longrightarrow> f x = g x\<rbrakk> \<Longrightarrow> and_then r f = and_then r' g"
  by (cases r') auto

lemma ok_or_simps [simp]: "ok_or None e = Err e" "ok_or (Some x) e = Ok x"
  by (simp_all add: ok_or_def)

lemma ok_or_eq_Ok [simp]: "ok_or x e = Ok y \<longleftrightarrow> x = Some y"
  by (cases x) auto

lemma ok_opt_simps [simp]: "ok_opt (Err e) = None" "ok_opt (Ok x) = Some x"
  by (simp_all add: ok_opt_def)

lemma ok_opt_eq_Some [simp]: "ok_opt r = Some x \<longleftrightarrow> r = Ok x"
  by (cases r) auto

lemma transpose_opt_simps [simp]:
  "transpose_opt None = Ok None"
  "transpose_opt (Some (Err e)) = Err e"
  "transpose_opt (Some (Ok x)) = Ok (Some x)"
  by (simp_all add: transpose_opt_def)

lemma transpose_opt_eq_Ok:
  "transpose_opt x = Ok y \<longleftrightarrow> (x = None \<and> y = None) \<or> (\<exists>z. x = Some (Ok z) \<and> y = Some z)"
  by (auto simp: transpose_opt_def split: option.splits sum.splits)

lemma is_ok_simps [simp]: "\<not> is_ok (Err e)" "is_ok (Ok x)"
  by (simp_all add: is_ok_def)

lemma is_ok_iff: "is_ok r \<longleftrightarrow> (\<exists>x. r = Ok x)"
  by (cases r) auto

lemma collect_ok_eq_Ok: "collect_ok f xs = Ok ys \<longleftrightarrow> list_all2 (\<lambda>x y. f x = Ok y) xs ys"
proof (induction xs arbitrary: ys)
  case Nil
  then show ?case by auto
next
  case (Cons x xs)
  show ?case by (cases ys) (auto simp: and_then_Ok_iff Cons.IH)
qed

subsection \<open>Big-endian integers\<close>

fun be_bytes :: "nat \<Rightarrow> nat \<Rightarrow> bytes" where
  "be_bytes 0 x = []"
| "be_bytes (Suc n) x = be_bytes n (x div 256) @ [of_nat x]"

definition be_val :: "bytes \<Rightarrow> nat" where
  "be_val bs = foldl (\<lambda>a b. 256 * a + unat b) 0 bs"

definition u16_to_be_bytes :: "u16 \<Rightarrow> bytes" where "u16_to_be_bytes w = be_bytes 2 (unat w)"
definition u32_to_be_bytes :: "u32 \<Rightarrow> bytes" where "u32_to_be_bytes w = be_bytes 4 (unat w)"
definition u64_to_be_bytes :: "u64 \<Rightarrow> bytes" where "u64_to_be_bytes w = be_bytes 8 (unat w)"
definition u16_from_be_bytes :: "bytes \<Rightarrow> u16" where "u16_from_be_bytes bs = of_nat (be_val bs)"
definition u32_from_be_bytes :: "bytes \<Rightarrow> u32" where "u32_from_be_bytes bs = of_nat (be_val bs)"
definition u64_from_be_bytes :: "bytes \<Rightarrow> u64" where "u64_from_be_bytes bs = of_nat (be_val bs)"

lemma length_be_bytes [simp]: "length (be_bytes n x) = n"
  by (induction n arbitrary: x) auto

lemma be_val_Nil [simp]: "be_val [] = 0"
  by (simp add: be_val_def)

lemma be_val_snoc [simp]: "be_val (bs @ [b]) = 256 * be_val bs + unat b"
  by (simp add: be_val_def)

lemma unat_u8_of_nat [simp]: "unat (of_nat x :: u8) = x mod 256"
  by (simp add: unat_of_nat)

lemma be_val_be_bytes [simp]: "be_val (be_bytes n x) = x mod 256 ^ n"
proof (induction n arbitrary: x)
  case (Suc n)
  then show ?case by (simp add: mod_mult2_eq)
qed simp

lemma unat_u8_less [simp]: "unat (b :: u8) < 256"
  using unsigned_less [where ?'a = nat, of b] by simp

lemma be_val_less: "be_val bs < 256 ^ length bs"
proof (induction bs rule: rev_induct)
  case (snoc b bs)
  have "256 * be_val bs + unat b < 256 * be_val bs + 256" by simp
  also have "\<dots> \<le> 256 * 256 ^ length bs"
    using snoc by (metis Suc_leI mult_Suc_right mult_le_mono2 add.commute)
  finally show ?case by simp
qed simp

lemma be_bytes_be_val [simp]: "length bs = n \<Longrightarrow> be_bytes n (be_val bs) = bs"
proof (induction bs arbitrary: n rule: rev_induct)
  case (snoc b bs)
  have z: "(256 :: u8) = 0" by simp
  have "256 * (x :: u8) = 0" for x by (simp only: z mult_zero_left)
  with snoc show ?case by (cases n) auto
qed simp

lemma length_to_be_bytes [simp]:
  "length (u16_to_be_bytes w) = 2" "length (u32_to_be_bytes v) = 4" "length (u64_to_be_bytes x) = 8"
  by (simp_all add: u16_to_be_bytes_def u32_to_be_bytes_def u64_to_be_bytes_def)

lemma u16_roundtrip [simp]: "u16_from_be_bytes (u16_to_be_bytes w) = w"
  using unsigned_less [where ?'a = nat, of w] by (simp add: u16_from_be_bytes_def u16_to_be_bytes_def)

lemma u32_roundtrip [simp]: "u32_from_be_bytes (u32_to_be_bytes w) = w"
  using unsigned_less [where ?'a = nat, of w] by (simp add: u32_from_be_bytes_def u32_to_be_bytes_def)

lemma u64_roundtrip [simp]: "u64_from_be_bytes (u64_to_be_bytes w) = w"
  using unsigned_less [where ?'a = nat, of w] by (simp add: u64_from_be_bytes_def u64_to_be_bytes_def)

lemma u16_to_from [simp]: "length bs = 2 \<Longrightarrow> u16_to_be_bytes (u16_from_be_bytes bs) = bs"
  using be_val_less [of bs]
  by (simp add: u16_from_be_bytes_def u16_to_be_bytes_def unat_of_nat)

lemma u32_to_from [simp]: "length bs = 4 \<Longrightarrow> u32_to_be_bytes (u32_from_be_bytes bs) = bs"
  using be_val_less [of bs]
  by (simp add: u32_from_be_bytes_def u32_to_be_bytes_def unat_of_nat)

lemma u64_to_from [simp]: "length bs = 8 \<Longrightarrow> u64_to_be_bytes (u64_from_be_bytes bs) = bs"
  using be_val_less [of bs]
  by (simp add: u64_from_be_bytes_def u64_to_be_bytes_def unat_of_nat)

lemma to_be_bytes_inject [simp]:
  "u16_to_be_bytes a = u16_to_be_bytes b \<longleftrightarrow> a = b"
  "u32_to_be_bytes c = u32_to_be_bytes d \<longleftrightarrow> c = d"
  "u64_to_be_bytes x = u64_to_be_bytes y \<longleftrightarrow> x = y"
  by (metis u16_roundtrip, metis u32_roundtrip, metis u64_roundtrip)

subsection \<open>Vectors and random bytes\<close>

definition vec_resize :: "'a list \<Rightarrow> usize \<Rightarrow> 'a \<Rightarrow> 'a list" where
  "vec_resize xs n v = take n xs @ replicate (n - length xs) v"

definition fill_bytes :: "usize \<Rightarrow> rng \<Rightarrow> bytes \<times> rng" where
  "fill_bytes n r = (stake n r, sdrop n r)"

lemma length_fill_bytes [simp]: "fill_bytes n r = (bs, r') \<Longrightarrow> length bs = n"
  by (auto simp: fill_bytes_def)

lemma length_fst_fill_bytes [simp]: "length (fst (fill_bytes n r)) = n"
  by (simp add: fill_bytes_def)

lemma take_drop_append_eq:
  "length xs = n \<Longrightarrow> length ys = m \<Longrightarrow> take m (drop n (xs @ ys @ zs)) = ys"
  by simp

lemma append_eq_length_split:
  "length xs = length ys \<Longrightarrow> xs @ us = ys @ vs \<Longrightarrow> xs = ys \<and> us = vs"
  by simp

end
