(* ===== verification/Core_Error.thy ===== *)
theory Core_Error
  imports Prelude
begin

text \<open>
  The error type of \<^verbatim>\<open>pqmsg-core\<close> (\<^verbatim>\<open>error.rs\<close>). The static strings of the source are
  HOL strings. Every early return of the modelled code is a value of this type.
\<close>

datatype CoreError =
    InvalidLength (field: string) (expected: usize) (actual: usize)
  | InvalidTlv string
  | UnknownCriticalTlv u16
  | DuplicateTlv u16
  | MissingField string
  | InvalidUtf8 string
  | SignatureVerificationFailed
  | AeadOperation
  | KdfOperation
  | DhOperation
  | KemOperation
  | PqSigOperation string
  | UnsupportedAlgorithm string
  | MessageParsing string
  | MessageKeyUnavailable
  | PqRatchetDisabled
  | PolicyViolation string
  | InvalidSecurityProfile string
  | InvalidStorageFormat string
  | InvalidStorageBase64 string
  | StorageDecryptionFailed
  | HsmOperation string

type_synonym 'a result = "CoreError + 'a"

end
