(* ===== verification/Tlv.thy ===== *)
theory Tlv
  imports Core_Error
begin

text \<open>
  The length-delimited record format every binary message uses (\<^verbatim>\<open>tlv.rs\<close>): a record is a
  16-bit type, a 16-bit length and the value. The decoder is the cursor loop of the source
  (\<open>decode_loop\<close>); \<open>tlv_parse\<close> is the reference parser on the unread suffix that the loop is
  proved equal to. The lemmas show that encoding and strict decoding are inverse to each other
  on record lists without duplicate or unknown critical types, and that the strict decoder
  accepts nothing but such encodings.
\<close>

unbundle bit_operations_syntax

definition CRITICAL_BIT :: u16 where "CRITICAL_BIT = 0x8000"
definition MAX_TLV_VALUE_SIZE :: usize where "MAX_TLV_VALUE_SIZE = u16_MAX"

record TlvRecord =
  rec_ty :: u16
  rec_value :: bytes

record DecodePolicy =
  reject_unknown_critical :: bool
  reject_duplicates :: bool

definition default_policy :: DecodePolicy where
  "default_policy = \<lparr>reject_unknown_critical = True, reject_duplicates = True\<rparr>"

definition critical_type :: "u16 \<Rightarrow> u16" where
  "critical_type base = base OR CRITICAL_BIT"

definition is_critical :: "u16 \<Rightarrow> bool" where
  "is_critical ty \<longleftrightarrow> ty AND CRITICAL_BIT = CRITICAL_BIT"

abbreviation tlv :: "u16 \<Rightarrow> bytes \<Rightarrow> TlvRecord" where
  "tlv t v \<equiv> \<lparr>rec_ty = t, rec_value = v\<rparr>"

fun encode_loop :: "TlvRecord list \<Rightarrow> bytes \<Rightarrow> bytes result" where
  "encode_loop [] out = Ok out"
| "encode_loop (r # rs) out =
     (if length (rec_value r) > u16_MAX
      then Err (InvalidLength ''tlv.value'' u16_MAX (length (rec_value r)))
      else encode_loop rs (out @ u16_to_be_bytes (rec_ty r)
             @ u16_to_be_bytes (of_nat (length (rec_value r))) @ rec_value r))"

definition encode :: "TlvRecord list \<Rightarrow> bytes result" where
  "encode records = encode_loop records []"

function decode_loop ::
  "bytes \<Rightarrow> u16 list \<Rightarrow> DecodePolicy \<Rightarrow> usize \<Rightarrow> TlvRecord list \<Rightarrow> u16 set \<Rightarrow> TlvRecord list result"
where
  "decode_loop input known_types policy cursor records seen =
     (if cursor < length input then
        if length input - cursor < 4 then Err (InvalidTlv ''truncated header'')
        else
          let ty = u16_from_be_bytes [input ! cursor, input ! (cursor + 1)];
              len = unat (u16_from_be_bytes [input ! (cursor + 2), input ! (cursor + 3)]);
              cursor = cursor + 4
          in
          if length input - cursor < len then Err (InvalidTlv ''declared length exceeds input'')
          else if reject_unknown_critical policy \<and> ty \<notin> set known_types \<and> is_critical ty
          then Err (UnknownCriticalTlv ty)
          else if reject_duplicates policy \<and> ty \<in> seen then Err (DuplicateTlv ty)
          else decode_loop input known_types policy (cursor + len)
                 (records @ [tlv ty (take len (drop cursor input))])
                 (if reject_duplicates policy then insert ty seen else seen)
      else Ok records)"
  by pat_completeness auto
termination
  by (relation "measure (\<lambda>(input, known, policy, cursor, records, seen). length input - cursor)")
     (auto simp: Let_def)

declare decode_loop.simps [simp del]

definition decode_with_policy :: "bytes \<Rightarrow> u16 list \<Rightarrow> DecodePolicy \<Rightarrow> TlvRecord list result" where
  "decode_with_policy input known_types policy = decode_loop input known_types policy 0 [] {}"

definition decode_strict :: "bytes \<Rightarrow> u16 list \<Rightarrow> TlvRecord list result" where
  "decode_strict input known_types = decode_with_policy input known_types default_policy"

definition require :: "TlvRecord list \<Rightarrow> u16 \<Rightarrow> string \<Rightarrow> bytes result" where
  "require records ty fld =
     ok_or (map_option rec_value (find (\<lambda>r. rec_ty r = ty) records)) (MissingField fld)"

text \<open>\<^verbatim>\<open>collect\<close> into a \<^verbatim>\<open>HashMap\<close> inserts front to back, so a later record of the same type wins.\<close>

definition insert_record :: "(u16 \<rightharpoonup> bytes) \<Rightarrow> TlvRecord \<Rightarrow> (u16 \<rightharpoonup> bytes)" where
  "insert_record m r = m(rec_ty r \<mapsto> rec_value r)"

definition build_record_map :: "TlvRecord list \<Rightarrow> (u16 \<rightharpoonup> bytes)" where
  "build_record_map records = foldl insert_record Map.empty records"

definition require_from_map :: "(u16 \<rightharpoonup> bytes) \<Rightarrow> u16 \<Rightarrow> string \<Rightarrow> bytes result" where
  "require_from_map m ty fld = ok_or (m ty) (MissingField fld)"

subsection \<open>The encoder\<close>

definition record_bytes :: "TlvRecord \<Rightarrow> bytes" where
  "record_bytes r = u16_to_be_bytes (rec_ty r)
     @ u16_to_be_bytes (of_nat (length (rec_value r))) @ rec_value r"

definition fits :: "TlvRecord list \<Rightarrow> bool" where
  "fits rs \<longleftrightarrow> list_all (\<lambda>r. length (rec_value r) \<le> u16_MAX) rs"

lemma fits_simps [simp]:
  "fits []"
  "fits (r # rs) \<longleftrightarrow> length (rec_value r) \<le> 65535 \<and> fits rs"
  "fits (rs @ ss) \<longleftrightarrow> fits rs \<and> fits ss"
  by (auto simp: fits_def)

lemma encode_loop_fits: "fits rs \<Longrightarrow> encode_loop rs out = Ok (out @ concat (map record_bytes rs))"
  by (induction rs arbitrary: out) (auto simp: record_bytes_def)

lemma encode_loop_Ok_fits: "encode_loop rs out = Ok bs \<Longrightarrow> fits rs"
  by (induction rs arbitrary: out) (auto split: if_splits)

lemma encode_fits: "fits rs \<Longrightarrow> encode rs = Ok (concat (map record_bytes rs))"
  by (simp add: encode_def encode_loop_fits)

lemma encode_eq_Ok_iff: "encode rs = Ok bs \<longleftrightarrow> fits rs \<and> bs = concat (map record_bytes rs)"
  using encode_loop_Ok_fits encode_fits by (fastforce simp: encode_def)

lemma encode_not_fits_Err: "\<not> fits rs \<Longrightarrow> \<exists>n > u16_MAX. encode rs = Err (InvalidLength ''tlv.value'' u16_MAX n)"
proof -
  have "\<not> fits rs \<Longrightarrow> \<exists>n > u16_MAX. encode_loop rs out = Err (InvalidLength ''tlv.value'' u16_MAX n)"
    for out by (induction rs arbitrary: out) auto
  then show "\<not> fits rs \<Longrightarrow> ?thesis" by (simp add: encode_def)
qed

subsection \<open>The reference parser and the cursor loop\<close>

fun tlv_parse :: "u16 list \<Rightarrow> DecodePolicy \<Rightarrow> u16 set \<Rightarrow> bytes \<Rightarrow> TlvRecord list result" where
  "tlv_parse known policy seen [] = Ok []"
| "tlv_parse known policy seen (t1 # t2 # l1 # l2 # rest) =
     (let ty = u16_from_be_bytes [t1, t2]; len = unat (u16_from_be_bytes [l1, l2]) in
      if length rest < len then Err (InvalidTlv ''declared length exceeds input'')
      else if reject_unknown_critical policy \<and> ty \<notin> set known \<and> is_critical ty
      then Err (UnknownCriticalTlv ty)
      else if reject_duplicates policy \<and> ty \<in> seen then Err (DuplicateTlv ty)
      else and_then (tlv_parse known policy (if reject_duplicates policy then insert ty seen else seen)
                       (drop len rest))
             (\<lambda>rs. Ok (tlv ty (take len rest) # rs)))"
| "tlv_parse known policy seen bs = Err (InvalidTlv ''truncated header'')"

lemma drop_four:
  assumes "4 \<le> length input - cursor"
  shows "drop cursor input = input ! cursor # input ! (cursor + 1) # input ! (cursor + 2)
    # input ! (cursor + 3) # drop (cursor + 4) input"
proof -
  have step: "c < length input \<Longrightarrow> drop c input = input ! c # drop (Suc c) input" for c
    by (simp add: Cons_nth_drop_Suc)
  from assms show ?thesis
    using step [of cursor] step [of "cursor + 1"] step [of "cursor + 2"] step [of "cursor + 3"]
    by (simp add: numeral_eq_Suc)
qed

lemma tlv_parse_short:
  assumes "0 < length bs" and "length bs < 4"
  shows "tlv_parse known policy seen bs = Err (InvalidTlv ''truncated header'')"
  using assms by (cases "(known, policy, seen, bs)" rule: tlv_parse.cases) auto

lemma decode_loop_parse:
  "decode_loop input known policy cursor records seen =
     and_then (tlv_parse known policy seen (drop cursor input)) (\<lambda>rs. Ok (records @ rs))"
proof (induction input known policy cursor records seen rule: decode_loop.induct)
  case (1 input known policy cursor records seen)
  consider (finished) "\<not> cursor < length input"
    | (short) "cursor < length input" "length input - cursor < 4"
    | (header) "cursor < length input" "\<not> length input - cursor < 4"
    by blast
  then show ?case
  proof cases
    case finished
    then show ?thesis by (simp add: decode_loop.simps [of input])
  next
    case short
    then show ?thesis
      by (simp add: decode_loop.simps [of input] tlv_parse_short)
  next
    case header
    then have d: "drop cursor input = input ! cursor # input ! (cursor + 1) # input ! (cursor + 2)
        # input ! (cursor + 3) # drop (cursor + 4) input"
      by (simp add: drop_four)
    show ?thesis
      using header "1.IH" [OF header(1) header(2) refl refl refl]
      by (subst decode_loop.simps) (auto simp: d Let_def and_then_assoc add.commute)
  qed
qed

lemma decode_with_policy_parse:
  "decode_with_policy input known policy = tlv_parse known policy {} input"
  by (cases "tlv_parse known policy {} input")
     (simp_all add: decode_with_policy_def decode_loop_parse)

lemma decode_strict_parse: "decode_strict input known = tlv_parse known default_policy {} input"
  by (simp add: decode_strict_def decode_with_policy_parse)

subsection \<open>Round trips\<close>

definition accepted :: "u16 list \<Rightarrow> DecodePolicy \<Rightarrow> u16 set \<Rightarrow> TlvRecord list \<Rightarrow> bool" where
  "accepted known policy seen rs \<longleftrightarrow> fits rs
     \<and> (reject_unknown_critical policy \<longrightarrow> (\<forall>t \<in> rec_ty ` set rs. is_critical t \<longrightarrow> t \<in> set known))
     \<and> (reject_duplicates policy \<longrightarrow> distinct (map rec_ty rs) \<and> rec_ty ` set rs \<inter> seen = {})"

lemma u16_two_bytes: "\<exists>a b. u16_to_be_bytes w = [a, b] \<and> u16_from_be_bytes [a, b] = w"
proof -
  have "length (u16_to_be_bytes w) = 2" by simp
  then obtain a b where "u16_to_be_bytes w = [a, b]"
    by (metis (no_types, lifting) Suc_length_conv length_0_conv numeral_2_eq_2)
  then show ?thesis by (metis u16_roundtrip)
qed

lemma tlv_parse_record:
  assumes "length (rec_value r) \<le> 65535"
  shows "tlv_parse known policy seen (record_bytes r @ bs) =
     (if reject_unknown_critical policy \<and> rec_ty r \<notin> set known \<and> is_critical (rec_ty r)
      then Err (UnknownCriticalTlv (rec_ty r))
      else if reject_duplicates policy \<and> rec_ty r \<in> seen then Err (DuplicateTlv (rec_ty r))
      else and_then (tlv_parse known policy
                       (if reject_duplicates policy then insert (rec_ty r) seen else seen) bs)
             (\<lambda>rs. Ok (r # rs)))"
proof -
  obtain a b where t: "u16_to_be_bytes (rec_ty r) = [a, b]" "u16_from_be_bytes [a, b] = rec_ty r"
    using u16_two_bytes by blast
  obtain c d where l: "u16_to_be_bytes (of_nat (length (rec_value r))) = [c, d]"
      "u16_from_be_bytes [c, d] = of_nat (length (rec_value r))"
    using u16_two_bytes by blast
  have n: "unat (of_nat (length (rec_value r)) :: u16) = length (rec_value r)"
    using assms by (simp add: unat_of_nat)
  have bytes: "record_bytes r @ bs = a # b # c # d # rec_value r @ bs"
    by (simp add: record_bytes_def t l)
  have surj: "tlv (rec_ty r) (rec_value r) = r" by simp
  show ?thesis
    unfolding bytes by (simp add: t(2) l(2) n Let_def surj del: unat_of_nat)
qed

lemma tlv_parse_records:
  assumes "accepted known policy seen rs"
  shows "tlv_parse known policy seen (concat (map record_bytes rs)) = Ok rs"
  using assms
proof (induction rs arbitrary: seen)
  case (Cons r rs)
  have "accepted known policy (if reject_duplicates policy then insert (rec_ty r) seen else seen) rs"
    using Cons.prems by (auto simp: accepted_def)
  from Cons.IH [OF this] Cons.prems show ?case
    by (auto simp: tlv_parse_record accepted_def)
qed simp

lemma tlv_parse_Ok:
  assumes "tlv_parse known policy seen bs = Ok rs"
  shows "accepted known policy seen rs \<and> concat (map record_bytes rs) = bs"
  using assms
proof (induction known policy seen bs arbitrary: rs rule: tlv_parse.induct)
  case (2 known policy seen t1 t2 l1 l2 rest)
  define ty where "ty = u16_from_be_bytes [t1, t2]"
  define len where "len = unat (u16_from_be_bytes [l1, l2])"
  define seen' where "seen' = (if reject_duplicates policy then insert ty seen else seen)"
  from "2.prems" obtain ss where
      guards: "len \<le> length rest" "\<not> (reject_unknown_critical policy \<and> ty \<notin> set known \<and> is_critical ty)"
        "\<not> (reject_duplicates policy \<and> ty \<in> seen)"
      and ss: "tlv_parse known policy seen' (drop len rest) = Ok ss"
      and rs: "rs = tlv ty (take len rest) # ss"
    by (auto simp: Let_def ty_def len_def seen'_def split: if_splits)
  have IH: "accepted known policy seen' ss" "concat (map record_bytes ss) = drop len rest"
    using "2.IH" [OF refl refl _ _ _ ss [unfolded seen'_def ty_def len_def]] guards
    by (auto simp: ty_def len_def seen'_def)
  have "len \<le> 65535" using unsigned_less [where ?'a = nat, of "u16_from_be_bytes [l1, l2]"]
    by (simp add: len_def)
  moreover have "u16_to_be_bytes ty = [t1, t2]" by (simp add: ty_def)
  moreover have "u16_to_be_bytes (of_nat len) = [l1, l2]" by (simp add: len_def)
  ultimately have "record_bytes (tlv ty (take len rest)) = t1 # t2 # l1 # l2 # take len rest"
    using guards(1) by (simp add: record_bytes_def min_def)
  then have "concat (map record_bytes rs) = t1 # t2 # l1 # l2 # rest"
    using IH(2) by (simp add: rs)
  moreover have "accepted known policy seen rs"
    using IH(1) guards \<open>len \<le> 65535\<close> by (auto simp: rs accepted_def seen'_def)
  ultimately show ?case by simp
qed (auto simp: accepted_def)

lemma decode_with_policy_Ok_iff:
  "decode_with_policy bs known policy = Ok rs \<longleftrightarrow> accepted known policy {} rs \<and> encode rs = Ok bs"
  using tlv_parse_Ok tlv_parse_records
  by (fastforce simp: decode_with_policy_parse encode_eq_Ok_iff accepted_def)

lemma accepted_strict:
  "accepted known default_policy {} rs \<longleftrightarrow>
     fits rs \<and> distinct (map rec_ty rs) \<and> (\<forall>t \<in> rec_ty ` set rs. is_critical t \<longrightarrow> t \<in> set known)"
  by (auto simp: accepted_def default_policy_def)

lemma decode_strict_encode:
  assumes "encode rs = Ok bs" and "distinct (map rec_ty rs)" and "rec_ty ` set rs \<subseteq> set known"
  shows "decode_strict bs known = Ok rs"
  using assms unfolding decode_strict_def decode_with_policy_Ok_iff accepted_strict
  by (auto simp: encode_eq_Ok_iff)

lemma encode_inject:
  assumes "encode rs = Ok bs" and "encode ss = Ok bs"
  shows "rs = ss"
proof -
  define lenient where "lenient = \<lparr>reject_unknown_critical = False, reject_duplicates = False\<rparr>"
  have "decode_with_policy bs [] lenient = Ok rs" "decode_with_policy bs [] lenient = Ok ss"
    using assms by (auto simp: decode_with_policy_Ok_iff accepted_def lenient_def encode_eq_Ok_iff)
  then show ?thesis by simp
qed

subsection \<open>Field lookup\<close>

text \<open>\<open>push_opt t v\<close> is the conditional push of an optional field: nothing, or one record.\<close>

definition push_opt :: "u16 \<Rightarrow> bytes option \<Rightarrow> TlvRecord list" where
  "push_opt t v = (case v of None \<Rightarrow> [] | Some x \<Rightarrow> [tlv t x])"

lemma push_opt_simps [simp]: "push_opt t None = []" "push_opt t (Some x) = [tlv t x]"
  by (simp_all add: push_opt_def)

lemma foldl_insert_record: "foldl insert_record m rs = m ++ foldl insert_record Map.empty rs"
proof (induction rs rule: rev_induct)
  case (snoc r rs)
  have "insert_record (m ++ n) r = m ++ insert_record n r" for n
    by (simp add: insert_record_def)
  with snoc show ?case by (metis foldl_Cons foldl_Nil foldl_append)
qed simp

lemma build_record_map_simps [simp]:
  "build_record_map [] = Map.empty"
  "build_record_map (r # rs) = [rec_ty r \<mapsto> rec_value r] ++ build_record_map rs"
  "build_record_map (rs @ ss) = build_record_map rs ++ build_record_map ss"
  by (simp_all add: build_record_map_def insert_record_def
        foldl_insert_record [of "[rec_ty r \<mapsto> rec_value r]"]
        foldl_insert_record [of "foldl insert_record Map.empty rs"])

lemma build_record_map_None: "t \<notin> rec_ty ` set rs \<Longrightarrow> build_record_map rs t = None"
  by (induction rs) (auto simp: map_add_def)

lemma build_record_map_push_opt [simp]:
  "build_record_map (push_opt t v) k = (if k = t then v else None)"
  by (cases v) auto

lemma push_opt_types: "rec_ty ` set (push_opt t v) \<subseteq> {t}"
  by (cases v) auto

lemma fits_push_opt [simp]: "fits (push_opt t v) \<longleftrightarrow> (\<forall>x \<in> set_option v. length x \<le> 65535)"
  by (cases v) auto

lemma distinct_push_opt [simp]: "distinct (map rec_ty (push_opt t v))"
  by (cases v) auto

lemma build_record_map_Some_iff:
  "distinct (map rec_ty rs) \<Longrightarrow> build_record_map rs t = Some v \<longleftrightarrow> tlv t v \<in> set rs"
proof (induction rs)
  case (Cons r rs)
  have "tlv t v = r \<longleftrightarrow> t = rec_ty r \<and> v = rec_value r" by (cases r) auto
  moreover have "build_record_map rs (rec_ty r) = None"
    using Cons.prems by (simp add: build_record_map_None)
  moreover have "t = rec_ty r \<Longrightarrow> tlv t v \<notin> set rs"
    using Cons.prems by (auto simp: image_iff)
  ultimately show ?case
    using Cons by (auto simp: map_add_def split: option.splits)
qed simp

text \<open>With distinct types the map is the first match, which evaluates well on concrete record lists.\<close>

fun tlv_find :: "TlvRecord list \<Rightarrow> u16 \<Rightarrow> bytes option" where
  "tlv_find [] t = None"
| "tlv_find (r # rs) t = (if rec_ty r = t then Some (rec_value r) else tlv_find rs t)"

definition opt_or :: "'a option \<Rightarrow> 'a option \<Rightarrow> 'a option" where
  "opt_or a b = (case a of None \<Rightarrow> b | Some x \<Rightarrow> Some x)"

lemma opt_or_simps [simp]: "opt_or a None = a" "opt_or None b = b" "opt_or (Some x) b = Some x"
  by (simp_all add: opt_or_def split: option.splits)

lemma tlv_find_push_opt [simp]:
  "tlv_find (push_opt k v @ rs) t = (if k = t then opt_or v (tlv_find rs t) else tlv_find rs t)"
  "tlv_find (push_opt k v) t = (if k = t then v else None)"
  by (cases v; simp)+

lemma build_record_map_find: "distinct (map rec_ty rs) \<Longrightarrow> build_record_map rs t = tlv_find rs t"
proof (induction rs)
  case (Cons r rs)
  moreover have "build_record_map rs (rec_ty r) = None"
    using Cons.prems by (simp add: build_record_map_None)
  ultimately show ?case by (auto simp: map_add_def split: option.splits)
qed simp

lemma require_from_map_eq_Ok [simp]: "require_from_map m t f = Ok v \<longleftrightarrow> m t = Some v"
  by (simp add: require_from_map_def)

lemma require_eq_map:
  "distinct (map rec_ty rs) \<Longrightarrow> require rs t f = require_from_map (build_record_map rs) t f"
proof -
  assume d: "distinct (map rec_ty rs)"
  have "map_option rec_value (find (\<lambda>r. rec_ty r = t) rs) = build_record_map rs t"
    using d
  proof (induction rs)
    case (Cons r rs)
    have "build_record_map rs (rec_ty r) = None"
      using Cons.prems by (simp add: build_record_map_None)
    with Cons show ?case by (auto simp: map_add_def split: option.splits)
  qed simp
  then show ?thesis by (simp add: require_def require_from_map_def)
qed

lemma decode_strict_fits:
  "decode_strict bs known = Ok rs \<Longrightarrow> build_record_map rs t = Some v \<Longrightarrow> length v \<le> 65535"
  unfolding decode_strict_def decode_with_policy_Ok_iff accepted_strict
  by (auto simp: build_record_map_Some_iff fits_def list_all_iff)

subsection \<open>The strict decoder is exact\<close>

text \<open>
  C17. The strict decoder accepts exactly the canonical encodings: it returns the records \<open>rs\<close> on
  the input \<open>bs\<close> if and only if the encoder writes \<open>bs\<close> for \<open>rs\<close>, no two records have the same
  type, and every record type with the critical bit is a known one. In particular no byte of
  the input is ignored and no two inputs decode to the same records.
\<close>

theorem decode_strict_exact:
  "decode_strict bs known = Ok rs \<longleftrightarrow>
     encode rs = Ok bs \<and> distinct (map rec_ty rs)
     \<and> set (filter is_critical (map rec_ty rs)) \<subseteq> set known"
  unfolding decode_strict_def decode_with_policy_Ok_iff accepted_strict
  by (auto simp: encode_eq_Ok_iff)

end
