(* ===== verification/Codec.thy ===== *)
theory Codec
  imports Tlv
begin

text \<open>
  The contract every message structure of the protocol offers to the code that sends and
  receives it: well-formed messages encode, the decoder inverts the encoder, and whatever the
  decoder returns is well formed. The locale is interpreted for each structure of
  \<^verbatim>\<open>wire.rs\<close>, \<^verbatim>\<open>handshake.rs\<close> and \<^verbatim>\<open>sealed.rs\<close> in the theory that models it.
\<close>

locale codec =
  fixes enc :: "'m \<Rightarrow> bytes result"
    and dec :: "bytes \<Rightarrow> 'm result"
    and wf :: "'m \<Rightarrow> bool"
  assumes enc_defined: "wf m \<Longrightarrow> is_ok (enc m)"
    and dec_enc: "wf m \<Longrightarrow> enc m = Ok bs \<Longrightarrow> dec bs = Ok m"
    and dec_wf: "dec bs = Ok m \<Longrightarrow> wf m"
begin

lemma roundtrip: "wf m \<Longrightarrow> \<exists>bs. enc m = Ok bs \<and> dec bs = Ok m"
  using enc_defined [of m] dec_enc by (auto simp: is_ok_iff)

lemma enc_inject:
  assumes "wf m" and "wf m'" and "enc m = enc m'"
  shows "m = m'"
proof -
  obtain bs where "enc m = Ok bs" "dec bs = Ok m" using roundtrip assms(1) by blast
  with dec_enc [OF assms(2), of bs] assms(3) show ?thesis by simp
qed

lemma wf_iff_roundtrip: "wf m \<longleftrightarrow> (\<exists>bs. enc m = Ok bs \<and> dec bs = Ok m)"
  using roundtrip dec_wf by blast

lemma reencode_stable:
  assumes "dec bs = Ok m"
  shows "and_then (enc m) dec = Ok m"
  using roundtrip [OF dec_wf [OF assms]] by auto

end

subsection \<open>Decoding steps shared by the structures\<close>

text \<open>
  A structure is decoded from a list of records with pairwise distinct known types; its map is
  then the map of the records the encoder wrote.
\<close>

lemma decode_strict_map:
  assumes "encode rs = Ok bs" and "distinct (map rec_ty rs)" and "rec_ty ` set rs \<subseteq> set known"
  shows "and_then (decode_strict bs known) (\<lambda>rs. f (build_record_map rs)) = f (build_record_map rs)"
  using decode_strict_encode [OF assms] by simp

end
