(* ===== verification/Rust_Str.thy ===== *)
theory Rust_Str
  imports Prelude
begin

text \<open>
  What the sources use of Rust's string library. A \<^verbatim>\<open>String\<close> or \<^verbatim>\<open>&str\<close> is its
  UTF-8 byte sequence, so \<^verbatim>\<open>as_bytes\<close> is the identity, \<^verbatim>\<open>len\<close> counts bytes and the
  comparison operators compare bytes lexicographically; \<open>valid_utf8\<close> is the check of
  \<^verbatim>\<open>core::str::from_utf8\<close>. Also here: \<^verbatim>\<open>trim\<close>, \<^verbatim>\<open>to_ascii_lowercase\<close> and the
  decimal formatting of integers.
\<close>

type_synonym rstr = bytes

definition str_bytes :: "string \<Rightarrow> rstr" where
  "str_bytes s = map of_char s"

definition cont_byte :: "u8 \<Rightarrow> bool" where
  "cont_byte b \<longleftrightarrow> 0x80 \<le> b \<and> b \<le> 0xBF"

definition second3 :: "u8 \<Rightarrow> u8 \<Rightarrow> bool" where
  "second3 b c \<longleftrightarrow> (if b = 0xE0 then 0xA0 \<le> c \<and> c \<le> 0xBF
     else if b = 0xED then 0x80 \<le> c \<and> c \<le> 0x9F else cont_byte c)"

definition second4 :: "u8 \<Rightarrow> u8 \<Rightarrow> bool" where
  "second4 b c \<longleftrightarrow> (if b = 0xF0 then 0x90 \<le> c \<and> c \<le> 0xBF
     else if b = 0xF4 then 0x80 \<le> c \<and> c \<le> 0x8F else cont_byte c)"

fun valid_utf8 :: "bytes \<Rightarrow> bool" where
  "valid_utf8 [] = True"
| "valid_utf8 (b # bs) =
     (if b < 0x80 then valid_utf8 bs
      else if 0xC2 \<le> b \<and> b \<le> 0xDF then
        (case bs of c1 # rest \<Rightarrow> cont_byte c1 \<and> valid_utf8 rest | _ \<Rightarrow> False)
      else if 0xE0 \<le> b \<and> b \<le> 0xEF then
        (case bs of c1 # c2 # rest \<Rightarrow> second3 b c1 \<and> cont_byte c2 \<and> valid_utf8 rest | _ \<Rightarrow> False)
      else if 0xF0 \<le> b \<and> b \<le> 0xF4 then
        (case bs of c1 # c2 # c3 # rest \<Rightarrow>
             second4 b c1 \<and> cont_byte c2 \<and> cont_byte c3 \<and> valid_utf8 rest | _ \<Rightarrow> False)
      else False)"

definition from_utf8 :: "bytes \<Rightarrow> 'e \<Rightarrow> 'e + rstr" where
  "from_utf8 bs e = (if valid_utf8 bs then Ok bs else Err e)"

text \<open>The UTF-8 encodings of the characters with the Unicode property White\_Space.\<close>

definition ws_chars :: "bytes list" where
  "ws_chars = map (\<lambda>b. [b]) [9, 10, 11, 12, 13, 32]
     @ [[0xC2, 0x85], [0xC2, 0xA0], [0xE1, 0x9A, 0x80]]
     @ map (\<lambda>b. [0xE2, 0x80, b]) [0x80, 0x81, 0x82, 0x83, 0x84, 0x85, 0x86, 0x87, 0x88, 0x89, 0x8A,
         0xA8, 0xA9, 0xAF]
     @ [[0xE2, 0x81, 0x9F], [0xE3, 0x80, 0x80]]"

definition ws_prefix_len :: "rstr \<Rightarrow> nat" where
  "ws_prefix_len s = (if take 1 s \<in> set ws_chars then 1
     else if take 2 s \<in> set ws_chars then 2
     else if take 3 s \<in> set ws_chars then 3 else 0)"

definition ws_suffix_len :: "rstr \<Rightarrow> nat" where
  "ws_suffix_len s = (if drop (length s - 1) s \<in> set ws_chars then 1
     else if drop (length s - 2) s \<in> set ws_chars then 2
     else if drop (length s - 3) s \<in> set ws_chars then 3 else 0)"

lemma Nil_not_ws [simp]: "[] \<notin> set ws_chars"
  by (simp add: ws_chars_def)

lemma ws_prefix_len_nonempty: "0 < ws_prefix_len s \<Longrightarrow> 0 < length s"
  by (cases s) (auto simp: ws_prefix_len_def)

lemma ws_suffix_len_nonempty: "0 < ws_suffix_len s \<Longrightarrow> 0 < length s"
  by (cases s) (auto simp: ws_suffix_len_def)

function trim_start :: "rstr \<Rightarrow> rstr" where
  "trim_start s = (if 0 < ws_prefix_len s then trim_start (drop (ws_prefix_len s) s) else s)"
  by pat_completeness auto
termination
  by (relation "measure length") (simp, metis in_measure length_drop diff_less ws_prefix_len_nonempty)

function trim_end :: "rstr \<Rightarrow> rstr" where
  "trim_end s = (if 0 < ws_suffix_len s then trim_end (take (length s - ws_suffix_len s) s) else s)"
  by pat_completeness auto
termination
  by (relation "measure length") (simp, use ws_suffix_len_nonempty in force)

declare trim_start.simps [simp del] trim_end.simps [simp del]

definition trim :: "rstr \<Rightarrow> rstr" where
  "trim s = trim_end (trim_start s)"

definition to_ascii_lowercase :: "rstr \<Rightarrow> rstr" where
  "to_ascii_lowercase s = map (\<lambda>b. if 0x41 \<le> b \<and> b \<le> 0x5A then b + 0x20 else b) s"

definition is_ascii_hexdigit :: "u8 \<Rightarrow> bool" where
  "is_ascii_hexdigit b \<longleftrightarrow> (0x30 \<le> b \<and> b \<le> 0x39) \<or> (0x41 \<le> b \<and> b \<le> 0x46) \<or> (0x61 \<le> b \<and> b \<le> 0x66)"

fun dec_digits :: "nat \<Rightarrow> rstr" where
  "dec_digits n = (if n < 10 then [of_nat (48 + n)] else dec_digits (n div 10) @ [of_nat (48 + n mod 10)])"

declare dec_digits.simps [simp del]

lemma from_utf8_eq_Ok [simp]: "from_utf8 bs e = Ok s \<longleftrightarrow> valid_utf8 bs \<and> s = bs"
  by (auto simp: from_utf8_def)

lemma length_trim_start: "length (trim_start s) \<le> length s"
  by (induction s rule: trim_start.induct) (subst trim_start.simps, force)

lemma length_trim_end: "length (trim_end s) \<le> length s"
  by (induction s rule: trim_end.induct) (subst trim_end.simps, force)

lemma length_trim: "length (trim s) \<le> length s"
  using length_trim_start length_trim_end order_trans unfolding trim_def by blast

lemma valid_utf8_ascii: "list_all (\<lambda>b. b < 0x80) bs \<Longrightarrow> valid_utf8 bs"
  by (induction bs) auto

lemma trim_plain:
  assumes "ws_prefix_len s = 0" and "ws_suffix_len s = 0"
  shows "trim s = s"
  using assms by (simp add: trim_def trim_start.simps trim_end.simps)

text \<open>Lexicographic order on byte strings, as \<^verbatim>\<open>Ord for str\<close> compares.\<close>

fun str_less :: "rstr \<Rightarrow> rstr \<Rightarrow> bool" where
  "str_less [] [] = False"
| "str_less [] (y # ys) = True"
| "str_less (x # xs) [] = False"
| "str_less (x # xs) (y # ys) = (x < y \<or> x = y \<and> str_less xs ys)"

definition str_le :: "rstr \<Rightarrow> rstr \<Rightarrow> bool" where
  "str_le s t \<longleftrightarrow> s = t \<or> str_less s t"

lemma str_less_irrefl [simp]: "\<not> str_less s s"
  by (induction s) auto

lemma str_less_trans: "str_less s t \<Longrightarrow> str_less t u \<Longrightarrow> str_less s u"
proof (induction s t arbitrary: u rule: str_less.induct)
  case (4 x xs y ys)
  then show ?case by (cases u) auto
next
  case (2 y ys)
  then show ?case by (cases u) auto
qed auto

lemma str_less_linear: "s \<noteq> t \<Longrightarrow> str_less s t \<or> str_less t s"
  by (induction s t rule: str_less.induct) auto

lemma str_less_asym: "str_less s t \<Longrightarrow> \<not> str_less t s"
  using str_less_trans str_less_irrefl by blast

lemma str_le_total: "str_le s t \<or> str_le t s"
  using str_less_linear by (auto simp: str_le_def)

lemma str_le_antisym: "str_le s t \<Longrightarrow> str_le t s \<Longrightarrow> s = t"
  using str_less_asym by (auto simp: str_le_def)

end
