(* ===== verification/Alg.thy ===== *)
theory Alg
  imports Core_Error Rust_Str
begin

text \<open>
  \<^verbatim>\<open>alg.rs\<close>: the algorithm registry, the suite identifiers, the security profiles and the
  policy checks. The Cargo features of the crate are the record \<open>features\<close>, an argument of every
  function whose source tests \<^verbatim>\<open>cfg!(feature = ..)\<close>.
\<close>

record features =
  feat_pq_oqs :: bool
  feat_pq_rust :: bool
  feat_fips :: bool
  feat_classical_only :: bool

definition PROTOCOL_VERSION_V1 :: u16 where "PROTOCOL_VERSION_V1 = 1"
definition ALGORITHM_REGISTRY_V1 :: u16 where "ALGORITHM_REGISTRY_V1 = 1"
definition SUITE_ID_MLKEM768 :: u16 where "SUITE_ID_MLKEM768 = 1"
definition SUITE_ID_KYBER768 :: u16 where "SUITE_ID_KYBER768 = 2"
definition WIRE_VERSION :: u16 where "WIRE_VERSION = 1"
definition WIRE_VERSION_V2 :: u16 where "WIRE_VERSION_V2 = 2"
definition DEFAULT_SUITE_ID :: u16 where "DEFAULT_SUITE_ID = SUITE_ID_MLKEM768"

lemmas version_simps =
  PROTOCOL_VERSION_V1_def ALGORITHM_REGISTRY_V1_def SUITE_ID_MLKEM768_def SUITE_ID_KYBER768_def
  WIRE_VERSION_def WIRE_VERSION_V2_def DEFAULT_SUITE_ID_def

definition is_fips_mode :: "features \<Rightarrow> bool" where
  "is_fips_mode ft = feat_fips ft"

definition FIPS_APPROVED_SUITE_IDS :: "u16 list" where
  "FIPS_APPROVED_SUITE_IDS = [SUITE_ID_MLKEM768]"

datatype SecurityProfile = Research | HighAssurance | NssAligned

record VersionedAlgorithmId =
  registry_version :: u16
  alg_id :: u16

definition new_versioned_id :: "u16 \<Rightarrow> u16 \<Rightarrow> VersionedAlgorithmId" where
  "new_versioned_id r i = \<lparr>registry_version = r, alg_id = i\<rparr>"

datatype KemAlgorithm = KemMlKem768 | Kyber768Alias
datatype DhAlgorithm = X25519
datatype KdfAlgorithm = HkdfSha256
datatype AeadAlgorithm = ChaCha20Poly1305
datatype SignatureAlgorithm = External | HybridEd25519MlDsa65

fun kem_as_id :: "KemAlgorithm \<Rightarrow> VersionedAlgorithmId" where
  "kem_as_id KemMlKem768 = new_versioned_id ALGORITHM_REGISTRY_V1 0x0001"
| "kem_as_id Kyber768Alias = new_versioned_id ALGORITHM_REGISTRY_V1 0x0002"

definition kem_from_id :: "VersionedAlgorithmId \<Rightarrow> KemAlgorithm result" where
  "kem_from_id i =
     (if registry_version i \<noteq> ALGORITHM_REGISTRY_V1 then Err (UnsupportedAlgorithm ''kem.registry_version'')
      else if alg_id i = 0x0001 then Ok KemMlKem768
      else if alg_id i = 0x0002 then Ok Kyber768Alias
      else Err (UnsupportedAlgorithm ''kem.id''))"

fun dh_as_id :: "DhAlgorithm \<Rightarrow> VersionedAlgorithmId" where
  "dh_as_id X25519 = new_versioned_id ALGORITHM_REGISTRY_V1 0x0101"

fun kdf_as_id :: "KdfAlgorithm \<Rightarrow> VersionedAlgorithmId" where
  "kdf_as_id HkdfSha256 = new_versioned_id ALGORITHM_REGISTRY_V1 0x0201"

fun aead_as_id :: "AeadAlgorithm \<Rightarrow> VersionedAlgorithmId" where
  "aead_as_id ChaCha20Poly1305 = new_versioned_id ALGORITHM_REGISTRY_V1 0x0301"

fun sig_as_id :: "SignatureAlgorithm \<Rightarrow> VersionedAlgorithmId" where
  "sig_as_id External = new_versioned_id ALGORITHM_REGISTRY_V1 0x0401"
| "sig_as_id HybridEd25519MlDsa65 = new_versioned_id ALGORITHM_REGISTRY_V1 0x0402"

record AlgorithmSuite =
  suite_kem :: KemAlgorithm
  suite_dh :: DhAlgorithm
  suite_kdf :: KdfAlgorithm
  suite_aead :: AeadAlgorithm
  suite_signature :: SignatureAlgorithm

definition default_suite :: AlgorithmSuite where
  "default_suite = \<lparr>suite_kem = KemMlKem768, suite_dh = X25519, suite_kdf = HkdfSha256,
     suite_aead = ChaCha20Poly1305, suite_signature = External\<rparr>"

definition suite_id :: "AlgorithmSuite \<Rightarrow> u16 result" where
  "suite_id s = (case (suite_kem s, suite_dh s, suite_kdf s, suite_aead s) of
       (KemMlKem768, X25519, HkdfSha256, ChaCha20Poly1305) \<Rightarrow> Ok SUITE_ID_MLKEM768
     | (Kyber768Alias, X25519, HkdfSha256, ChaCha20Poly1305) \<Rightarrow> Ok SUITE_ID_KYBER768)"

definition from_suite_id :: "u16 \<Rightarrow> AlgorithmSuite result" where
  "from_suite_id i =
     (if i = SUITE_ID_MLKEM768 then
        Ok \<lparr>suite_kem = KemMlKem768, suite_dh = X25519, suite_kdf = HkdfSha256,
            suite_aead = ChaCha20Poly1305, suite_signature = External\<rparr>
      else if i = SUITE_ID_KYBER768 then
        Ok \<lparr>suite_kem = Kyber768Alias, suite_dh = X25519, suite_kdf = HkdfSha256,
            suite_aead = ChaCha20Poly1305, suite_signature = External\<rparr>
      else Err (UnsupportedAlgorithm ''suite.id''))"

fun profile_as_str :: "SecurityProfile \<Rightarrow> rstr" where
  "profile_as_str Research = str_bytes ''research''"
| "profile_as_str HighAssurance = str_bytes ''high_assurance''"
| "profile_as_str NssAligned = str_bytes ''nss_aligned''"

definition profile_parse :: "rstr \<Rightarrow> SecurityProfile result" where
  "profile_parse v =
     (let s = to_ascii_lowercase (trim v) in
      if s = str_bytes ''research'' then Ok Research
      else if s = str_bytes ''high_assurance'' \<or> s = str_bytes ''high-assurance'' then Ok HighAssurance
      else if s = str_bytes ''nss_aligned'' \<or> s = str_bytes ''nss-aligned'' then Ok NssAligned
      else Err (InvalidSecurityProfile ''profile''))"

definition requires_tls :: "SecurityProfile \<Rightarrow> bool" where
  "requires_tls p \<longleftrightarrow> p \<noteq> Research"

definition requires_pq_backend :: "features \<Rightarrow> SecurityProfile \<Rightarrow> bool" where
  "requires_pq_backend ft p \<longleftrightarrow> (if feat_classical_only ft then False else p \<noteq> Research)"

definition allows_suite_id :: "features \<Rightarrow> SecurityProfile \<Rightarrow> u16 \<Rightarrow> bool" where
  "allows_suite_id ft p i =
     (if is_fips_mode ft then i \<in> set FIPS_APPROVED_SUITE_IDS
      else case p of
          Research \<Rightarrow> is_ok (from_suite_id i)
        | HighAssurance \<Rightarrow> i = SUITE_ID_MLKEM768 \<or> i = SUITE_ID_KYBER768
        | NssAligned \<Rightarrow> i = SUITE_ID_MLKEM768)"

definition enforce_suite_id :: "features \<Rightarrow> SecurityProfile \<Rightarrow> u16 \<Rightarrow> unit result" where
  "enforce_suite_id ft p i =
     (if allows_suite_id ft p i then Ok () else Err (PolicyViolation ''security_profile.suite_id''))"

record RuntimeCryptoProfile =
  rt_protocol_version :: u16
  rt_suite_id :: u16
  rt_kem :: KemAlgorithm
  rt_dh :: DhAlgorithm
  rt_kdf :: KdfAlgorithm
  rt_aead :: AeadAlgorithm
  rt_signature :: SignatureAlgorithm
  rt_pq_oqs_enabled :: bool
  rt_fips_mode :: bool
  rt_supported_wire_versions :: "u16 list"

definition enforce_runtime_profile ::
  "features \<Rightarrow> SecurityProfile \<Rightarrow> RuntimeCryptoProfile \<Rightarrow> unit result" where
  "enforce_runtime_profile ft p rt =
     (if requires_pq_backend ft p \<and> \<not> rt_pq_oqs_enabled rt
      then Err (PolicyViolation ''security_profile.pq_backend'')
      else enforce_suite_id ft p (rt_suite_id rt))"

definition default_supported_wire_versions :: "u16 list" where
  "default_supported_wire_versions = [WIRE_VERSION_V2, WIRE_VERSION]"

definition runtime_crypto_profile :: "features \<Rightarrow> RuntimeCryptoProfile result" where
  "runtime_crypto_profile ft =
     (let suite = default_suite in
      and_then (suite_id suite) (\<lambda>i.
        Ok \<lparr>rt_protocol_version = PROTOCOL_VERSION_V1, rt_suite_id = i,
            rt_kem = suite_kem suite, rt_dh = suite_dh suite, rt_kdf = suite_kdf suite,
            rt_aead = suite_aead suite, rt_signature = suite_signature suite,
            rt_pq_oqs_enabled = (feat_pq_oqs ft \<or> feat_pq_rust ft),
            rt_fips_mode = is_fips_mode ft,
            rt_supported_wire_versions = default_supported_wire_versions\<rparr>))"

definition enforce_runtime_security_profile ::
  "features \<Rightarrow> SecurityProfile \<Rightarrow> u16 option \<Rightarrow> RuntimeCryptoProfile result" where
  "enforce_runtime_security_profile ft p sid =
     and_then (runtime_crypto_profile ft) (\<lambda>runtime.
     and_then (enforce_runtime_profile ft p runtime) (\<lambda>_.
     and_then (case sid of Some i \<Rightarrow> enforce_suite_id ft p i | None \<Rightarrow> Ok ()) (\<lambda>_.
     Ok runtime)))"

record CryptoAgilityRegistry =
  reg_protocol_version :: u16
  reg_registry_version :: u16

definition default_registry :: CryptoAgilityRegistry where
  "default_registry = \<lparr>reg_protocol_version = PROTOCOL_VERSION_V1,
     reg_registry_version = ALGORITHM_REGISTRY_V1\<rparr>"

definition supports_suite :: "CryptoAgilityRegistry \<Rightarrow> AlgorithmSuite \<Rightarrow> bool" where
  "supports_suite reg suite \<longleftrightarrow>
     reg_protocol_version reg = PROTOCOL_VERSION_V1
     \<and> registry_version (kem_as_id (suite_kem suite)) = reg_registry_version reg
     \<and> suite_dh suite = X25519 \<and> suite_kdf suite = HkdfSha256 \<and> suite_aead suite = ChaCha20Poly1305"

text \<open>The feature combinations that compile: \<^verbatim>\<open>compile_error!\<close> in \<^verbatim>\<open>kem.rs\<close> rejects the rest.\<close>

definition buildable :: "features \<Rightarrow> bool" where
  "buildable ft \<longleftrightarrow> (feat_pq_oqs ft \<or> feat_pq_rust ft \<or> feat_classical_only ft)
     \<and> \<not> (feat_fips ft \<and> feat_classical_only ft)"

subsection \<open>Lemmas\<close>

lemma kem_id_roundtrip: "kem_from_id (kem_as_id k) = Ok k"
  by (cases k) (simp_all add: kem_from_id_def new_versioned_id_def ALGORITHM_REGISTRY_V1_def)

lemma suite_id_Ok: "\<exists>i. suite_id s = Ok i \<and> i \<in> {SUITE_ID_MLKEM768, SUITE_ID_KYBER768}"
  by (auto simp: suite_id_def split: KemAlgorithm.splits DhAlgorithm.splits KdfAlgorithm.splits
      AeadAlgorithm.splits)

lemma from_suite_id_Ok_iff:
  "is_ok (from_suite_id i) \<longleftrightarrow> i = SUITE_ID_MLKEM768 \<or> i = SUITE_ID_KYBER768"
  by (auto simp: from_suite_id_def)

lemma suite_id_from_suite_id: "from_suite_id i = Ok s \<Longrightarrow> suite_id s = Ok i"
  by (auto simp: from_suite_id_def suite_id_def split: if_splits)

lemma from_suite_id_suite_id:
  "suite_id s = Ok i \<Longrightarrow> from_suite_id i = Ok (s\<lparr>suite_signature := External\<rparr>)"
proof -
  assume "suite_id s = Ok i"
  moreover have "suite_dh s = X25519" "suite_kdf s = HkdfSha256" "suite_aead s = ChaCha20Poly1305"
    using DhAlgorithm.exhaust KdfAlgorithm.exhaust AeadAlgorithm.exhaust by metis+
  ultimately show ?thesis
    by (cases s, cases "suite_kem s") (auto simp: from_suite_id_def suite_id_def version_simps)
qed

lemma allows_suite_id_known: "allows_suite_id ft p i \<Longrightarrow> is_ok (from_suite_id i)"
  by (auto simp: allows_suite_id_def from_suite_id_Ok_iff FIPS_APPROVED_SUITE_IDS_def
      split: if_splits SecurityProfile.splits)

lemma profile_parse_as_str_aux:
  "trim (profile_as_str p) = profile_as_str p \<and> to_ascii_lowercase (profile_as_str p) = profile_as_str p"
  by (cases p) (simp_all add: trim_plain ws_prefix_len_def ws_suffix_len_def ws_chars_def str_bytes_def
      to_ascii_lowercase_def of_char_def)

lemma profile_parse_as_str: "profile_parse (profile_as_str p) = Ok p"
  using profile_parse_as_str_aux [of p]
  by (cases p) (simp_all add: profile_parse_def str_bytes_def of_char_def)

lemma enforce_runtime_Ok_iff:
  "is_ok (enforce_runtime_security_profile ft p sid) \<longleftrightarrow>
     (requires_pq_backend ft p \<longrightarrow> feat_pq_oqs ft \<or> feat_pq_rust ft)
     \<and> (\<forall>i \<in> set_option sid. allows_suite_id ft p i)"
  by (cases sid; cases p)
     (auto simp: enforce_runtime_security_profile_def runtime_crypto_profile_def suite_id_def
      default_suite_def enforce_runtime_profile_def enforce_suite_id_def allows_suite_id_def
      FIPS_APPROVED_SUITE_IDS_def from_suite_id_Ok_iff)

end
