(* ===== verification/Crypto.thy ===== *)
theory Crypto
  imports Core_Error
begin

text \<open>
  The primitives of the crates \<^verbatim>\<open>hkdf\<close>, \<^verbatim>\<open>chacha20poly1305\<close>, \<^verbatim>\<open>x25519-dalek\<close>,
  \<^verbatim>\<open>sha2\<close>, \<^verbatim>\<open>aes\<close>/\<^verbatim>\<open>ctr\<close> and \<^verbatim>\<open>ed25519-dalek\<close> are the fields of the record
  \<open>crypto\<close>, a parameter of every definition that calls them. What the protocol code relies on is
  stated by the predicates \<open>hkdf_ok\<close>, \<open>aead_ok\<close>, \<open>aead_exact\<close>, \<open>dh_ok\<close>, \<open>sha256_ok\<close> and
  \<open>ed25519_ok\<close>; \<open>toy_crypto\<close> is a concrete instance that satisfies all of them.
  On top of the parameter the theory models \<^verbatim>\<open>dh.rs\<close>, \<^verbatim>\<open>kdf.rs\<close> and \<^verbatim>\<open>aead.rs\<close>,
  the ISO 7816-4 padding included.
\<close>

record crypto =
  hkdf_expand :: "bytes option \<Rightarrow> bytes \<Rightarrow> bytes \<Rightarrow> usize \<Rightarrow> bytes option"
  chacha_seal :: "bytes \<Rightarrow> bytes \<Rightarrow> bytes \<Rightarrow> bytes \<Rightarrow> bytes option"
  chacha_open :: "bytes \<Rightarrow> bytes \<Rightarrow> bytes \<Rightarrow> bytes \<Rightarrow> bytes option"
  x25519_random :: "rng \<Rightarrow> bytes \<times> rng"
  x25519_public :: "bytes \<Rightarrow> bytes"
  x25519_dh :: "bytes \<Rightarrow> bytes \<Rightarrow> bytes"
  sha256 :: "bytes \<Rightarrow> bytes"
  aes256_ctr :: "bytes \<Rightarrow> bytes \<Rightarrow> u8 stream"
  ed25519_public :: "bytes \<Rightarrow> bytes"
  ed25519_sign :: "bytes \<Rightarrow> bytes \<Rightarrow> bytes"
  ed25519_key_ok :: "bytes \<Rightarrow> bool"
  ed25519_sig_ok :: "bytes \<Rightarrow> bool"
  ed25519_verify :: "bytes \<Rightarrow> bytes \<Rightarrow> bytes \<Rightarrow> bool"

subsection \<open>Key derivation and key agreement\<close>

definition hkdf_sha256 :: "crypto \<Rightarrow> bytes \<Rightarrow> bytes option \<Rightarrow> bytes \<Rightarrow> usize \<Rightarrow> bytes result" where
  "hkdf_sha256 c ikm salt info output_len = ok_or (hkdf_expand c salt ikm info output_len) KdfOperation"

definition hkdf_sha256_32 :: "crypto \<Rightarrow> bytes \<Rightarrow> bytes option \<Rightarrow> bytes \<Rightarrow> bytes result" where
  "hkdf_sha256_32 c ikm salt info = ok_or (hkdf_expand c salt ikm info 32) KdfOperation"

record DhKeyPair =
  dh_public :: bytes
  dh_secret :: bytes

definition generate_keypair :: "crypto \<Rightarrow> rng \<Rightarrow> DhKeyPair \<times> rng" where
  "generate_keypair c rng =
     (let (secret, rng) = x25519_random c rng
      in (\<lparr>dh_public = x25519_public c secret, dh_secret = secret\<rparr>, rng))"

definition diffie_hellman :: "crypto \<Rightarrow> bytes \<Rightarrow> bytes \<Rightarrow> bytes" where
  "diffie_hellman c secret remote_public = x25519_dh c secret remote_public"

subsection \<open>Authenticated encryption\<close>

record CiphertextEnvelope =
  env_nonce :: bytes
  env_ciphertext :: bytes
  env_aad :: bytes

definition aead_encrypt :: "crypto \<Rightarrow> bytes \<Rightarrow> bytes \<Rightarrow> bytes \<Rightarrow> bytes \<Rightarrow> CiphertextEnvelope result" where
  "aead_encrypt c key plaintext aad nonce =
     (if length key \<noteq> 32 then Err AeadOperation
      else and_then (ok_or (chacha_seal c key nonce aad plaintext) AeadOperation)
        (\<lambda>ct. Ok \<lparr>env_nonce = nonce, env_ciphertext = ct, env_aad = aad\<rparr>))"

definition encrypt_with_rng ::
  "crypto \<Rightarrow> bytes \<Rightarrow> bytes \<Rightarrow> bytes \<Rightarrow> rng \<Rightarrow> CiphertextEnvelope result \<times> rng" where
  "encrypt_with_rng c key plaintext aad rng =
     (let (nonce, rng) = fill_bytes 12 rng in (aead_encrypt c key plaintext aad nonce, rng))"

definition aead_decrypt :: "crypto \<Rightarrow> bytes \<Rightarrow> CiphertextEnvelope \<Rightarrow> bytes result" where
  "aead_decrypt c key env =
     (if length key \<noteq> 32 then Err AeadOperation
      else ok_or (chacha_open c key (env_nonce env) (env_aad env) (env_ciphertext env)) AeadOperation)"

subsection \<open>Padding\<close>

definition PADDING_BLOCK_SIZE :: usize where "PADDING_BLOCK_SIZE = 256"

text \<open>The assertion on the block size is the only panic: \<open>None\<close>.\<close>

definition pad_plaintext :: "bytes \<Rightarrow> usize \<Rightarrow> bytes option" where
  "pad_plaintext plaintext block_size =
     (if block_size > 0 then
        let padded_len = (length plaintext div block_size + 1) * block_size
        in Some (vec_resize (plaintext @ [0x80]) padded_len 0)
      else None)"

fun unpad_loop :: "bytes \<Rightarrow> usize \<Rightarrow> bytes result" where
  "unpad_loop padded 0 = Err (MessageParsing ''no padding delimiter found'')"
| "unpad_loop padded (Suc i) =
     (if padded ! i = 0x80 then Ok (take i padded)
      else if padded ! i = 0 then unpad_loop padded i
      else Err (MessageParsing ''invalid ISO 7816-4 padding''))"

definition unpad_plaintext :: "bytes \<Rightarrow> bytes result" where
  "unpad_plaintext padded = unpad_loop padded (length padded)"

subsection \<open>What the protocol relies on\<close>

text \<open>HKDF-SHA256 delivers any length up to 255 hash blocks and refuses longer outputs.\<close>

definition hkdf_ok :: "crypto \<Rightarrow> bool" where
  "hkdf_ok c \<longleftrightarrow> (\<forall>salt ikm info n.
     if n \<le> 8160 then (\<exists>okm. hkdf_expand c salt ikm info n = Some okm \<and> length okm = n)
     else hkdf_expand c salt ikm info n = None)"

text \<open>
  ChaCha20-Poly1305 encrypts every message below its length limit to a ciphertext with a 16 byte
  tag that decrypts under the same key, nonce and associated data; longer messages are refused.
\<close>

definition aead_max :: nat where "aead_max = 274877906880"

definition aead_ok :: "crypto \<Rightarrow> bool" where
  "aead_ok c \<longleftrightarrow> (\<forall>key nonce aad msg. length key = 32 \<longrightarrow> length nonce = 12 \<longrightarrow>
     (if length msg < aead_max then
        \<exists>ct. chacha_seal c key nonce aad msg = Some ct \<and> length ct = length msg + 16
           \<and> chacha_open c key nonce aad ct = Some msg
      else chacha_seal c key nonce aad msg = None))"

text \<open>Decryption succeeds on nothing but what encryption produces for the same key, nonce and data.\<close>

definition aead_exact :: "crypto \<Rightarrow> bool" where
  "aead_exact c \<longleftrightarrow> (\<forall>key nonce aad ct msg. chacha_open c key nonce aad ct = Some msg \<longrightarrow>
     chacha_seal c key nonce aad msg = Some ct)"

definition dh_ok :: "crypto \<Rightarrow> bool" where
  "dh_ok c \<longleftrightarrow>
     (\<forall>r. length (fst (x25519_random c r)) = 32)
     \<and> (\<forall>a. length a = 32 \<longrightarrow> length (x25519_public c a) = 32)
     \<and> (\<forall>a b. length a = 32 \<longrightarrow> length b = 32 \<longrightarrow> length (x25519_dh c a b) = 32)
     \<and> (\<forall>a b. length a = 32 \<longrightarrow> length b = 32 \<longrightarrow>
           x25519_dh c a (x25519_public c b) = x25519_dh c b (x25519_public c a))"

definition sha256_ok :: "crypto \<Rightarrow> bool" where
  "sha256_ok c \<longleftrightarrow> (\<forall>m. length (sha256 c m) = 32)"

definition ed25519_ok :: "crypto \<Rightarrow> bool" where
  "ed25519_ok c \<longleftrightarrow> (\<forall>sk m. length sk = 32 \<longrightarrow>
     length (ed25519_public c sk) = 32 \<and> ed25519_key_ok c (ed25519_public c sk)
     \<and> length (ed25519_sign c sk m) = 64 \<and> ed25519_sig_ok c (ed25519_sign c sk m)
     \<and> ed25519_verify c (ed25519_public c sk) m (ed25519_sign c sk m))"

text \<open>A key pair as \<^verbatim>\<open>generate_keypair\<close> returns it.\<close>

definition dh_pair_ok :: "crypto \<Rightarrow> DhKeyPair \<Rightarrow> bool" where
  "dh_pair_ok c kp \<longleftrightarrow> length (dh_secret kp) = 32 \<and> length (dh_public kp) = 32
     \<and> dh_public kp = x25519_public c (dh_secret kp)"

lemma hkdf_ok_Some:
  assumes "hkdf_ok c" and "n \<le> 8160"
  obtains okm where "hkdf_expand c salt ikm info n = Some okm" and "length okm = n"
  using assms unfolding hkdf_ok_def by meson

lemma hkdf_sha256_Ok:
  assumes "hkdf_ok c" and "n \<le> 8160"
  obtains okm where "hkdf_sha256 c ikm salt info n = Ok okm" and "length okm = n"
  using hkdf_ok_Some [OF assms] unfolding hkdf_sha256_def by (metis ok_or_simps(2))

lemma hkdf_sha256_32_Ok:
  assumes "hkdf_ok c"
  obtains okm where "hkdf_sha256_32 c ikm salt info = Ok okm" and "length okm = 32"
  using hkdf_ok_Some [OF assms, of 32] unfolding hkdf_sha256_32_def
  by (metis ok_or_simps(2) numeral_le_iff semiring_norm(69,70,71,72,68))

lemma hkdf_sha256_32_length:
  "hkdf_ok c \<Longrightarrow> hkdf_sha256_32 c ikm salt info = Ok k \<Longrightarrow> length k = 32"
  by (metis hkdf_sha256_32_Ok sum.inject(2))

lemma diffie_hellman_commute:
  assumes "dh_ok c" "dh_pair_ok c a" "dh_pair_ok c b"
  shows "diffie_hellman c (dh_secret a) (dh_public b) = diffie_hellman c (dh_secret b) (dh_public a)"
  using assms by (simp add: dh_ok_def dh_pair_ok_def diffie_hellman_def)

lemma diffie_hellman_length [crypto_laws]:
  "dh_ok c \<Longrightarrow> length a = 32 \<Longrightarrow> length b = 32 \<Longrightarrow> length (diffie_hellman c a b) = 32"
  by (simp add: dh_ok_def diffie_hellman_def)

lemma generate_keypair_ok:
  "dh_ok c \<Longrightarrow> generate_keypair c r = (kp, r') \<Longrightarrow> dh_pair_ok c kp"
  by (auto simp: generate_keypair_def dh_pair_ok_def dh_ok_def Let_def split: prod.splits)
     (metis fst_conv)+

lemma aead_encrypt_Ok:
  assumes "aead_ok c" "length key = 32" "length nonce = 12" "length msg < aead_max"
  obtains ct where
    "aead_encrypt c key msg aad nonce = Ok \<lparr>env_nonce = nonce, env_ciphertext = ct, env_aad = aad\<rparr>"
    and "length ct = length msg + 16"
    and "aead_decrypt c key \<lparr>env_nonce = nonce, env_ciphertext = ct, env_aad = aad\<rparr> = Ok msg"
proof -
  obtain ct where "chacha_seal c key nonce aad msg = Some ct" "length ct = length msg + 16"
      "chacha_open c key nonce aad ct = Some msg"
    using assms unfolding aead_ok_def by meson
  with that assms show thesis by (simp add: aead_encrypt_def aead_decrypt_def)
qed

lemma aead_encrypt_decrypt:
  assumes "aead_ok c" "length key = 32" "length nonce = 12"
    and "aead_encrypt c key msg aad nonce = Ok env"
  shows "aead_decrypt c key env = Ok msg \<and> env_nonce env = nonce \<and> env_aad env = aad
    \<and> length (env_ciphertext env) = length msg + 16"
proof -
  have "length msg < aead_max"
    using assms unfolding aead_ok_def aead_encrypt_def
    by (metis and_then_simps(1) ok_or_simps(1) sum.distinct(1))
  from aead_encrypt_Ok [OF assms(1-3) this, of aad] assms(4) show ?thesis by fastforce
qed

lemma aead_decrypt_exact:
  assumes "aead_exact c" and "aead_decrypt c key env = Ok msg"
  shows "aead_encrypt c key msg (env_aad env) (env_nonce env) = Ok env"
  using assms by (auto simp: aead_exact_def aead_decrypt_def aead_encrypt_def split: if_splits)

subsection \<open>Padding round trip\<close>

lemma unpad_loop_shape:
  assumes "n \<le> length p"
  shows "unpad_loop p n = Ok m \<longleftrightarrow> (\<exists>k. take n p = m @ 0x80 # replicate k 0)"
  using assms
proof (induction n arbitrary: m)
  case (Suc n)
  have snoc: "take (Suc n) p = take n p @ [p ! n]" using Suc.prems by (simp add: take_Suc_conv_app_nth)
  have len: "length (take n p) = n" using Suc.prems by simp
  have split: "take n p @ [p ! n] = m @ 0x80 # replicate k 0 \<longleftrightarrow>
      (k = 0 \<and> p ! n = 0x80 \<and> m = take n p)
      \<or> (\<exists>j. k = Suc j \<and> p ! n = 0 \<and> take n p = m @ 0x80 # replicate j 0)" for k
    by (cases k) (auto simp: replicate_append_same [symmetric] simp flip: append_Cons append_assoc)
  show ?case
    using Suc unfolding snoc split by auto
qed simp

lemma unpad_plaintext_Ok_iff: "unpad_plaintext p = Ok m \<longleftrightarrow> (\<exists>k. p = m @ 0x80 # replicate k 0)"
  using unpad_loop_shape [of "length p" p] by (simp add: unpad_plaintext_def)

lemma pad_plaintext_shape:
  assumes "0 < n"
  obtains k where "pad_plaintext m n = Some (m @ 0x80 # replicate k 0)"
    and "length m + 1 + k = (length m div n + 1) * n"
proof -
  have "length m < (length m div n + 1) * n"
    using assms by (metis Suc_eq_plus1 dividend_less_times_div mult.commute mult_Suc_right add.commute)
  then have "vec_resize (m @ [0x80]) ((length m div n + 1) * n) 0
      = m @ 0x80 # replicate ((length m div n + 1) * n - (length m + 1)) 0"
    by (simp add: vec_resize_def)
  with that [of "(length m div n + 1) * n - (length m + 1)"] assms
    \<open>length m < (length m div n + 1) * n\<close> show thesis
    by (simp add: pad_plaintext_def Let_def)
qed

lemma unpad_pad: "pad_plaintext m n = Some p \<Longrightarrow> unpad_plaintext p = Ok m"
  by (cases "0 < n", metis pad_plaintext_shape unpad_plaintext_Ok_iff option.inject)
     (simp add: pad_plaintext_def)

lemma length_pad_256:
  "length (the (pad_plaintext m 256)) = (length m div 256 + 1) * 256"
  by (rule pad_plaintext_shape [of 256 m]) auto

lemma pad_256_Some: "pad_plaintext m PADDING_BLOCK_SIZE = Some (the (pad_plaintext m PADDING_BLOCK_SIZE))"
  by (simp add: pad_plaintext_def PADDING_BLOCK_SIZE_def Let_def)

text \<open>
  C32. Padding is exactly invertible: whatever the block size, the padded text is the plaintext,
  the delimiter and zeros, it fills a positive number of blocks and is longer than the
  plaintext by at most one block, and removing the padding returns the plaintext; conversely
  the unpadder accepts nothing but a plaintext, the delimiter and zeros.
\<close>

theorem padding_exact:
  "(\<forall>m n. n = 0 \<or> (\<exists>p. pad_plaintext m n = Some p \<and> unpad_plaintext p = Ok m \<and> n dvd length p
       \<and> length m < length p \<and> length p \<le> length m + n))
   \<and> (\<forall>p m. unpad_plaintext p = Ok m \<longleftrightarrow> (\<exists>k. p = m @ 0x80 # replicate k 0))"
proof (intro conjI allI)
  fix m :: bytes and n :: nat
  show "n = 0 \<or> (\<exists>p. pad_plaintext m n = Some p \<and> unpad_plaintext p = Ok m \<and> n dvd length p
       \<and> length m < length p \<and> length p \<le> length m + n)"
  proof (cases "n = 0")
    case False
    then obtain k where k: "pad_plaintext m n = Some (m @ 0x80 # replicate k 0)"
        "length m + 1 + k = (length m div n + 1) * n"
      using pad_plaintext_shape by blast
    have "(length m div n + 1) * n \<le> length m + n"
      by (simp add: add_mult_distrib)
    with k show ?thesis
      by (auto intro!: exI [of _ "m @ 0x80 # replicate k 0"] simp: unpad_plaintext_Ok_iff)
  qed simp
next
  fix p m :: bytes
  show "unpad_plaintext p = Ok m \<longleftrightarrow> (\<exists>k. p = m @ 0x80 # replicate k 0)"
    by (rule unpad_plaintext_Ok_iff)
qed

subsection \<open>A concrete instance\<close>

definition toy_tag :: "bytes \<Rightarrow> bytes" where
  "toy_tag key = take 16 (map2 (+) key (rev key @ replicate 32 0) @ replicate 16 0)"

definition toy_seal :: "bytes \<Rightarrow> bytes \<Rightarrow> bytes \<Rightarrow> bytes \<Rightarrow> bytes option" where
  "toy_seal key nonce aad msg =
     (if length msg < aead_max then Some (msg @ toy_tag key) else None)"

definition toy_open :: "bytes \<Rightarrow> bytes \<Rightarrow> bytes \<Rightarrow> bytes \<Rightarrow> bytes option" where
  "toy_open key nonce aad ct =
     (let msg = take (length ct - 16) ct
      in if toy_seal key nonce aad msg = Some ct then Some msg else None)"

definition toy_crypto :: crypto where
  "toy_crypto = \<lparr>
     hkdf_expand = (\<lambda>salt ikm info n. if n \<le> 8160
        then Some (take n (rev info @ ikm @ (case salt of None \<Rightarrow> [] | Some s \<Rightarrow> s) @ replicate n 0))
        else None),
     chacha_seal = toy_seal,
     chacha_open = toy_open,
     x25519_random = fill_bytes 32,
     x25519_public = (\<lambda>a. a),
     x25519_dh = map2 (+),
     sha256 = (\<lambda>m. take 32 (rev m @ replicate 32 0)),
     aes256_ctr = (\<lambda>key iv. key @- sconst 0),
     ed25519_public = (\<lambda>sk. sk),
     ed25519_sign = (\<lambda>sk m. take 64 (sk @ m @ replicate 64 0)),
     ed25519_key_ok = (\<lambda>pk. length pk = 32),
     ed25519_sig_ok = (\<lambda>s. length s = 64),
     ed25519_verify = (\<lambda>pk m s. s = take 64 (pk @ m @ replicate 64 0))\<rparr>"

lemma map2_add_commute: "map2 (+) (xs :: u8 list) ys = map2 (+) ys xs"
  by (induction xs ys rule: list_induct2') (auto simp: add.commute)

lemma length_toy_tag [simp]: "length (toy_tag key) = 16"
  by (simp add: toy_tag_def)

lemma toy_hkdf_ok [simp]: "hkdf_ok toy_crypto"
  by (auto simp: hkdf_ok_def toy_crypto_def min_def split: option.splits)

lemma toy_aead_ok [simp]: "aead_ok toy_crypto"
  by (simp add: aead_ok_def toy_crypto_def toy_seal_def toy_open_def Let_def)

lemma toy_aead_exact [simp]: "aead_exact toy_crypto"
  by (auto simp: aead_exact_def toy_crypto_def toy_open_def Let_def split: if_splits)

lemma toy_dh_ok [simp]: "dh_ok toy_crypto"
  by (simp add: dh_ok_def toy_crypto_def map2_add_commute)

lemma toy_sha256_ok [simp]: "sha256_ok toy_crypto"
  by (simp add: sha256_ok_def toy_crypto_def min_def)

lemma toy_ed25519_ok [simp]: "ed25519_ok toy_crypto"
  by (simp add: ed25519_ok_def toy_crypto_def min_def)

definition toy_pair :: "u8 \<Rightarrow> DhKeyPair" where
  "toy_pair b = \<lparr>dh_public = replicate 32 b, dh_secret = replicate 32 b\<rparr>"

lemma toy_pair_ok [simp]: "dh_pair_ok toy_crypto (toy_pair b)"
  by (simp add: dh_pair_ok_def toy_pair_def toy_crypto_def)

end
