(* ===== verification/Wire.thy ===== *)
theory Wire
  imports Codec Alg Crypto
begin

text \<open>
  \<^verbatim>\<open>wire.rs\<close>: the two wire formats, the encrypted header of the second one, the dispatch on the
  first tag, and the negotiation of suites and wire versions. The codec contract is interpreted
  for the version 1 message (\<open>wire_v1\<close>), the header (\<open>wire_header\<close>), the version 2 message
  (\<open>wire_v2\<close>) and the two advertised lists (\<open>suites_codec\<close>, \<open>versions_codec\<close>).
\<close>

unbundle bit_operations_syntax

definition TAG_VERSION :: u16 where "TAG_VERSION = critical_type 0x1001"
definition TAG_SUITE_ID :: u16 where "TAG_SUITE_ID = critical_type 0x1002"
definition TAG_SENDER_DH_PUB :: u16 where "TAG_SENDER_DH_PUB = critical_type 0x1003"
definition TAG_MSG_NUM :: u16 where "TAG_MSG_NUM = critical_type 0x1004"
definition TAG_PREV_CHAIN_LEN :: u16 where "TAG_PREV_CHAIN_LEN = critical_type 0x1005"
definition TAG_PQ_STEP_CT :: u16 where "TAG_PQ_STEP_CT = critical_type 0x1006"
definition TAG_AEAD_NONCE :: u16 where "TAG_AEAD_NONCE = critical_type 0x1007"
definition TAG_CIPHERTEXT :: u16 where "TAG_CIPHERTEXT = critical_type 0x1008"
definition TAG_PQ_TARGET_PUB_HASH :: u16 where "TAG_PQ_TARGET_PUB_HASH = critical_type 0x1009"
definition TAG_PQ_NEXT_PUB :: u16 where "TAG_PQ_NEXT_PUB = critical_type 0x100A"
definition TAG_V2_VERSION :: u16 where "TAG_V2_VERSION = critical_type 0x1101"
definition TAG_V2_SUITE_ID :: u16 where "TAG_V2_SUITE_ID = critical_type 0x1102"
definition TAG_V2_ENCRYPTED_HEADER :: u16 where "TAG_V2_ENCRYPTED_HEADER = critical_type 0x1103"
definition TAG_V2_AEAD_NONCE :: u16 where "TAG_V2_AEAD_NONCE = critical_type 0x1104"
definition TAG_V2_CIPHERTEXT :: u16 where "TAG_V2_CIPHERTEXT = critical_type 0x1105"

lemma wire_tags [tag_simps]:
  "TAG_VERSION = 0x9001" "TAG_SUITE_ID = 0x9002" "TAG_SENDER_DH_PUB = 0x9003"
  "TAG_MSG_NUM = 0x9004" "TAG_PREV_CHAIN_LEN = 0x9005" "TAG_PQ_STEP_CT = 0x9006"
  "TAG_AEAD_NONCE = 0x9007" "TAG_CIPHERTEXT = 0x9008" "TAG_PQ_TARGET_PUB_HASH = 0x9009"
  "TAG_PQ_NEXT_PUB = 0x900A" "TAG_V2_VERSION = 0x9101" "TAG_V2_SUITE_ID = 0x9102"
  "TAG_V2_ENCRYPTED_HEADER = 0x9103" "TAG_V2_AEAD_NONCE = 0x9104" "TAG_V2_CIPHERTEXT = 0x9105"
  by (simp_all add: TAG_VERSION_def TAG_SUITE_ID_def TAG_SENDER_DH_PUB_def TAG_MSG_NUM_def
      TAG_PREV_CHAIN_LEN_def TAG_PQ_STEP_CT_def TAG_AEAD_NONCE_def TAG_CIPHERTEXT_def
      TAG_PQ_TARGET_PUB_HASH_def TAG_PQ_NEXT_PUB_def TAG_V2_VERSION_def TAG_V2_SUITE_ID_def
      TAG_V2_ENCRYPTED_HEADER_def TAG_V2_AEAD_NONCE_def TAG_V2_CIPHERTEXT_def
      critical_type_def CRITICAL_BIT_def)

subsection \<open>Fixed-size fields\<close>

definition parse_u16 :: "bytes \<Rightarrow> string \<Rightarrow> u16 result" where
  "parse_u16 input fld =
     (if length input \<noteq> 2 then Err (InvalidLength fld 2 (length input))
      else Ok (u16_from_be_bytes [input ! 0, input ! 1]))"

definition parse_u32 :: "bytes \<Rightarrow> string \<Rightarrow> u32 result" where
  "parse_u32 input fld =
     (if length input \<noteq> 4 then Err (InvalidLength fld 4 (length input))
      else Ok (u32_from_be_bytes [input ! 0, input ! 1, input ! 2, input ! 3]))"

definition parse_32 :: "bytes \<Rightarrow> string \<Rightarrow> bytes result" where
  "parse_32 input fld =
     (if length input \<noteq> 32 then Err (InvalidLength fld 32 (length input)) else Ok input)"

definition parse_12 :: "bytes \<Rightarrow> string \<Rightarrow> bytes result" where
  "parse_12 input fld =
     (if length input \<noteq> 12 then Err (InvalidLength fld 12 (length input)) else Ok input)"

lemma list_of_two: "length xs = 2 \<Longrightarrow> [xs ! 0, xs ! 1] = xs"
  by (auto simp: numeral_2_eq_2 length_Suc_conv)

lemma list_of_four: "length xs = 4 \<Longrightarrow> [xs ! 0, xs ! 1, xs ! 2, xs ! 3] = xs"
  by (auto simp: eval_nat_numeral length_Suc_conv)

lemma parse_u16_to_be [simp]: "parse_u16 (u16_to_be_bytes w) f = Ok w"
  using list_of_two [of "u16_to_be_bytes w"] by (simp add: parse_u16_def)

lemma parse_u32_to_be [simp]: "parse_u32 (u32_to_be_bytes w) f = Ok w"
  using list_of_four [of "u32_to_be_bytes w"] by (simp add: parse_u32_def)

lemma parse_u16_eq_Ok: "parse_u16 bs f = Ok w \<longleftrightarrow> bs = u16_to_be_bytes w"
  using list_of_two [of bs] by (auto simp: parse_u16_def)

lemma parse_u32_eq_Ok: "parse_u32 bs f = Ok w \<longleftrightarrow> bs = u32_to_be_bytes w"
  using list_of_four [of bs] by (auto simp: parse_u32_def)

lemma parse_32_eq_Ok [simp]: "parse_32 bs f = Ok x \<longleftrightarrow> length bs = 32 \<and> x = bs"
  by (auto simp: parse_32_def)

lemma parse_12_eq_Ok [simp]: "parse_12 bs f = Ok x \<longleftrightarrow> length bs = 12 \<and> x = bs"
  by (auto simp: parse_12_def)

lemma parse_32_Ok [simp]: "length bs = 32 \<Longrightarrow> parse_32 bs f = Ok bs"
  by simp

lemma parse_12_Ok [simp]: "length bs = 12 \<Longrightarrow> parse_12 bs f = Ok bs"
  by simp

subsection \<open>Version 1 messages\<close>

record WireMessage =
  wm_version :: u16
  wm_suite_id :: u16
  wm_sender_dh_pub :: bytes
  wm_msg_num :: u32
  wm_prev_chain_len :: u32
  wm_pq_step_ct :: "bytes option"
  wm_pq_target_pub_hash :: "bytes option"
  wm_pq_next_public_key :: "bytes option"
  wm_aead_nonce :: bytes
  wm_ciphertext :: bytes

definition wm_records :: "WireMessage \<Rightarrow> TlvRecord list" where
  "wm_records m =
     [tlv TAG_VERSION (u16_to_be_bytes (wm_version m)),
      tlv TAG_SUITE_ID (u16_to_be_bytes (wm_suite_id m)),
      tlv TAG_SENDER_DH_PUB (wm_sender_dh_pub m),
      tlv TAG_MSG_NUM (u32_to_be_bytes (wm_msg_num m)),
      tlv TAG_PREV_CHAIN_LEN (u32_to_be_bytes (wm_prev_chain_len m))]
     @ push_opt TAG_PQ_STEP_CT (wm_pq_step_ct m)
     @ push_opt TAG_PQ_TARGET_PUB_HASH (wm_pq_target_pub_hash m)
     @ push_opt TAG_PQ_NEXT_PUB (wm_pq_next_public_key m)
     @ [tlv TAG_AEAD_NONCE (wm_aead_nonce m), tlv TAG_CIPHERTEXT (wm_ciphertext m)]"

definition wm_encode :: "WireMessage \<Rightarrow> bytes result" where
  "wm_encode m = encode (wm_records m)"

definition wm_known_types :: "u16 list" where
  "wm_known_types = [TAG_VERSION, TAG_SUITE_ID, TAG_SENDER_DH_PUB, TAG_MSG_NUM, TAG_PREV_CHAIN_LEN,
     TAG_PQ_STEP_CT, TAG_PQ_TARGET_PUB_HASH, TAG_PQ_NEXT_PUB, TAG_AEAD_NONCE, TAG_CIPHERTEXT]"

definition wm_from_map :: "(u16 \<rightharpoonup> bytes) \<Rightarrow> WireMessage result" where
  "wm_from_map m =
     and_then (require_from_map m TAG_VERSION ''wire.version'') (\<lambda>v.
     and_then (parse_u16 v ''wire.version'') (\<lambda>version.
     and_then (require_from_map m TAG_SUITE_ID ''wire.suite_id'') (\<lambda>v.
     and_then (parse_u16 v ''wire.suite_id'') (\<lambda>suite_id.
     and_then (require_from_map m TAG_SENDER_DH_PUB ''wire.sender_dh_pub'') (\<lambda>v.
     and_then (parse_32 v ''wire.sender_dh_pub'') (\<lambda>sender_dh_pub.
     and_then (require_from_map m TAG_MSG_NUM ''wire.msg_num'') (\<lambda>v.
     and_then (parse_u32 v ''wire.msg_num'') (\<lambda>msg_num.
     and_then (require_from_map m TAG_PREV_CHAIN_LEN ''wire.prev_chain_len'') (\<lambda>v.
     and_then (parse_u32 v ''wire.prev_chain_len'') (\<lambda>prev_chain_len.
     and_then (require_from_map m TAG_AEAD_NONCE ''wire.aead_nonce'') (\<lambda>v.
     and_then (parse_12 v ''wire.aead_nonce'') (\<lambda>aead_nonce.
     and_then (require_from_map m TAG_CIPHERTEXT ''wire.ciphertext'') (\<lambda>ciphertext.
     Ok \<lparr>wm_version = version, wm_suite_id = suite_id, wm_sender_dh_pub = sender_dh_pub,
         wm_msg_num = msg_num, wm_prev_chain_len = prev_chain_len,
         wm_pq_step_ct = m TAG_PQ_STEP_CT,
         wm_pq_target_pub_hash = m TAG_PQ_TARGET_PUB_HASH,
         wm_pq_next_public_key = m TAG_PQ_NEXT_PUB,
         wm_aead_nonce = aead_nonce, wm_ciphertext = ciphertext\<rparr>)))))))))))))"

definition wm_decode :: "bytes \<Rightarrow> WireMessage result" where
  "wm_decode input =
     and_then (decode_strict input wm_known_types) (\<lambda>records. wm_from_map (build_record_map records))"

definition wm_validate_suite :: "features \<Rightarrow> WireMessage \<Rightarrow> SecurityProfile \<Rightarrow> unit result" where
  "wm_validate_suite ft m profile = enforce_suite_id ft profile (wm_suite_id m)"

abbreviation opt_fits :: "bytes option \<Rightarrow> bool" where
  "opt_fits v \<equiv> \<forall>x \<in> set_option v. length x \<le> 65535"

definition wm_wf :: "WireMessage \<Rightarrow> bool" where
  "wm_wf m \<longleftrightarrow> length (wm_sender_dh_pub m) = 32 \<and> length (wm_aead_nonce m) = 12
     \<and> length (wm_ciphertext m) \<le> 65535 \<and> opt_fits (wm_pq_step_ct m)
     \<and> opt_fits (wm_pq_target_pub_hash m) \<and> opt_fits (wm_pq_next_public_key m)"

lemma wm_records_distinct: "distinct (map rec_ty (wm_records m))"
  by (cases "wm_pq_step_ct m"; cases "wm_pq_target_pub_hash m"; cases "wm_pq_next_public_key m")
     (simp_all add: wm_records_def tag_simps)

lemma wm_records_known: "rec_ty ` set (wm_records m) \<subseteq> set wm_known_types"
  by (cases "wm_pq_step_ct m"; cases "wm_pq_target_pub_hash m"; cases "wm_pq_next_public_key m")
     (simp_all add: wm_records_def wm_known_types_def)

lemma wm_from_map_records: "wm_wf m \<Longrightarrow> wm_from_map (build_record_map (wm_records m)) = Ok m"
  unfolding wm_from_map_def build_record_map_find [OF wm_records_distinct] require_from_map_def
  by (simp add: wm_records_def tag_simps wm_wf_def)

lemma wm_from_map_lengths:
  assumes "wm_from_map m = Ok x" and "\<And>t v. m t = Some v \<Longrightarrow> length v \<le> 65535"
  shows "wm_wf x"
  using assms by (auto simp: wm_from_map_def wm_wf_def)

interpretation wire_v1: codec wm_encode wm_decode wm_wf
proof unfold_locales
  show "is_ok (wm_encode m)" if "wm_wf m" for m
    using that by (simp add: wm_encode_def encode_fits wm_records_def wm_wf_def)
  show "wm_decode bs = Ok m" if "wm_wf m" "wm_encode m = Ok bs" for m bs
    using that decode_strict_map [OF _ wm_records_distinct wm_records_known, of m bs wm_from_map]
    by (simp add: wm_decode_def wm_encode_def wm_from_map_records)
  show "wm_wf m" if "wm_decode bs = Ok m" for m bs
    using that wm_from_map_lengths decode_strict_fits unfolding wm_decode_def by blast
qed

subsection \<open>Header plaintext\<close>

record HeaderPlaintext =
  hp_sender_dh_pub :: bytes
  hp_msg_num :: u32
  hp_prev_chain_len :: u32
  hp_pq_step_ct :: "bytes option"
  hp_pq_target_pub_hash :: "bytes option"
  hp_pq_next_public_key :: "bytes option"

definition hp_records :: "HeaderPlaintext \<Rightarrow> TlvRecord list" where
  "hp_records m =
     [tlv TAG_SENDER_DH_PUB (hp_sender_dh_pub m),
      tlv TAG_MSG_NUM (u32_to_be_bytes (hp_msg_num m)),
      tlv TAG_PREV_CHAIN_LEN (u32_to_be_bytes (hp_prev_chain_len m))]
     @ push_opt TAG_PQ_STEP_CT (hp_pq_step_ct m)
     @ push_opt TAG_PQ_TARGET_PUB_HASH (hp_pq_target_pub_hash m)
     @ push_opt TAG_PQ_NEXT_PUB (hp_pq_next_public_key m)"

definition hp_encode :: "HeaderPlaintext \<Rightarrow> bytes result" where
  "hp_encode m = encode (hp_records m)"

definition hp_known_types :: "u16 list" where
  "hp_known_types = [TAG_SENDER_DH_PUB, TAG_MSG_NUM, TAG_PREV_CHAIN_LEN,
     TAG_PQ_STEP_CT, TAG_PQ_TARGET_PUB_HASH, TAG_PQ_NEXT_PUB]"

definition hp_from_map :: "(u16 \<rightharpoonup> bytes) \<Rightarrow> HeaderPlaintext result" where
  "hp_from_map m =
     and_then (require_from_map m TAG_SENDER_DH_PUB ''header.sender_dh_pub'') (\<lambda>v.
     and_then (parse_32 v ''header.sender_dh_pub'') (\<lambda>sender_dh_pub.
     and_then (require_from_map m TAG_MSG_NUM ''header.msg_num'') (\<lambda>v.
     and_then (parse_u32 v ''header.msg_num'') (\<lambda>msg_num.
     and_then (require_from_map m TAG_PREV_CHAIN_LEN ''header.prev_chain_len'') (\<lambda>v.
     and_then (parse_u32 v ''header.prev_chain_len'') (\<lambda>prev_chain_len.
     Ok \<lparr>hp_sender_dh_pub = sender_dh_pub, hp_msg_num = msg_num, hp_prev_chain_len = prev_chain_len,
         hp_pq_step_ct = m TAG_PQ_STEP_CT,
         hp_pq_target_pub_hash = m TAG_PQ_TARGET_PUB_HASH,
         hp_pq_next_public_key = m TAG_PQ_NEXT_PUB\<rparr>))))))"

definition hp_decode :: "bytes \<Rightarrow> HeaderPlaintext result" where
  "hp_decode input =
     and_then (decode_strict input hp_known_types) (\<lambda>records. hp_from_map (build_record_map records))"

definition hp_wf :: "HeaderPlaintext \<Rightarrow> bool" where
  "hp_wf m \<longleftrightarrow> length (hp_sender_dh_pub m) = 32 \<and> opt_fits (hp_pq_step_ct m)
     \<and> opt_fits (hp_pq_target_pub_hash m) \<and> opt_fits (hp_pq_next_public_key m)"

lemma hp_records_distinct: "distinct (map rec_ty (hp_records m))"
  by (cases "hp_pq_step_ct m"; cases "hp_pq_target_pub_hash m"; cases "hp_pq_next_public_key m")
     (simp_all add: hp_records_def tag_simps)

lemma hp_records_known: "rec_ty ` set (hp_records m) \<subseteq> set hp_known_types"
  by (cases "hp_pq_step_ct m"; cases "hp_pq_target_pub_hash m"; cases "hp_pq_next_public_key m")
     (simp_all add: hp_records_def hp_known_types_def)

lemma hp_from_map_records: "hp_wf m \<Longrightarrow> hp_from_map (build_record_map (hp_records m)) = Ok m"
  unfolding hp_from_map_def build_record_map_find [OF hp_records_distinct] require_from_map_def
  by (simp add: hp_records_def tag_simps hp_wf_def)

lemma hp_from_map_lengths:
  assumes "hp_from_map m = Ok x" and "\<And>t v. m t = Some v \<Longrightarrow> length v \<le> 65535"
  shows "hp_wf x"
  using assms by (auto simp: hp_from_map_def hp_wf_def)

interpretation wire_header: codec hp_encode hp_decode hp_wf
proof unfold_locales
  show "is_ok (hp_encode m)" if "hp_wf m" for m
    using that by (simp add: hp_encode_def encode_fits hp_records_def hp_wf_def)
  show "hp_decode bs = Ok m" if "hp_wf m" "hp_encode m = Ok bs" for m bs
    using that decode_strict_map [OF _ hp_records_distinct hp_records_known, of m bs hp_from_map]
    by (simp add: hp_decode_def hp_encode_def hp_from_map_records)
  show "hp_wf m" if "hp_decode bs = Ok m" for m bs
    using that hp_from_map_lengths decode_strict_fits unfolding hp_decode_def by blast
qed

subsection \<open>Header encryption\<close>

definition HEADER_CTR_IV :: bytes where "HEADER_CTR_IV = replicate 16 0"

definition apply_keystream :: "u8 stream \<Rightarrow> bytes \<Rightarrow> bytes" where
  "apply_keystream ks buf = map2 (XOR) buf (stake (length buf) ks)"

definition encrypt_header :: "crypto \<Rightarrow> bytes \<Rightarrow> bytes \<Rightarrow> bytes" where
  "encrypt_header c hk plaintext = apply_keystream (aes256_ctr c hk HEADER_CTR_IV) plaintext"

definition decrypt_header :: "crypto \<Rightarrow> bytes \<Rightarrow> bytes \<Rightarrow> bytes" where
  "decrypt_header c hk ciphertext = encrypt_header c hk ciphertext"

definition try_decrypt_header :: "crypto \<Rightarrow> bytes \<Rightarrow> bytes \<Rightarrow> HeaderPlaintext option" where
  "try_decrypt_header c hk ciphertext = ok_opt (hp_decode (decrypt_header c hk ciphertext))"

lemma length_apply_keystream [simp]: "length (apply_keystream ks buf) = length buf"
  by (simp add: apply_keystream_def)

lemma xor_twice: "length xs = length ys \<Longrightarrow> map2 (XOR) (map2 (XOR) xs ys) ys = (xs :: bytes)"
  by (induction xs ys rule: list_induct2) (simp_all add: xor.assoc)

lemma apply_keystream_twice [simp]: "apply_keystream ks (apply_keystream ks buf) = buf"
  unfolding apply_keystream_def by (simp add: xor_twice)

lemma length_encrypt_header [simp]: "length (encrypt_header c hk p) = length p"
  by (simp add: encrypt_header_def)

lemma decrypt_encrypt_header [simp]: "decrypt_header c hk (encrypt_header c hk p) = p"
  by (simp add: decrypt_header_def encrypt_header_def)

lemma try_decrypt_encrypt_header:
  "hp_wf h \<Longrightarrow> hp_encode h = Ok bs \<Longrightarrow> try_decrypt_header c hk (encrypt_header c hk bs) = Some h"
  by (simp add: try_decrypt_header_def wire_header.dec_enc)

lemma xor_streams:
  "map2 (XOR) (map2 (XOR) xs (stake (length xs) ks)) (map2 (XOR) ys (stake (length ys) ks)) = map2 (XOR) xs (ys :: bytes)"
proof (induction xs ys arbitrary: ks rule: list_induct2')
  case (4 x xs y ys)
  then show ?case by (simp add: ac_simps)
qed simp_all

lemma encrypt_header_xor:
  "map2 (XOR) (encrypt_header c hk p) (encrypt_header c hk q) = map2 (XOR) p q"
  by (simp add: encrypt_header_def apply_keystream_def xor_streams)

subsection \<open>Version 2 messages\<close>

record WireMessageV2 =
  w2_version :: u16
  w2_suite_id :: u16
  w2_encrypted_header :: bytes
  w2_aead_nonce :: bytes
  w2_ciphertext :: bytes

definition w2_records :: "WireMessageV2 \<Rightarrow> TlvRecord list" where
  "w2_records m =
     [tlv TAG_V2_VERSION (u16_to_be_bytes (w2_version m)),
      tlv TAG_V2_SUITE_ID (u16_to_be_bytes (w2_suite_id m)),
      tlv TAG_V2_ENCRYPTED_HEADER (w2_encrypted_header m),
      tlv TAG_V2_AEAD_NONCE (w2_aead_nonce m),
      tlv TAG_V2_CIPHERTEXT (w2_ciphertext m)]"

definition w2_encode :: "WireMessageV2 \<Rightarrow> bytes result" where
  "w2_encode m = encode (w2_records m)"

definition w2_known_types :: "u16 list" where
  "w2_known_types = [TAG_V2_VERSION, TAG_V2_SUITE_ID, TAG_V2_ENCRYPTED_HEADER, TAG_V2_AEAD_NONCE,
     TAG_V2_CIPHERTEXT]"

definition w2_from_map :: "(u16 \<rightharpoonup> bytes) \<Rightarrow> WireMessageV2 result" where
  "w2_from_map m =
     and_then (require_from_map m TAG_V2_VERSION ''wire_v2.version'') (\<lambda>v.
     and_then (parse_u16 v ''wire_v2.version'') (\<lambda>version.
     and_then (require_from_map m TAG_V2_SUITE_ID ''wire_v2.suite_id'') (\<lambda>v.
     and_then (parse_u16 v ''wire_v2.suite_id'') (\<lambda>suite_id.
     and_then (require_from_map m TAG_V2_ENCRYPTED_HEADER ''wire_v2.encrypted_header'') (\<lambda>encrypted_header.
     and_then (require_from_map m TAG_V2_AEAD_NONCE ''wire_v2.aead_nonce'') (\<lambda>v.
     and_then (parse_12 v ''wire_v2.aead_nonce'') (\<lambda>aead_nonce.
     and_then (require_from_map m TAG_V2_CIPHERTEXT ''wire_v2.ciphertext'') (\<lambda>ciphertext.
     Ok \<lparr>w2_version = version, w2_suite_id = suite_id, w2_encrypted_header = encrypted_header,
         w2_aead_nonce = aead_nonce, w2_ciphertext = ciphertext\<rparr>))))))))"

definition w2_decode :: "bytes \<Rightarrow> WireMessageV2 result" where
  "w2_decode input =
     and_then (decode_strict input w2_known_types) (\<lambda>records. w2_from_map (build_record_map records))"

definition w2_validate_suite :: "features \<Rightarrow> WireMessageV2 \<Rightarrow> SecurityProfile \<Rightarrow> unit result" where
  "w2_validate_suite ft m profile = enforce_suite_id ft profile (w2_suite_id m)"

definition w2_wf :: "WireMessageV2 \<Rightarrow> bool" where
  "w2_wf m \<longleftrightarrow> length (w2_aead_nonce m) = 12
     \<and> length (w2_ciphertext m) \<le> 65535 \<and> length (w2_encrypted_header m) \<le> 65535"

lemma w2_records_distinct: "distinct (map rec_ty (w2_records m))"
  by (simp add: w2_records_def tag_simps)

lemma w2_records_known: "rec_ty ` set (w2_records m) \<subseteq> set w2_known_types"
  by (simp add: w2_records_def w2_known_types_def)

lemma w2_from_map_records: "w2_wf m \<Longrightarrow> w2_from_map (build_record_map (w2_records m)) = Ok m"
  unfolding w2_from_map_def build_record_map_find [OF w2_records_distinct] require_from_map_def
  by (simp add: w2_records_def tag_simps w2_wf_def)

lemma w2_from_map_lengths:
  assumes "w2_from_map m = Ok x" and "\<And>t v. m t = Some v \<Longrightarrow> length v \<le> 65535"
  shows "w2_wf x"
  using assms by (auto simp: w2_from_map_def w2_wf_def)

interpretation wire_v2: codec w2_encode w2_decode w2_wf
proof unfold_locales
  show "is_ok (w2_encode m)" if "w2_wf m" for m
    using that by (simp add: w2_encode_def encode_fits w2_records_def w2_wf_def)
  show "w2_decode bs = Ok m" if "w2_wf m" "w2_encode m = Ok bs" for m bs
    using that decode_strict_map [OF _ w2_records_distinct w2_records_known, of m bs w2_from_map]
    by (simp add: w2_decode_def w2_encode_def w2_from_map_records)
  show "w2_wf m" if "w2_decode bs = Ok m" for m bs
    using that w2_from_map_lengths decode_strict_fits unfolding w2_decode_def by blast
qed

subsection \<open>Version dispatch\<close>

datatype DecodedWireMessage = V1 WireMessage | V2 WireMessageV2

fun decoded_version :: "DecodedWireMessage \<Rightarrow> u16" where
  "decoded_version (V1 m) = wm_version m"
| "decoded_version (V2 m) = w2_version m"

fun decoded_suite_id :: "DecodedWireMessage \<Rightarrow> u16" where
  "decoded_suite_id (V1 m) = wm_suite_id m"
| "decoded_suite_id (V2 m) = w2_suite_id m"

fun decoded_validate_suite :: "features \<Rightarrow> DecodedWireMessage \<Rightarrow> SecurityProfile \<Rightarrow> unit result" where
  "decoded_validate_suite ft (V1 m) p = wm_validate_suite ft m p"
| "decoded_validate_suite ft (V2 m) p = w2_validate_suite ft m p"

definition decode_wire_message :: "bytes \<Rightarrow> DecodedWireMessage result" where
  "decode_wire_message input =
     (if length input < 4 then Err (InvalidTlv ''wire message too short'')
      else
        let first_tag = u16_from_be_bytes [input ! 0, input ! 1] in
        if first_tag = TAG_VERSION then and_then (wm_decode input) (\<lambda>m. Ok (V1 m))
        else if first_tag = TAG_V2_VERSION then and_then (w2_decode input) (\<lambda>m. Ok (V2 m))
        else Err (UnsupportedAlgorithm ''wire.version_tag''))"

lemma encode_first_tag:
  assumes "encode (r # rs) = Ok bs"
  shows "4 \<le> length bs \<and> u16_from_be_bytes [bs ! 0, bs ! 1] = rec_ty r"
proof -
  have bs: "bs = u16_to_be_bytes (rec_ty r) @ u16_to_be_bytes (of_nat (length (rec_value r)))
      @ rec_value r @ concat (map record_bytes rs)"
    using assms by (simp add: encode_eq_Ok_iff record_bytes_def)
  have "[bs ! 0, bs ! 1] = u16_to_be_bytes (rec_ty r)"
    using list_of_two [of "u16_to_be_bytes (rec_ty r)"] by (simp add: bs nth_append)
  with bs show ?thesis by simp
qed

lemma decode_wire_v1:
  assumes "wm_wf m" and "wm_encode m = Ok bs"
  shows "decode_wire_message bs = Ok (V1 m)"
proof -
  obtain v rs where "wm_records m = tlv TAG_VERSION v # rs" by (simp add: wm_records_def)
  then have "4 \<le> length bs \<and> u16_from_be_bytes [bs ! 0, bs ! 1] = TAG_VERSION"
    using encode_first_tag [of "tlv TAG_VERSION v" rs bs] assms(2) by (simp add: wm_encode_def)
  then show ?thesis using wire_v1.dec_enc [OF assms] by (simp add: decode_wire_message_def)
qed

lemma decode_wire_v2:
  assumes "w2_wf m" and "w2_encode m = Ok bs"
  shows "decode_wire_message bs = Ok (V2 m)"
proof -
  obtain v rs where "w2_records m = tlv TAG_V2_VERSION v # rs" by (simp add: w2_records_def)
  then have "4 \<le> length bs \<and> u16_from_be_bytes [bs ! 0, bs ! 1] = TAG_V2_VERSION"
    using encode_first_tag [of "tlv TAG_V2_VERSION v" rs bs] assms(2) by (simp add: w2_encode_def)
  moreover have "TAG_V2_VERSION \<noteq> TAG_VERSION" by (simp add: tag_simps)
  ultimately show ?thesis using wire_v2.dec_enc [OF assms] by (simp add: decode_wire_message_def)
qed

text \<open>An encoder that succeeds was given fields that fit.\<close>

lemma wm_encode_wf:
  "wm_encode m = Ok bs \<Longrightarrow> length (wm_sender_dh_pub m) = 32 \<Longrightarrow> length (wm_aead_nonce m) = 12 \<Longrightarrow> wm_wf m"
  by (simp add: wm_encode_def encode_eq_Ok_iff wm_records_def wm_wf_def)

lemma hp_encode_wf: "hp_encode m = Ok bs \<Longrightarrow> length (hp_sender_dh_pub m) = 32 \<Longrightarrow> hp_wf m"
  by (simp add: hp_encode_def encode_eq_Ok_iff hp_records_def hp_wf_def)

lemma w2_encode_wf: "w2_encode m = Ok bs \<Longrightarrow> length (w2_aead_nonce m) = 12 \<Longrightarrow> w2_wf m"
  by (simp add: w2_encode_def encode_eq_Ok_iff w2_records_def w2_wf_def)

subsection \<open>Negotiation\<close>

record SupportedSuites =
  ss_suite_ids :: "u16 list"

record SupportedWireVersions =
  sv_versions :: "u16 list"

fun chunks_exact_2 :: "bytes \<Rightarrow> u16 list" where
  "chunks_exact_2 (a # b # bs) = u16_from_be_bytes [a, b] # chunks_exact_2 bs"
| "chunks_exact_2 bs = []"

definition ss_for_profile :: "features \<Rightarrow> SecurityProfile \<Rightarrow> SupportedSuites" where
  "ss_for_profile ft profile =
     \<lparr>ss_suite_ids = filter (allows_suite_id ft profile) [SUITE_ID_MLKEM768, SUITE_ID_KYBER768]\<rparr>"

definition ss_encode :: "SupportedSuites \<Rightarrow> bytes" where
  "ss_encode s = concat (map u16_to_be_bytes (ss_suite_ids s))"

definition ss_decode :: "bytes \<Rightarrow> SupportedSuites result" where
  "ss_decode input =
     (if length input mod 2 \<noteq> 0 then Err (InvalidLength ''supported_suites'' 0 (length input))
      else
        let suite_ids = chunks_exact_2 input in
        and_then (collect_ok from_suite_id suite_ids) (\<lambda>_. Ok \<lparr>ss_suite_ids = suite_ids\<rparr>))"

definition ss_negotiate :: "SupportedSuites \<Rightarrow> SupportedSuites \<Rightarrow> u16 option" where
  "ss_negotiate local remote = find (\<lambda>i. i \<in> set (ss_suite_ids remote)) (ss_suite_ids local)"

definition sv_v1_only :: SupportedWireVersions where
  "sv_v1_only = \<lparr>sv_versions = [WIRE_VERSION]\<rparr>"

definition sv_v1_and_v2 :: SupportedWireVersions where
  "sv_v1_and_v2 = \<lparr>sv_versions = [WIRE_VERSION_V2, WIRE_VERSION]\<rparr>"

definition sv_encode :: "SupportedWireVersions \<Rightarrow> bytes" where
  "sv_encode s = concat (map u16_to_be_bytes (sv_versions s))"

fun sv_check :: "u16 list \<Rightarrow> unit result" where
  "sv_check [] = Ok ()"
| "sv_check (v # vs) =
     (if v \<noteq> WIRE_VERSION \<and> v \<noteq> WIRE_VERSION_V2 then Err (UnsupportedAlgorithm ''wire.version'')
      else sv_check vs)"

definition sv_decode :: "bytes \<Rightarrow> SupportedWireVersions result" where
  "sv_decode input =
     (if length input mod 2 \<noteq> 0 then Err (InvalidLength ''supported_wire_versions'' 0 (length input))
      else
        let versions = chunks_exact_2 input in
        and_then (sv_check versions) (\<lambda>_. Ok \<lparr>sv_versions = versions\<rparr>))"

definition sv_negotiate :: "SupportedWireVersions \<Rightarrow> SupportedWireVersions \<Rightarrow> u16 option" where
  "sv_negotiate local remote = find (\<lambda>v. v \<in> set (sv_versions remote)) (sv_versions local)"

lemma chunks_exact_2_concat [simp]: "chunks_exact_2 (concat (map u16_to_be_bytes ws)) = ws"
proof (induction ws)
  case (Cons w ws)
  obtain a b where "u16_to_be_bytes w = [a, b]" "u16_from_be_bytes [a, b] = w"
    using u16_two_bytes by blast
  with Cons show ?case by simp
qed simp

lemma length_concat_u16 [simp]: "length (concat (map u16_to_be_bytes ws)) = 2 * length ws"
  by (induction ws) auto

definition ss_wf :: "SupportedSuites \<Rightarrow> bool" where
  "ss_wf s \<longleftrightarrow> list_all (\<lambda>i. is_ok (from_suite_id i)) (ss_suite_ids s)"

definition sv_wf :: "SupportedWireVersions \<Rightarrow> bool" where
  "sv_wf s \<longleftrightarrow> list_all (\<lambda>v. v = WIRE_VERSION \<or> v = WIRE_VERSION_V2) (sv_versions s)"

lemma collect_ok_suites: "is_ok (collect_ok from_suite_id is) \<longleftrightarrow> list_all (\<lambda>i. is_ok (from_suite_id i)) is"
  by (induction "is") (auto simp: is_ok_iff and_then_Ok_iff)

lemma sv_check_Ok: "sv_check vs = Ok u \<longleftrightarrow> list_all (\<lambda>v. v = WIRE_VERSION \<or> v = WIRE_VERSION_V2) vs"
  by (induction vs) auto

interpretation suites_codec: codec "\<lambda>s. Ok (ss_encode s)" ss_decode ss_wf
proof unfold_locales
  show "ss_decode bs = Ok m" if "ss_wf m" "Ok (ss_encode m) = Ok bs" for m bs
    using that collect_ok_suites [of "ss_suite_ids m"]
    by (auto simp: ss_decode_def ss_encode_def ss_wf_def is_ok_iff)
  show "ss_wf m" if "ss_decode bs = Ok m" for m bs
    using that collect_ok_suites [of "chunks_exact_2 bs"]
    by (auto simp: ss_decode_def ss_wf_def Let_def split: if_splits)
qed simp

interpretation versions_codec: codec "\<lambda>s. Ok (sv_encode s)" sv_decode sv_wf
proof unfold_locales
  show "sv_decode bs = Ok m" if "sv_wf m" "Ok (sv_encode m) = Ok bs" for m bs
    using that sv_check_Ok [of "sv_versions m" "()"]
    by (auto simp: sv_decode_def sv_encode_def sv_wf_def)
  show "sv_wf m" if "sv_decode bs = Ok m" for m bs
    using that by (auto simp: sv_decode_def sv_wf_def Let_def sv_check_Ok split: if_splits)
qed simp

text \<open>The negotiated value is the first local preference the peer also lists.\<close>

lemma find_first_common:
  "find (\<lambda>i. i \<in> S) xs = Some x \<longleftrightarrow> (\<exists>ys zs. xs = ys @ x # zs \<and> x \<in> S \<and> set ys \<inter> S = {})"
  (is "_ \<longleftrightarrow> ?split xs")
proof
  show "find (\<lambda>i. i \<in> S) xs = Some x \<Longrightarrow> ?split xs"
  proof (induction xs)
    case (Cons a xs)
    show ?case
    proof (cases "a \<in> S")
      case True
      with Cons.prems show ?thesis by (intro exI [of _ "[]"] exI [of _ xs]) simp
    next
      case False
      with Cons obtain ys zs where "xs = ys @ x # zs" "x \<in> S" "set ys \<inter> S = {}" by auto
      with False show ?thesis by (intro exI [of _ "a # ys"] exI [of _ zs]) simp
    qed
  qed simp
  assume "?split xs"
  then obtain ys zs where "xs = ys @ x # zs" "x \<in> S" "set ys \<inter> S = {}" by blast
  moreover have "find (\<lambda>i. i \<in> S) (ys @ x # zs) = Some x" if "x \<in> S" "set ys \<inter> S = {}" for ys zs
    using that by (induction ys) auto
  ultimately show "find (\<lambda>i. i \<in> S) xs = Some x" by simp
qed

end
