(* ===== verification/Ratchet.thy ===== *)
theory Ratchet
  imports Crypto Rust_Str
begin

text \<open>
  \<^verbatim>\<open>ratchet/mod.rs\<close>: the symmetric chain, the cache of skipped message keys and the root step.
  Every operation that changes its receiver returns the new state beside its result, on the error
  paths too. The cache is a FIFO queue of identifiers beside a hash map; the locale \<open>key_store\<close>
  states what its clients may rely on, over the list of entries in insertion order, and is
  interpreted for it.
\<close>

subsection \<open>The symmetric chain\<close>

definition INFO_CHAIN_STEP :: bytes where "INFO_CHAIN_STEP = str_bytes ''pqmsg-ratchet-chain-step''"
definition INFO_ROOT_STEP :: bytes where "INFO_ROOT_STEP = str_bytes ''pqmsg-ratchet-root-step''"
definition MAX_SKIPPED_KEYS_UPPER_BOUND :: usize where "MAX_SKIPPED_KEYS_UPPER_BOUND = 2048"

record ChainState =
  chain_key :: bytes
  next_msg_num :: u32

definition chain_new :: "bytes \<Rightarrow> ChainState" where
  "chain_new k = \<lparr>chain_key = k, next_msg_num = 0\<rparr>"

definition chain_reset :: "bytes \<Rightarrow> ChainState \<Rightarrow> ChainState" where
  "chain_reset k s = s\<lparr>chain_key := k, next_msg_num := 0\<rparr>"

definition chain_from_parts :: "bytes \<Rightarrow> u32 \<Rightarrow> ChainState" where
  "chain_from_parts k n = \<lparr>chain_key = k, next_msg_num = n\<rparr>"

definition next_message_key :: "crypto \<Rightarrow> ChainState \<Rightarrow> (u32 \<times> bytes) result \<times> ChainState" where
  "next_message_key c s =
     (case hkdf_sha256 c (chain_key s) None INFO_CHAIN_STEP 64 of
        Inl e \<Rightarrow> (Err e, s)
      | Inr okm \<Rightarrow>
          let message_key = take 32 okm;
              next_chain_key = drop 32 okm;
              msg_num = next_msg_num s
          in if msg_num = u32_MAX
             then (Err (PolicyViolation ''chain exhausted: message counter overflow''), s)
             else (Ok (msg_num, message_key),
                   s\<lparr>next_msg_num := msg_num + 1, chain_key := next_chain_key\<rparr>))"

subsection \<open>Skipped message keys\<close>

record SkippedKeyId =
  sk_dh_pub :: bytes
  sk_msg_num :: u32

record SkippedMessageKeys =
  sm_max_entries :: usize
  sm_order :: "SkippedKeyId list"
  sm_map :: "SkippedKeyId \<rightharpoonup> bytes"

definition sm_new :: "usize \<Rightarrow> SkippedMessageKeys" where
  "sm_new max_entries =
     \<lparr>sm_max_entries = min max_entries MAX_SKIPPED_KEYS_UPPER_BOUND, sm_order = [], sm_map = Map.empty\<rparr>"

definition sm_pop_front :: "SkippedMessageKeys \<Rightarrow> SkippedMessageKeys" where
  "sm_pop_front s = (case sm_order s of
       [] \<Rightarrow> s
     | evicted # rest \<Rightarrow> s\<lparr>sm_order := rest, sm_map := (sm_map s)(evicted := None)\<rparr>)"

definition sm_insert :: "SkippedKeyId \<Rightarrow> bytes \<Rightarrow> SkippedMessageKeys \<Rightarrow> SkippedMessageKeys" where
  "sm_insert key_id key s =
     (if sm_max_entries s = 0 then s
      else if sm_map s key_id \<noteq> None then s
      else
        let s = (if length (sm_order s) \<ge> sm_max_entries s then sm_pop_front s else s)
        in s\<lparr>sm_order := sm_order s @ [key_id], sm_map := (sm_map s)(key_id \<mapsto> key)\<rparr>)"

definition sm_take :: "SkippedKeyId \<Rightarrow> SkippedMessageKeys \<Rightarrow> bytes option \<times> SkippedMessageKeys" where
  "sm_take key_id s =
     (sm_map s key_id,
      s\<lparr>sm_order := remove1 key_id (sm_order s), sm_map := (sm_map s)(key_id := None)\<rparr>)"

definition sm_entries :: "SkippedMessageKeys \<Rightarrow> (SkippedKeyId \<times> bytes) list" where
  "sm_entries s = List.map_filter (\<lambda>k. map_option (Pair k) (sm_map s k)) (sm_order s)"

definition sm_from_entries :: "usize \<Rightarrow> (SkippedKeyId \<times> bytes) list \<Rightarrow> SkippedMessageKeys" where
  "sm_from_entries max_entries entries =
     foldl (\<lambda>s (key_id, key). sm_insert key_id key s) (sm_new max_entries) entries"

subsection \<open>Root steps\<close>

record RootStepOutput =
  rs_root_key :: bytes
  rs_chain_key :: bytes
  rs_header_key :: bytes

definition kdf_root_step :: "crypto \<Rightarrow> bytes \<Rightarrow> bytes \<Rightarrow> RootStepOutput result" where
  "kdf_root_step c root_key dh_output =
     and_then (hkdf_sha256 c dh_output (Some root_key) INFO_ROOT_STEP 96) (\<lambda>okm.
     Ok \<lparr>rs_root_key = take 32 okm, rs_chain_key = take 32 (drop 32 okm),
         rs_header_key = take 32 (drop 64 okm)\<rparr>)"

definition dh_root_step :: "crypto \<Rightarrow> bytes \<Rightarrow> bytes \<Rightarrow> bytes \<Rightarrow> RootStepOutput result" where
  "dh_root_step c root_key local_secret remote_public =
     kdf_root_step c root_key (diffie_hellman c local_secret remote_public)"

subsection \<open>The chain as a sequence of keys\<close>

definition chain_okm :: "crypto \<Rightarrow> bytes \<Rightarrow> bytes" where
  "chain_okm c ck = the (hkdf_expand c None ck INFO_CHAIN_STEP 64)"

definition chain_key_at :: "crypto \<Rightarrow> bytes \<Rightarrow> nat \<Rightarrow> bytes" where
  "chain_key_at c ck n = ((\<lambda>k. drop 32 (chain_okm c k)) ^^ n) ck"

definition message_key_at :: "crypto \<Rightarrow> bytes \<Rightarrow> nat \<Rightarrow> bytes" where
  "message_key_at c ck n = take 32 (chain_okm c (chain_key_at c ck n))"

text \<open>The state of a chain that started from \<open>ck\<close> and has delivered its first \<open>n\<close> keys.\<close>

definition chain_at :: "crypto \<Rightarrow> bytes \<Rightarrow> nat \<Rightarrow> ChainState" where
  "chain_at c ck n = \<lparr>chain_key = chain_key_at c ck n, next_msg_num = of_nat n\<rparr>"

lemma chain_key_at_simps [simp]:
  "chain_key_at c ck 0 = ck"
  "chain_key_at c ck (Suc n) = drop 32 (chain_okm c (chain_key_at c ck n))"
  by (simp_all add: chain_key_at_def)

lemma chain_key_at_add: "chain_key_at c (chain_key_at c ck m) n = chain_key_at c ck (m + n)"
  by (subst add.commute) (simp add: chain_key_at_def funpow_add)

lemma chain_okm_hkdf:
  "hkdf_ok c \<Longrightarrow> hkdf_sha256 c ck None INFO_CHAIN_STEP 64 = Ok (chain_okm c ck) \<and> length (chain_okm c ck) = 64"
  by (rule hkdf_ok_Some [of c 64 None ck INFO_CHAIN_STEP]) (auto simp: chain_okm_def hkdf_sha256_def)

lemma message_key_length [crypto_laws]: "hkdf_ok c \<Longrightarrow> length (message_key_at c ck n) = 32"
  by (simp add: message_key_at_def chain_okm_hkdf)

lemma chain_key_length [crypto_laws]:
  "hkdf_ok c \<Longrightarrow> length ck = 32 \<Longrightarrow> length (chain_key_at c ck n) = 32"
  by (cases n) (simp_all add: chain_okm_hkdf)

lemma u32_of_nat_eq_MAX: "n < 2 ^ 32 \<Longrightarrow> (of_nat n :: u32) = 0xFFFFFFFF \<longleftrightarrow> n = 0xFFFFFFFF"
  by (simp add: word_unat_eq_iff unat_of_nat)

lemma next_message_key_chain:
  assumes "hkdf_ok c" and "n < 0xFFFFFFFF"
  shows "next_message_key c (chain_at c ck n) = (Ok (of_nat n, message_key_at c ck n), chain_at c ck (Suc n))"
  using assms chain_okm_hkdf [OF assms(1)] u32_of_nat_eq_MAX [of n]
  by (simp add: next_message_key_def chain_at_def message_key_at_def Let_def add.commute)

lemma next_message_key_exhausted:
  assumes "hkdf_ok c" and "next_msg_num s = u32_MAX"
  shows "next_message_key c s = (Err (PolicyViolation ''chain exhausted: message counter overflow''), s)"
  using assms chain_okm_hkdf [OF assms(1)] by (simp add: next_message_key_def Let_def)

lemma next_message_key_Err: "next_message_key c s = (Err e, s') \<Longrightarrow> s' = s"
  by (auto simp: next_message_key_def Let_def split: sum.splits if_splits)

lemma next_message_key_Ok:
  assumes "next_message_key c s = (Ok (n, k), s')"
  shows "n = next_msg_num s \<and> n \<noteq> u32_MAX \<and> next_msg_num s' = n + 1"
  using assms by (auto simp: next_message_key_def Let_def split: sum.splits if_splits)

subsection \<open>The interface of the key cache\<close>

locale key_store =
  fixes new :: "nat \<Rightarrow> 's"
    and ins :: "'k \<Rightarrow> 'v \<Rightarrow> 's \<Rightarrow> 's"
    and tak :: "'k \<Rightarrow> 's \<Rightarrow> 'v option \<times> 's"
    and ents :: "'s \<Rightarrow> ('k \<times> 'v) list"
    and cap :: "'s \<Rightarrow> nat"
    and inv :: "'s \<Rightarrow> bool"
    and bound :: nat
  assumes new_inv: "inv (new n)"
    and new_ents: "ents (new n) = []"
    and new_cap: "cap (new n) = min n bound"
    and ins_inv: "inv s \<Longrightarrow> inv (ins k v s)"
    and ins_cap: "cap (ins k v s) = cap s"
    and ins_ents: "inv s \<Longrightarrow> ents (ins k v s) =
        (if cap s = 0 \<or> k \<in> fst ` set (ents s) then ents s
         else (if length (ents s) \<ge> cap s then tl (ents s) else ents s) @ [(k, v)])"
    and tak_inv: "inv s \<Longrightarrow> inv (snd (tak k s))"
    and tak_cap: "cap (snd (tak k s)) = cap s"
    and tak_result: "inv s \<Longrightarrow> fst (tak k s) = map_of (ents s) k"
    and tak_ents: "inv s \<Longrightarrow> ents (snd (tak k s)) = filter (\<lambda>e. fst e \<noteq> k) (ents s)"
    and ents_distinct: "inv s \<Longrightarrow> distinct (map fst (ents s))"
    and ents_bounded: "inv s \<Longrightarrow> length (ents s) \<le> cap s"
    and cap_bounded: "inv s \<Longrightarrow> cap s \<le> bound"
begin

definition ins_all :: "('k \<times> 'v) list \<Rightarrow> 's \<Rightarrow> 's" where
  "ins_all kvs s = foldl (\<lambda>s (k, v). ins k v s) s kvs"

lemma ins_all_simps [simp]:
  "ins_all [] s = s"
  "ins_all ((k, v) # kvs) s = ins_all kvs (ins k v s)"
  by (simp_all add: ins_all_def)

lemma ins_all_inv: "inv s \<Longrightarrow> inv (ins_all kvs s)"
  by (induction kvs arbitrary: s) (auto simp: ins_inv)

lemma ins_all_cap: "cap (ins_all kvs s) = cap s"
  by (induction kvs arbitrary: s) (auto simp: ins_cap)

text \<open>Inserting fresh keys keeps the most recent entries up to the capacity, oldest out first.\<close>

lemma ins_all_ents:
  assumes "inv s" and "distinct (map fst (ents s @ kvs))" and "0 < cap s"
  shows "ents (ins_all kvs s) = drop (length (ents s) + length kvs - cap s) (ents s @ kvs)"
  using assms
proof (induction kvs arbitrary: s)
  case Nil
  then show ?case using ents_bounded by simp
next
  case (Cons kv kvs)
  obtain k v where kv: "kv = (k, v)" by (cases kv)
  have e: "ents (ins k v s) = drop (Suc (length (ents s)) - cap s) (ents s @ [(k, v)])"
  proof (cases "cap s \<le> length (ents s)")
    case True
    then have "length (ents s) = cap s" using ents_bounded [OF Cons.prems(1)] by simp
    with Cons.prems True show ?thesis by (auto simp: ins_ents kv drop_Suc tl_append split: list.splits)
  next
    case False
    with Cons.prems show ?thesis by (auto simp: ins_ents kv)
  qed
  have d: "ents (ins k v s) @ kvs = drop (Suc (length (ents s)) - cap s) (ents s @ kv # kvs)"
    using Cons.prems(3) by (cases "cap s") (simp_all add: e kv)
  have "distinct (map fst (ents (ins k v s) @ kvs))"
    unfolding d drop_map [symmetric] using Cons.prems(2) by (rule distinct_drop)
  from Cons.IH [OF ins_inv [OF Cons.prems(1)] this] Cons.prems(3)
  have "ents (ins_all kvs (ins k v s))
      = drop (length (ents (ins k v s)) + length kvs - cap s) (ents (ins k v s) @ kvs)"
    by (simp add: ins_cap)
  also have "\<dots> = drop (length (ents s) + Suc (length kvs) - cap s) (ents s @ (k, v) # kvs)"
    unfolding e using Cons.prems(3) ents_bounded [OF Cons.prems(1)]
    by (cases "cap s \<le> length (ents s)") (auto simp: Suc_diff_le drop_Suc tl_append split: list.splits)
  finally show ?case by (simp add: kv)
qed

lemma ins_all_subset: "inv s \<Longrightarrow> set (ents (ins_all kvs s)) \<subseteq> set (ents s) \<union> set kvs"
proof (induction kvs arbitrary: s)
  case (Cons kv kvs)
  obtain k v where kv: "kv = (k, v)" by (cases kv)
  have "set (ents (ins k v s)) \<subseteq> insert (k, v) (set (ents s))"
    using Cons.prems by (auto simp: ins_ents dest: list.set_sel(2) [rotated] split: if_splits)
  with Cons.IH [OF ins_inv [OF Cons.prems], of k v] show ?case by (auto simp: kv)
qed simp

lemma ins_all_exact:
  assumes "inv s" and "distinct (map fst (ents s @ kvs))" and "length (ents s) + length kvs \<le> cap s"
  shows "ents (ins_all kvs s) = ents s @ kvs"
  using assms ins_all_ents [OF assms(1,2)] by (cases "cap s = 0") auto

lemma tak_missing: "inv s \<Longrightarrow> k \<notin> fst ` set (ents s) \<Longrightarrow> ents (snd (tak k s)) = ents s"
  by (auto simp: tak_ents filter_id_conv)

lemma rebuild_ents:
  assumes "inv s"
  shows "ents (ins_all (ents s) (new (cap s))) = ents s \<and> cap (ins_all (ents s) (new (cap s))) = cap s"
proof (cases "cap s = 0")
  case True
  then have "ents s = []" using ents_bounded [OF assms] by simp
  with True show ?thesis using cap_bounded [OF assms] by (simp add: new_ents new_cap)
next
  case False
  then have "cap (new (cap s)) = cap s" using cap_bounded [OF assms] by (simp add: new_cap)
  with False show ?thesis
    using ins_all_ents [OF new_inv, of "cap s" "ents s"] ents_distinct [OF assms] ents_bounded [OF assms]
    by (simp add: new_ents ins_all_cap)
qed

text \<open>A key can be taken once.\<close>

lemma tak_tak: "inv s \<Longrightarrow> fst (tak k (snd (tak k s))) = None"
proof -
  assume "inv s"
  then have "k \<notin> fst ` set (ents (snd (tak k s)))" by (auto simp: tak_ents)
  then show ?thesis using \<open>inv s\<close> by (simp add: tak_result tak_inv map_of_eq_None_iff)
qed

lemma tak_other: "inv s \<Longrightarrow> k \<noteq> k' \<Longrightarrow> fst (tak k' (snd (tak k s))) = fst (tak k' s)"
proof -
  assume "inv s" "k \<noteq> k'"
  then have "map_of (filter (\<lambda>e. fst e \<noteq> k) xs) k' = map_of xs k'" for xs :: "('k \<times> 'v) list"
    by (induction xs) auto
  with \<open>inv s\<close> show ?thesis by (simp add: tak_result tak_inv tak_ents)
qed

end

subsection \<open>The cache provides the interface\<close>

definition sm_inv :: "SkippedMessageKeys \<Rightarrow> bool" where
  "sm_inv s \<longleftrightarrow> distinct (sm_order s) \<and> dom (sm_map s) = set (sm_order s)
     \<and> length (sm_order s) \<le> sm_max_entries s \<and> sm_max_entries s \<le> MAX_SKIPPED_KEYS_UPPER_BOUND"

lemma map_filter_total:
  "set ks \<subseteq> dom m \<Longrightarrow> List.map_filter (\<lambda>k. map_option (Pair k) (m k)) ks = map (\<lambda>k. (k, the (m k))) ks"
  by (induction ks) (auto simp: map_filter_simps)

lemma sm_entries_inv: "sm_inv s \<Longrightarrow> sm_entries s = map (\<lambda>k. (k, the (sm_map s k))) (sm_order s)"
  unfolding sm_entries_def sm_inv_def by (intro map_filter_total) simp

lemma sm_entries_fst: "sm_inv s \<Longrightarrow> map fst (sm_entries s) = sm_order s"
  by (simp add: sm_entries_inv comp_def)

lemma sm_pop_front_inv:
  "sm_inv s \<Longrightarrow> sm_inv (sm_pop_front s) \<and> sm_entries (sm_pop_front s) = tl (sm_entries s)
     \<and> sm_order (sm_pop_front s) = tl (sm_order s)
     \<and> sm_max_entries (sm_pop_front s) = sm_max_entries s"
proof (cases "sm_order s")
  case (Cons k ks)
  assume inv: "sm_inv s"
  have p: "sm_pop_front s = s\<lparr>sm_order := ks, sm_map := (sm_map s)(k := None)\<rparr>"
    by (simp add: sm_pop_front_def Cons)
  have i: "sm_inv (sm_pop_front s)" using inv by (auto simp: p Cons sm_inv_def)
  with inv show ?thesis by (auto simp: sm_entries_inv Cons) (auto simp: p sm_inv_def Cons)
qed (simp add: sm_pop_front_def sm_entries_def map_filter_simps)

lemma sm_push_inv:
  fixes s :: SkippedMessageKeys and v :: bytes
  assumes "sm_inv s" and "sm_map s k = None" and "length (sm_order s) < sm_max_entries s"
  defines "s' \<equiv> s\<lparr>sm_order := sm_order s @ [k], sm_map := (sm_map s)(k \<mapsto> v)\<rparr>"
  shows "sm_inv s' \<and> sm_entries s' = sm_entries s @ [(k, v)]"
proof -
  have "k \<notin> set (sm_order s)" using assms by (auto simp: sm_inv_def)
  with assms have i: "sm_inv s'" by (auto simp: sm_inv_def s'_def)
  with \<open>k \<notin> set (sm_order s)\<close> assms(1) show ?thesis by (auto simp: sm_entries_inv) (auto simp: s'_def)
qed

lemma sm_map_entries: "sm_inv s \<Longrightarrow> map_of (sm_entries s) k = sm_map s k"
proof -
  assume i: "sm_inv s"
  have "map_of (map (\<lambda>k. (k, the (m k))) ks) k = (if k \<in> set ks then Some (the (m k)) else None)"
    for m :: "SkippedKeyId \<rightharpoonup> bytes" and ks
    by (induction ks) auto
  moreover have "sm_map s k \<noteq> None \<longleftrightarrow> k \<in> set (sm_order s)" using i by (auto simp: sm_inv_def)
  ultimately show ?thesis using i by (auto simp: sm_entries_inv)
qed

lemma sm_insert_spec:
  assumes "sm_inv s"
  shows "sm_inv (sm_insert k v s) \<and> sm_max_entries (sm_insert k v s) = sm_max_entries s
    \<and> sm_entries (sm_insert k v s) =
        (if sm_max_entries s = 0 \<or> k \<in> fst ` set (sm_entries s) then sm_entries s
         else (if length (sm_entries s) \<ge> sm_max_entries s then tl (sm_entries s) else sm_entries s)
              @ [(k, v)])"
proof -
  let ?s = "if length (sm_order s) \<ge> sm_max_entries s then sm_pop_front s else s"
  have "length (sm_entries s) = length (sm_order s)" using sm_entries_fst [OF assms] by (metis length_map)
  moreover have "sm_map s k = None \<longleftrightarrow> k \<notin> fst ` set (sm_entries s)"
    using sm_map_entries [OF assms, of k] by (metis map_of_eq_None_iff)
  moreover have "sm_inv ?s" "length (sm_order s) \<le> sm_max_entries s"
    using assms sm_pop_front_inv [OF assms] by (auto simp: sm_inv_def)
  moreover have "sm_map ?s k = None" if "sm_map s k = None"
    using that by (auto simp: sm_pop_front_def split: list.splits)
  moreover have "length (sm_order ?s) < sm_max_entries ?s" if "sm_max_entries s \<noteq> 0"
    using that sm_pop_front_inv [OF assms] assms by (auto simp: sm_inv_def)
  ultimately show ?thesis
    using sm_push_inv [of ?s k v] sm_pop_front_inv [OF assms] assms
    by (auto simp: sm_insert_def Let_def)
qed

lemma sm_take_spec:
  assumes "sm_inv s"
  shows "sm_inv (snd (sm_take k s)) \<and> sm_entries (snd (sm_take k s)) = filter (\<lambda>e. fst e \<noteq> k) (sm_entries s)"
proof -
  have r: "remove1 k (sm_order s) = filter (\<lambda>x. x \<noteq> k) (sm_order s)"
    using assms by (simp add: sm_inv_def distinct_remove1_removeAll removeAll_filter_not_eq eq_commute)
  have "length (filter (\<lambda>x. x \<noteq> k) (sm_order s)) \<le> sm_max_entries s"
    using assms length_filter_le order_trans unfolding sm_inv_def by blast
  then have i: "sm_inv (snd (sm_take k s))"
    using assms unfolding sm_take_def sm_inv_def r by auto
  have "sm_entries (snd (sm_take k s)) = map (\<lambda>x. (x, the (sm_map s x))) (filter (\<lambda>x. x \<noteq> k) (sm_order s))"
    using sm_entries_inv [OF i] by (simp add: sm_take_def r)
  with i assms show ?thesis by (simp add: sm_entries_inv filter_map comp_def)
qed

interpretation skipped: key_store sm_new sm_insert sm_take sm_entries sm_max_entries sm_inv
  MAX_SKIPPED_KEYS_UPPER_BOUND
proof unfold_locales
  show "sm_inv (sm_new n)" "sm_entries (sm_new n) = []"
      "sm_max_entries (sm_new n) = min n MAX_SKIPPED_KEYS_UPPER_BOUND" for n
    by (simp_all add: sm_new_def sm_inv_def sm_entries_def map_filter_simps)
  show "sm_max_entries (sm_insert k v s) = sm_max_entries s" for k v s
    by (simp add: sm_insert_def sm_pop_front_def Let_def split: list.splits)
  show "sm_max_entries (snd (sm_take k s)) = sm_max_entries s" for k s
    by (simp add: sm_take_def)
  show "fst (sm_take k s) = map_of (sm_entries s) k" if "sm_inv s" for k s
    using sm_map_entries [OF that] by (simp add: sm_take_def)
  show "distinct (map fst (sm_entries s))" "length (sm_entries s) \<le> sm_max_entries s"
      "sm_max_entries s \<le> MAX_SKIPPED_KEYS_UPPER_BOUND" if "sm_inv s" for s
    using that sm_entries_fst [OF that] by (auto simp: sm_inv_def simp flip: length_map [of fst])
qed (use sm_insert_spec sm_take_spec in auto)

text \<open>The two representations agree: a cache is determined by its capacity and its entries.\<close>

lemma sm_eqI:
  assumes "sm_inv s" "sm_inv t" "sm_max_entries s = sm_max_entries t" "sm_entries s = sm_entries t"
  shows "s = t"
proof -
  have "sm_order s = sm_order t" using assms sm_entries_fst by metis
  moreover have "sm_map s = sm_map t" using assms sm_map_entries by (metis ext)
  ultimately show ?thesis using assms(3) by (cases s; cases t) simp
qed

lemma sm_from_entries_ins_all: "sm_from_entries n es = skipped.ins_all es (sm_new n)"
  by (simp add: sm_from_entries_def skipped.ins_all_def)

lemma sm_from_entries_entries: "sm_inv s \<Longrightarrow> sm_from_entries (sm_max_entries s) (sm_entries s) = s"
  using skipped.rebuild_ents [of s] skipped.ins_all_inv [OF skipped.new_inv]
  by (intro sm_eqI) (auto simp: sm_from_entries_ins_all)

lemma sm_take_missing: "sm_inv s \<Longrightarrow> k \<notin> fst ` set (sm_entries s) \<Longrightarrow> snd (sm_take k s) = s"
  by (intro sm_eqI) (simp_all add: skipped.tak_inv skipped.tak_cap skipped.tak_missing)

subsection \<open>Root step lemmas\<close>

lemma kdf_root_step_Ok:
  assumes "hkdf_ok c"
  obtains o' where "kdf_root_step c rk dh = Ok o'" "length (rs_root_key o') = 32"
    "length (rs_chain_key o') = 32" "length (rs_header_key o') = 32"
  by (rule hkdf_sha256_Ok [OF assms, of 96 dh "Some rk" INFO_ROOT_STEP]) (auto simp: kdf_root_step_def)

lemma dh_root_step_agree:
  assumes "dh_ok c" "dh_pair_ok c a" "dh_pair_ok c b"
  shows "dh_root_step c rk (dh_secret a) (dh_public b) = dh_root_step c rk (dh_secret b) (dh_public a)"
  using diffie_hellman_commute [OF assms] by (simp add: dh_root_step_def)

end
