(* ===== verification/Keys.thy ===== *)
theory Keys
  imports Alg Crypto
begin

text \<open>
  \<^verbatim>\<open>keys.rs\<close>: identity keys, prekeys and the prekey bundle. \<^verbatim>\<open>SecretBytes\<close> is the byte list
  it wraps; zeroisation on drop and the serde attributes have no counterpart.
\<close>

type_synonym SecretBytes = bytes

definition require_32 :: "SecretBytes \<Rightarrow> string \<Rightarrow> bytes result" where
  "require_32 s fld =
     (if length s \<noteq> 32 then Err (InvalidLength fld 32 (length s)) else Ok s)"

record IdentityKeyPair =
  ik_key_id :: rstr
  ik_public_key :: bytes
  ik_secret_key :: SecretBytes
  ik_pq_sig_public_key :: "bytes option"
  ik_pq_sig_secret_key :: "SecretBytes option"

definition ik_generate :: "crypto \<Rightarrow> rstr \<Rightarrow> rng \<Rightarrow> IdentityKeyPair \<times> rng" where
  "ik_generate c key_id rng =
     (let (keypair, rng) = generate_keypair c rng
      in (\<lparr>ik_key_id = key_id, ik_public_key = dh_public keypair, ik_secret_key = dh_secret keypair,
           ik_pq_sig_public_key = None, ik_pq_sig_secret_key = None\<rparr>, rng))"

definition ik_require_secret_key :: "IdentityKeyPair \<Rightarrow> bytes result" where
  "ik_require_secret_key k = require_32 (ik_secret_key k) ''identity_key_pair.secret_key''"

record OneTimePreKey =
  otpk_key_id :: rstr
  otpk_public_key :: bytes
  otpk_secret_key :: SecretBytes

definition otpk_generate :: "crypto \<Rightarrow> rstr \<Rightarrow> rng \<Rightarrow> OneTimePreKey \<times> rng" where
  "otpk_generate c key_id rng =
     (let (keypair, rng) = generate_keypair c rng
      in (\<lparr>otpk_key_id = key_id, otpk_public_key = dh_public keypair,
           otpk_secret_key = dh_secret keypair\<rparr>, rng))"

definition otpk_require_secret_key :: "OneTimePreKey \<Rightarrow> bytes result" where
  "otpk_require_secret_key k = require_32 (otpk_secret_key k) ''one_time_prekey.secret_key''"

record KEMPreKey =
  kpk_key_id :: rstr
  kpk_public_key :: bytes
  kpk_secret_key :: SecretBytes

record PreKeyBundle =
  pb_protocol_version :: u16
  pb_suite :: AlgorithmSuite
  pb_owner_id :: rstr
  pb_identity_key :: bytes
  pb_signed_prekey :: bytes
  pb_pq_signed_prekey :: bytes
  pb_spk_signature :: bytes
  pb_pqspk_signature :: bytes
  pb_signature_public_key :: bytes
  pb_one_time_prekey :: "bytes option"
  pb_one_time_pq_prekey :: "bytes option"
  pb_pq_sig_public_key :: "bytes option"
  pb_pq_spk_signature :: "bytes option"
  pb_pq_pqspk_signature :: "bytes option"

definition pb_new ::
  "rstr \<Rightarrow> bytes \<Rightarrow> bytes \<Rightarrow> bytes \<Rightarrow> bytes \<Rightarrow> bytes \<Rightarrow> bytes \<Rightarrow> PreKeyBundle" where
  "pb_new owner_id identity_key signed_prekey pq_signed_prekey spk_signature pqspk_signature
     signature_public_key =
     \<lparr>pb_protocol_version = PROTOCOL_VERSION_V1, pb_suite = default_suite, pb_owner_id = owner_id,
      pb_identity_key = identity_key, pb_signed_prekey = signed_prekey,
      pb_pq_signed_prekey = pq_signed_prekey, pb_spk_signature = spk_signature,
      pb_pqspk_signature = pqspk_signature, pb_signature_public_key = signature_public_key,
      pb_one_time_prekey = None, pb_one_time_pq_prekey = None, pb_pq_sig_public_key = None,
      pb_pq_spk_signature = None, pb_pq_pqspk_signature = None\<rparr>"

definition ik_ok :: "crypto \<Rightarrow> IdentityKeyPair \<Rightarrow> bool" where
  "ik_ok c k \<longleftrightarrow> dh_pair_ok c \<lparr>dh_public = ik_public_key k, dh_secret = ik_secret_key k\<rparr>"

definition otpk_ok :: "crypto \<Rightarrow> OneTimePreKey \<Rightarrow> bool" where
  "otpk_ok c k \<longleftrightarrow> dh_pair_ok c \<lparr>dh_public = otpk_public_key k, dh_secret = otpk_secret_key k\<rparr>"

lemma require_32_eq_Ok [simp]: "require_32 s f = Ok x \<longleftrightarrow> length s = 32 \<and> x = s"
  by (auto simp: require_32_def)

lemma ik_generate_ok: "dh_ok c \<Longrightarrow> ik_generate c i r = (k, r') \<Longrightarrow> ik_ok c k"
  by (cases "generate_keypair c r")
     (auto simp: ik_generate_def ik_ok_def dh_pair_ok_def dest!: generate_keypair_ok)

lemma otpk_generate_ok: "dh_ok c \<Longrightarrow> otpk_generate c i r = (k, r') \<Longrightarrow> otpk_ok c k"
  by (cases "generate_keypair c r")
     (auto simp: otpk_generate_def otpk_ok_def dh_pair_ok_def dest!: generate_keypair_ok)

lemma ik_require_ok: "ik_ok c k \<Longrightarrow> ik_require_secret_key k = Ok (ik_secret_key k)"
  by (simp add: ik_require_secret_key_def ik_ok_def dh_pair_ok_def)

lemma otpk_require_ok: "otpk_ok c k \<Longrightarrow> otpk_require_secret_key k = Ok (otpk_secret_key k)"
  by (simp add: otpk_require_secret_key_def otpk_ok_def dh_pair_ok_def)

end
