(* ===== verification/Kem.thy ===== *)
theory Kem
  imports Alg Crypto Keys
begin

text \<open>
  \<^verbatim>\<open>kem.rs\<close>: the provider trait and \<^verbatim>\<open>MlKem768\<close> in its three builds (liboqs, pure Rust,
  disabled), and the wrapper of the FIPS build. The two KEM libraries are the record
  \<open>kem_backend\<close>; \<open>backend_ok\<close> states that decapsulation inverts encapsulation and that the sizes
  are the advertised ones. A provider is a record of its trait methods; the operating system's
  random bytes, which the libraries read themselves, are threaded through.
\<close>

record KemKeyPair =
  kp_public_key :: bytes
  kp_secret_key :: SecretBytes

record KemEncapsulation =
  enc_ciphertext :: bytes
  enc_shared_secret :: bytes

record kem_provider =
  kem_keypair :: "rng \<Rightarrow> KemKeyPair result \<times> rng"
  kem_encapsulate :: "bytes \<Rightarrow> rng \<Rightarrow> KemEncapsulation result \<times> rng"
  kem_decapsulate :: "bytes \<Rightarrow> bytes \<Rightarrow> bytes result"

record kem_backend =
  be_available :: "KemAlgorithm \<Rightarrow> bool"
  be_pk_len :: "KemAlgorithm \<Rightarrow> usize"
  be_sk_len :: "KemAlgorithm \<Rightarrow> usize"
  be_ct_len :: "KemAlgorithm \<Rightarrow> usize"
  be_pk_ok :: "KemAlgorithm \<Rightarrow> bytes \<Rightarrow> bool"
  be_sk_ok :: "KemAlgorithm \<Rightarrow> bytes \<Rightarrow> bool"
  be_ct_ok :: "KemAlgorithm \<Rightarrow> bytes \<Rightarrow> bool"
  be_keygen :: "KemAlgorithm \<Rightarrow> rng \<Rightarrow> (bytes \<times> bytes) option \<times> rng"
  be_encaps :: "KemAlgorithm \<Rightarrow> bytes \<Rightarrow> rng \<Rightarrow> (bytes \<times> bytes) option \<times> rng"
  be_decaps :: "KemAlgorithm \<Rightarrow> bytes \<Rightarrow> bytes \<Rightarrow> bytes option"

text \<open>Which of the three \<^verbatim>\<open>cfg\<close> variants of the file is compiled.\<close>

datatype pq_build = OqsBuild | RustBuild | DisabledBuild

definition pq_build_of :: "features \<Rightarrow> pq_build" where
  "pq_build_of ft = (if feat_pq_oqs ft then OqsBuild else if feat_pq_rust ft then RustBuild
     else DisabledBuild)"

definition pq_disabled :: CoreError where
  "pq_disabled = UnsupportedAlgorithm ''PQ backend feature disabled''"

definition to_fixed_array :: "usize \<Rightarrow> string \<Rightarrow> bytes \<Rightarrow> bytes result" where
  "to_fixed_array n fld v =
     (if length v = n then Ok v else Err (InvalidLength fld n (length v)))"

text \<open>The state of a provider is its algorithm; the pure Rust build keeps it but runs ML-KEM-768.\<close>

definition MlKem768_new :: "features \<Rightarrow> kem_backend \<Rightarrow> KemAlgorithm \<Rightarrow> KemAlgorithm result" where
  "MlKem768_new ft be algorithm = (case pq_build_of ft of
       OqsBuild \<Rightarrow>
         if feat_fips ft \<and> algorithm = Kyber768Alias
         then Err (PolicyViolation ''fips: Kyber768Alias not permitted; use MlKem768'')
         else if be_available be algorithm then Ok algorithm else Err KemOperation
     | RustBuild \<Rightarrow>
         if feat_fips ft \<and> algorithm = Kyber768Alias
         then Err (PolicyViolation ''fips: Kyber768Alias not permitted; use MlKem768'')
         else Ok algorithm
     | DisabledBuild \<Rightarrow> Err pq_disabled)"

definition MlKem768_new_preferred :: "features \<Rightarrow> kem_backend \<Rightarrow> KemAlgorithm result" where
  "MlKem768_new_preferred ft be = (case pq_build_of ft of
       OqsBuild \<Rightarrow> (case MlKem768_new ft be KemMlKem768 of
           Inr k \<Rightarrow> Ok k | Inl _ \<Rightarrow> MlKem768_new ft be Kyber768Alias)
     | RustBuild \<Rightarrow> MlKem768_new ft be KemMlKem768
     | DisabledBuild \<Rightarrow> Err pq_disabled)"

definition MlKem768_keypair ::
  "features \<Rightarrow> kem_backend \<Rightarrow> KemAlgorithm \<Rightarrow> rng \<Rightarrow> KemKeyPair result \<times> rng" where
  "MlKem768_keypair ft be alg rng =
     (let run = (\<lambda>a. let (kp, rng) = be_keygen be a rng in
        (and_then (ok_or kp KemOperation)
           (\<lambda>(pk, sk). Ok \<lparr>kp_public_key = pk, kp_secret_key = sk\<rparr>), rng))
      in case pq_build_of ft of
           OqsBuild \<Rightarrow> run alg
         | RustBuild \<Rightarrow> run KemMlKem768
         | DisabledBuild \<Rightarrow> (Err pq_disabled, rng))"

definition MlKem768_validate_public_key ::
  "features \<Rightarrow> kem_backend \<Rightarrow> KemAlgorithm \<Rightarrow> bytes \<Rightarrow> unit result" where
  "MlKem768_validate_public_key ft be alg pk = (case pq_build_of ft of
       OqsBuild \<Rightarrow>
         if \<not> be_pk_ok be alg pk
         then Err (InvalidLength ''kem.public_key'' (be_pk_len be alg) (length pk)) else Ok ()
     | RustBuild \<Rightarrow>
         and_then (to_fixed_array (be_pk_len be KemMlKem768) ''kem.public_key'' pk) (\<lambda>pk.
         if be_pk_ok be KemMlKem768 pk then Ok () else Err KemOperation)
     | DisabledBuild \<Rightarrow> Err pq_disabled)"

definition MlKem768_encapsulate ::
  "features \<Rightarrow> kem_backend \<Rightarrow> KemAlgorithm \<Rightarrow> bytes \<Rightarrow> rng \<Rightarrow> KemEncapsulation result \<times> rng" where
  "MlKem768_encapsulate ft be alg pk rng =
     (let run = (\<lambda>a. let (r, rng) = be_encaps be a pk rng in
        (and_then (ok_or r KemOperation)
           (\<lambda>(ct, ss). Ok \<lparr>enc_ciphertext = ct, enc_shared_secret = ss\<rparr>), rng))
      in case pq_build_of ft of
           OqsBuild \<Rightarrow>
             if \<not> be_pk_ok be alg pk
             then (Err (InvalidLength ''kem.public_key'' (be_pk_len be alg) (length pk)), rng)
             else run alg
         | RustBuild \<Rightarrow>
             (case to_fixed_array (be_pk_len be KemMlKem768) ''kem.public_key'' pk of
                Inl e \<Rightarrow> (Err e, rng)
              | Inr pk \<Rightarrow> if be_pk_ok be KemMlKem768 pk then run KemMlKem768 else (Err KemOperation, rng))
         | DisabledBuild \<Rightarrow> (Err pq_disabled, rng))"

definition MlKem768_decapsulate ::
  "features \<Rightarrow> kem_backend \<Rightarrow> KemAlgorithm \<Rightarrow> bytes \<Rightarrow> bytes \<Rightarrow> bytes result" where
  "MlKem768_decapsulate ft be alg sk ct = (case pq_build_of ft of
       OqsBuild \<Rightarrow>
         if \<not> be_sk_ok be alg sk
         then Err (InvalidLength ''kem.secret_key'' (be_sk_len be alg) (length sk))
         else if \<not> be_ct_ok be alg ct
         then Err (InvalidLength ''kem.ciphertext'' (be_ct_len be alg) (length ct))
         else ok_or (be_decaps be alg sk ct) KemOperation
     | RustBuild \<Rightarrow>
         and_then (to_fixed_array (be_sk_len be KemMlKem768) ''kem.secret_key'' sk) (\<lambda>sk.
         and_then (to_fixed_array (be_ct_len be KemMlKem768) ''kem.ciphertext'' ct) (\<lambda>ct.
         if \<not> be_sk_ok be KemMlKem768 sk then Err KemOperation
         else if \<not> be_ct_ok be KemMlKem768 ct then Err KemOperation
         else ok_or (be_decaps be KemMlKem768 sk ct) KemOperation))
     | DisabledBuild \<Rightarrow> Err pq_disabled)"

definition mlkem_provider :: "features \<Rightarrow> kem_backend \<Rightarrow> KemAlgorithm \<Rightarrow> kem_provider" where
  "mlkem_provider ft be alg =
     \<lparr>kem_keypair = MlKem768_keypair ft be alg,
      kem_encapsulate = MlKem768_encapsulate ft be alg,
      kem_decapsulate = MlKem768_decapsulate ft be alg\<rparr>"

text \<open>The wrapper of the FIPS build.\<close>

definition Fips_new :: "features \<Rightarrow> kem_backend \<Rightarrow> KemAlgorithm result" where
  "Fips_new ft be = MlKem768_new ft be KemMlKem768"

definition Fips_keypair ::
  "features \<Rightarrow> kem_backend \<Rightarrow> KemAlgorithm \<Rightarrow> rng \<Rightarrow> KemKeyPair result \<times> rng" where
  "Fips_keypair ft be inner rng =
     (let (r, rng) = MlKem768_keypair ft be inner rng in
      (and_then r (\<lambda>kp.
       and_then (MlKem768_validate_public_key ft be inner (kp_public_key kp)) (\<lambda>_. Ok kp)), rng))"

definition Fips_encapsulate ::
  "features \<Rightarrow> kem_backend \<Rightarrow> KemAlgorithm \<Rightarrow> bytes \<Rightarrow> rng \<Rightarrow> KemEncapsulation result \<times> rng" where
  "Fips_encapsulate ft be inner pk rng =
     (case MlKem768_validate_public_key ft be inner pk of
        Inl e \<Rightarrow> (Err e, rng)
      | Inr _ \<Rightarrow> MlKem768_encapsulate ft be inner pk rng)"

definition fips_provider :: "features \<Rightarrow> kem_backend \<Rightarrow> KemAlgorithm \<Rightarrow> kem_provider" where
  "fips_provider ft be inner =
     \<lparr>kem_keypair = Fips_keypair ft be inner,
      kem_encapsulate = Fips_encapsulate ft be inner,
      kem_decapsulate = MlKem768_decapsulate ft be inner\<rparr>"

subsection \<open>Correct providers\<close>

definition kem_pair_ok :: "kem_provider \<Rightarrow> bytes \<Rightarrow> bytes \<Rightarrow> bool" where
  "kem_pair_ok k pk sk \<longleftrightarrow> length pk \<le> 65535 \<and> (\<forall>r. \<exists>e r'. kem_encapsulate k pk r = (Ok e, r')
     \<and> length (enc_ciphertext e) \<le> 65535
     \<and> kem_decapsulate k sk (enc_ciphertext e) = Ok (enc_shared_secret e))"

definition kem_ok :: "kem_provider \<Rightarrow> bool" where
  "kem_ok k \<longleftrightarrow> (\<forall>r. \<exists>kp r'. kem_keypair k r = (Ok kp, r')
     \<and> kem_pair_ok k (kp_public_key kp) (kp_secret_key kp))"

definition backend_ok :: "kem_backend \<Rightarrow> KemAlgorithm \<Rightarrow> bool" where
  "backend_ok be a \<longleftrightarrow> be_pk_len be a \<le> 65535 \<and> be_ct_len be a \<le> 65535
     \<and> (\<forall>r. \<exists>pk sk r'. be_keygen be a r = (Some (pk, sk), r')
          \<and> length pk = be_pk_len be a \<and> be_pk_ok be a pk \<and> length sk = be_sk_len be a \<and> be_sk_ok be a sk
          \<and> (\<forall>q. \<exists>ct ss q'. be_encaps be a pk q = (Some (ct, ss), q')
               \<and> length ct = be_ct_len be a \<and> be_ct_ok be a ct \<and> be_decaps be a sk ct = Some ss))"

lemma kem_okD:
  assumes "kem_ok k"
  obtains kp r' where "kem_keypair k r = (Ok kp, r')"
    and "kem_pair_ok k (kp_public_key kp) (kp_secret_key kp)"
  using assms unfolding kem_ok_def by blast

lemma kem_pair_okD:
  assumes "kem_pair_ok k pk sk"
  obtains e r' where "kem_encapsulate k pk r = (Ok e, r')" and "length (enc_ciphertext e) \<le> 65535"
    and "kem_decapsulate k sk (enc_ciphertext e) = Ok (enc_shared_secret e)"
  using assms unfolding kem_pair_ok_def by blast

lemma kem_pair_ok_decaps:
  assumes "kem_pair_ok k pk sk" and "kem_encapsulate k pk r = (Ok e, r')"
  shows "kem_decapsulate k sk (enc_ciphertext e) = Ok (enc_shared_secret e)
    \<and> length (enc_ciphertext e) \<le> 65535"
  using kem_pair_okD [OF assms(1), of r] assms(2) by auto

definition effective_algorithm :: "features \<Rightarrow> KemAlgorithm \<Rightarrow> KemAlgorithm" where
  "effective_algorithm ft a = (if pq_build_of ft = RustBuild then KemMlKem768 else a)"

lemma mlkem_provider_ok:
  assumes "pq_build_of ft \<noteq> DisabledBuild" and "backend_ok be (effective_algorithm ft a)"
  shows "kem_ok (mlkem_provider ft be a)"
  unfolding kem_ok_def
proof
  fix r
  let ?a = "effective_algorithm ft a"
  obtain pk sk r' where kg: "be_keygen be ?a r = (Some (pk, sk), r')"
    and pk: "length pk = be_pk_len be ?a" "be_pk_ok be ?a pk" "be_pk_len be ?a \<le> 65535"
    and sk: "length sk = be_sk_len be ?a" "be_sk_ok be ?a sk"
    and enc: "\<forall>q. \<exists>ct ss q'. be_encaps be ?a pk q = (Some (ct, ss), q')
       \<and> length ct = be_ct_len be ?a \<and> be_ct_ok be ?a ct \<and> be_decaps be ?a sk ct = Some ss"
    and ct: "be_ct_len be ?a \<le> 65535"
    using assms(2) unfolding backend_ok_def by meson
  have gen: "kem_keypair (mlkem_provider ft be a) r
      = (Ok \<lparr>kp_public_key = pk, kp_secret_key = sk\<rparr>, r')"
    using kg assms(1) by (cases "pq_build_of ft")
      (simp_all add: mlkem_provider_def MlKem768_keypair_def effective_algorithm_def)
  have "\<exists>e q'. kem_encapsulate (mlkem_provider ft be a) pk q = (Ok e, q')
      \<and> length (enc_ciphertext e) \<le> 65535
      \<and> kem_decapsulate (mlkem_provider ft be a) sk (enc_ciphertext e) = Ok (enc_shared_secret e)" for q
  proof -
    obtain ct ss q' where "be_encaps be ?a pk q = (Some (ct, ss), q')"
        "length ct = be_ct_len be ?a" "be_ct_ok be ?a ct" "be_decaps be ?a sk ct = Some ss"
      using enc by meson
    with pk sk ct assms(1) show ?thesis
      by (cases "pq_build_of ft")
         (simp_all add: mlkem_provider_def MlKem768_encapsulate_def MlKem768_decapsulate_def
           effective_algorithm_def to_fixed_array_def)
  qed
  then show "\<exists>kp r'. kem_keypair (mlkem_provider ft be a) r = (Ok kp, r')
      \<and> kem_pair_ok (mlkem_provider ft be a) (kp_public_key kp) (kp_secret_key kp)"
    using gen pk by (auto simp: kem_pair_ok_def)
qed

lemma disabled_provider_errors:
  assumes "pq_build_of ft = DisabledBuild"
  shows "fst (kem_keypair (mlkem_provider ft be a) r) = Err pq_disabled"
    and "fst (kem_encapsulate (mlkem_provider ft be a) pk r) = Err pq_disabled"
    and "kem_decapsulate (mlkem_provider ft be a) sk ct = Err pq_disabled"
  using assms by (simp_all add: mlkem_provider_def MlKem768_keypair_def MlKem768_encapsulate_def
      MlKem768_decapsulate_def)

lemma fips_new_never_kyber:
  "feat_fips ft \<Longrightarrow> MlKem768_new_preferred ft be = Ok a \<Longrightarrow> a = KemMlKem768"
  by (auto simp: MlKem768_new_preferred_def MlKem768_new_def
      split: pq_build.splits sum.splits if_splits)

subsection \<open>A concrete backend\<close>

text \<open>
  Key pairs are random 32 byte strings used on both sides; the ciphertext carries the random
  shared secret added to the key.
\<close>

definition toy_backend :: kem_backend where
  "toy_backend = \<lparr>
     be_available = (\<lambda>a. True),
     be_pk_len = (\<lambda>a. 32), be_sk_len = (\<lambda>a. 32), be_ct_len = (\<lambda>a. 32),
     be_pk_ok = (\<lambda>a pk. length pk = 32), be_sk_ok = (\<lambda>a sk. length sk = 32),
     be_ct_ok = (\<lambda>a ct. length ct = 32),
     be_keygen = (\<lambda>a r. (Some (stake 32 r, stake 32 r), sdrop 32 r)),
     be_encaps = (\<lambda>a pk r. (Some (map2 (+) (stake 32 r) pk, stake 32 r), sdrop 32 r)),
     be_decaps = (\<lambda>a sk ct. Some (map2 (-) ct sk))\<rparr>"

definition toy_features :: features where
  "toy_features = \<lparr>feat_pq_oqs = True, feat_pq_rust = False, feat_fips = False,
     feat_classical_only = False\<rparr>"

definition toy_kem :: kem_provider where
  "toy_kem = mlkem_provider toy_features toy_backend KemMlKem768"

lemma map2_add_sub: "length xs = length ys \<Longrightarrow> map2 (-) (map2 (+) xs ys) ys = (xs :: bytes)"
  by (induction xs ys rule: list_induct2) auto

lemma toy_backend_ok [simp]: "backend_ok toy_backend a"
  by (auto simp: backend_ok_def toy_backend_def map2_add_sub)

lemma toy_kem_ok [simp]: "kem_ok toy_kem"
  unfolding toy_kem_def by (rule mlkem_provider_ok) (simp_all add: pq_build_of_def toy_features_def)

lemma toy_kem_pair_ok [simp]: "length k = 32 \<Longrightarrow> kem_pair_ok toy_kem k k"
  by (auto simp: kem_pair_ok_def toy_kem_def mlkem_provider_def MlKem768_encapsulate_def
      MlKem768_decapsulate_def pq_build_of_def toy_features_def toy_backend_def map2_add_sub)

end
