(* ===== verification/Pq_Ratchet.thy ===== *)
theory Pq_Ratchet
  imports Ratchet Kem
begin

text \<open>
  \<^verbatim>\<open>ratchet/pq.rs\<close>: the sparse post-quantum ratchet. The sender encapsulates to the peer's
  current KEM key and announces a fresh key of its own; the receiver finds the secret key the
  ciphertext was made for by the hash of its public key, in a bounded history.
\<close>

definition INFO_PQ_STEP :: bytes where "INFO_PQ_STEP = str_bytes ''pqmsg-ratchet-pq-step''"
definition DEFAULT_PQ_RATCHET_INTERVAL :: u32 where "DEFAULT_PQ_RATCHET_INTERVAL = 1"
definition DEFAULT_PQ_RATCHET_KEY_HISTORY :: usize where "DEFAULT_PQ_RATCHET_KEY_HISTORY = 4"

record PqLocalKeyRecord =
  lk_public_key :: bytes
  lk_secret_key :: SecretBytes

record PqRatchetState =
  pq_interval :: u32
  pq_local_public_key :: bytes
  pq_local_secret_key :: SecretBytes
  pq_remote_public_key :: bytes
  pq_local_key_history :: "PqLocalKeyRecord list"
  pq_max_key_history :: usize
  pq_last_remote_update_msg_num :: u32

record PqStepOutput =
  ps_ciphertext :: bytes
  ps_root_key :: bytes
  ps_target_public_key_hash :: bytes
  ps_next_local_keypair :: KemKeyPair

definition should_step :: "PqRatchetState \<Rightarrow> u32 \<Rightarrow> bool" where
  "should_step s msg_num \<longleftrightarrow> pq_interval s > 0 \<and> (msg_num + 1) mod pq_interval s = 0"

definition hash_public_key :: "crypto \<Rightarrow> bytes \<Rightarrow> bytes" where
  "hash_public_key c pk = sha256 c pk"

definition local_public_key_hash :: "crypto \<Rightarrow> PqRatchetState \<Rightarrow> bytes" where
  "local_public_key_hash c s = hash_public_key c (pq_local_public_key s)"

fun pop_while_longer :: "usize \<Rightarrow> 'a list \<Rightarrow> 'a list" where
  "pop_while_longer n xs = (if length xs > n then pop_while_longer n (butlast xs) else xs)"

declare pop_while_longer.simps [simp del]

definition commit_local_key_rotation :: "KemKeyPair \<Rightarrow> PqRatchetState \<Rightarrow> PqRatchetState" where
  "commit_local_key_rotation next_kp s =
     (let record = \<lparr>lk_public_key = pq_local_public_key s, lk_secret_key = pq_local_secret_key s\<rparr>
      in s\<lparr>pq_local_key_history := pop_while_longer (pq_max_key_history s) (record # pq_local_key_history s),
           pq_local_public_key := kp_public_key next_kp,
           pq_local_secret_key := kp_secret_key next_kp\<rparr>)"

definition apply_remote_public_key_update :: "bytes \<Rightarrow> u32 \<Rightarrow> PqRatchetState \<Rightarrow> PqRatchetState" where
  "apply_remote_public_key_update next_pk msg_num s =
     (if msg_num \<ge> pq_last_remote_update_msg_num s
      then s\<lparr>pq_remote_public_key := next_pk, pq_last_remote_update_msg_num := msg_num\<rparr> else s)"

definition reset_remote_update_tracking :: "PqRatchetState \<Rightarrow> PqRatchetState" where
  "reset_remote_update_tracking s = s\<lparr>pq_last_remote_update_msg_num := 0\<rparr>"

fun find_history :: "crypto \<Rightarrow> bytes \<Rightarrow> PqLocalKeyRecord list \<Rightarrow> bytes result" where
  "find_history c h [] = Err (MessageParsing ''pq ratchet target key unavailable'')"
| "find_history c h (r # rs) =
     (if hash_public_key c (lk_public_key r) = h then Ok (lk_secret_key r) else find_history c h rs)"

definition select_local_secret_key :: "crypto \<Rightarrow> PqRatchetState \<Rightarrow> bytes option \<Rightarrow> bytes result" where
  "select_local_secret_key c s target = (case target of
       None \<Rightarrow> Ok (pq_local_secret_key s)
     | Some h \<Rightarrow> if local_public_key_hash c s = h then Ok (pq_local_secret_key s)
         else find_history c h (pq_local_key_history s))"

definition mix_root_with_pq :: "crypto \<Rightarrow> bytes \<Rightarrow> bytes \<Rightarrow> bytes result" where
  "mix_root_with_pq c root_key ss_pq = hkdf_sha256_32 c ss_pq (Some root_key) INFO_PQ_STEP"

definition sender_step ::
  "crypto \<Rightarrow> PqRatchetState \<Rightarrow> kem_provider \<Rightarrow> bytes \<Rightarrow> u32 \<Rightarrow> rng \<Rightarrow> PqStepOutput option result \<times> rng" where
  "sender_step c s kem root_key msg_num rng =
     (if \<not> should_step s msg_num then (Ok None, rng)
      else case kem_encapsulate kem (pq_remote_public_key s) rng of
        (Inl e, rng) \<Rightarrow> (Err e, rng)
      | (Inr enc, rng) \<Rightarrow>
          (case mix_root_with_pq c root_key (enc_shared_secret enc) of
             Inl e \<Rightarrow> (Err e, rng)
           | Inr next_root \<Rightarrow>
               (case kem_keypair kem rng of
                  (Inl e, rng) \<Rightarrow> (Err e, rng)
                | (Inr kp, rng) \<Rightarrow>
                    (Ok (Some \<lparr>ps_ciphertext = enc_ciphertext enc, ps_root_key = next_root,
                       ps_target_public_key_hash = hash_public_key c (pq_remote_public_key s),
                       ps_next_local_keypair = kp\<rparr>), rng))))"

definition receiver_step ::
  "crypto \<Rightarrow> PqRatchetState \<Rightarrow> kem_provider \<Rightarrow> bytes \<Rightarrow> bytes \<Rightarrow> bytes option \<Rightarrow> bytes option \<Rightarrow> u32
     \<Rightarrow> bytes result \<times> PqRatchetState" where
  "receiver_step c s kem root_key ciphertext target_hash next_remote msg_num =
     (case and_then (select_local_secret_key c s target_hash) (\<lambda>secret_key.
           and_then (kem_decapsulate kem secret_key ciphertext) (\<lambda>ss_pq.
           mix_root_with_pq c root_key ss_pq)) of
        Inl e \<Rightarrow> (Err e, s)
      | Inr next_root \<Rightarrow>
          (Ok next_root, case next_remote of
             Some pk \<Rightarrow> apply_remote_public_key_update pk msg_num s | None \<Rightarrow> s))"

subsection \<open>Lemmas\<close>

lemma pop_while_longer_take: "pop_while_longer n xs = take n xs"
proof (induction n xs rule: pop_while_longer.induct)
  case (1 n xs)
  show ?case
  proof (cases "length xs > n")
    case True
    then have "take n (butlast xs) = take n xs" by (simp add: butlast_conv_take)
    with 1 True show ?thesis by (simp add: pop_while_longer.simps [of n xs])
  qed (simp add: pop_while_longer.simps [of n xs])
qed

lemma should_step_every_message: "pq_interval s = 1 \<Longrightarrow> should_step s n"
  by (simp add: should_step_def)

text \<open>
  The key a peer encapsulated to stays available for as many local rotations as the history
  holds: after \<open>n\<close> rotations with \<open>n \<le> max_key_history\<close> the secret key of the public key that was
  current before is still selected by its hash, provided the newer keys have other hashes.
\<close>

lemma find_history_append:
  "h \<notin> hash_public_key c ` lk_public_key ` set xs \<Longrightarrow>
   find_history c h (xs @ r # ys) = find_history c h (r # ys)"
  by (induction xs) auto

definition rotate_all :: "KemKeyPair list \<Rightarrow> PqRatchetState \<Rightarrow> PqRatchetState" where
  "rotate_all kps s = foldl (\<lambda>s kp. commit_local_key_rotation kp s) s kps"

definition current_record :: "PqRatchetState \<Rightarrow> PqLocalKeyRecord" where
  "current_record s = \<lparr>lk_public_key = pq_local_public_key s, lk_secret_key = pq_local_secret_key s\<rparr>"

definition kp_record :: "KemKeyPair \<Rightarrow> PqLocalKeyRecord" where
  "kp_record kp = \<lparr>lk_public_key = kp_public_key kp, lk_secret_key = kp_secret_key kp\<rparr>"

lemma rotate_all_snoc: "rotate_all (kps @ [kp]) s = commit_local_key_rotation kp (rotate_all kps s)"
  by (simp add: rotate_all_def)

text \<open>All keys of the state, newest first: the current one, then the history.\<close>

definition key_line :: "PqRatchetState \<Rightarrow> PqLocalKeyRecord list" where
  "key_line s = current_record s # pq_local_key_history s"

lemma commit_max [simp]: "pq_max_key_history (commit_local_key_rotation kp s) = pq_max_key_history s"
  by (simp add: commit_local_key_rotation_def Let_def)

lemma rotate_max [simp]: "pq_max_key_history (rotate_all kps s) = pq_max_key_history s"
  by (induction kps rule: rev_induct) (simp_all add: rotate_all_snoc rotate_all_def)

lemma commit_key_line:
  "key_line (commit_local_key_rotation kp s) = take (Suc (pq_max_key_history s)) (kp_record kp # key_line s)"
  by (simp add: key_line_def commit_local_key_rotation_def Let_def current_record_def kp_record_def
      pop_while_longer_take)

lemma rotate_key_line:
  "kps \<noteq> [] \<Longrightarrow> key_line (rotate_all kps s)
     = take (Suc (pq_max_key_history s)) (map kp_record (rev kps) @ key_line s)"
proof (induction kps rule: rev_induct)
  case (snoc kp kps)
  show ?case
  proof (cases "kps = []")
    case True
    then show ?thesis by (simp add: rotate_all_def commit_key_line)
  next
    case False
    with snoc show ?thesis by (simp add: rotate_all_snoc commit_key_line take_Cons' min_def)
  qed
qed simp

lemma select_key_line:
  "select_local_secret_key c s (Some h) = find_history c h (key_line s)"
  by (simp add: select_local_secret_key_def key_line_def local_public_key_hash_def current_record_def)

lemma select_after_rotations:
  assumes "length kps \<le> pq_max_key_history s"
    and "h = hash_public_key c (pq_local_public_key s)"
    and "h \<notin> hash_public_key c ` kp_public_key ` set kps"
  shows "select_local_secret_key c (rotate_all kps s) (Some h) = Ok (pq_local_secret_key s)"
proof (cases "kps = []")
  case True
  then show ?thesis using assms by (simp add: rotate_all_def select_local_secret_key_def local_public_key_hash_def)
next
  case False
  have "key_line (rotate_all kps s) = map kp_record (rev kps) @ take (Suc (pq_max_key_history s) - length kps) (key_line s)"
    using rotate_key_line [OF False, of s] assms(1) by simp
  also have "\<dots> = map kp_record (rev kps) @ current_record s # take (pq_max_key_history s - length kps) (pq_local_key_history s)"
    using assms(1) by (simp add: key_line_def Suc_diff_le)
  moreover have "h \<notin> hash_public_key c ` lk_public_key ` set (map kp_record (rev kps))"
    using assms(3) by (auto simp: kp_record_def)
  ultimately show ?thesis
    using assms(2) by (simp add: select_key_line find_history_append current_record_def)
qed

lemma history_bounded:
  "length (pq_local_key_history (commit_local_key_rotation kp s)) \<le> pq_max_key_history s"
  by (simp add: commit_local_key_rotation_def Let_def pop_while_longer_take)

subsection \<open>Agreement of the two halves of a step\<close>

text \<open>
  If the receiver still holds the secret key for the public key the sender encapsulated to, both
  compute the same next root key and the receiver adopts the sender's new public key.
\<close>

lemma pq_step_agreement:
  assumes "sender_step c a kem rk n r = (Ok (Some out), r')"
    and "select_local_secret_key c b (Some (hash_public_key c (pq_remote_public_key a))) = Ok sk"
    and "kem_pair_ok kem (pq_remote_public_key a) sk"
    and "pq_last_remote_update_msg_num b \<le> n"
  shows "receiver_step c b kem rk (ps_ciphertext out) (Some (ps_target_public_key_hash out))
           (Some (kp_public_key (ps_next_local_keypair out))) n
     = (Ok (ps_root_key out),
        b\<lparr>pq_remote_public_key := kp_public_key (ps_next_local_keypair out),
          pq_last_remote_update_msg_num := n\<rparr>)"
proof -
  from assms(1) obtain enc r1 r2 kp where
      enc: "kem_encapsulate kem (pq_remote_public_key a) r = (Ok enc, r1)"
      and root: "mix_root_with_pq c rk (enc_shared_secret enc) = Ok (ps_root_key out)"
      and out: "ps_ciphertext out = enc_ciphertext enc"
        "ps_target_public_key_hash out = hash_public_key c (pq_remote_public_key a)"
    by (auto simp: sender_step_def split: if_splits prod.splits sum.splits)
  from kem_pair_ok_decaps [OF assms(3) enc] root out assms(2,4) show ?thesis
    by (simp add: receiver_step_def apply_remote_public_key_update_def)
qed

lemma receiver_step_Err: "receiver_step c b kem rk ct h n m = (Err e, b') \<Longrightarrow> b' = b"
  by (auto simp: receiver_step_def split: sum.splits)

lemma sender_step_succeeds:
  assumes "kem_ok kem" "hkdf_ok c" "kem_pair_ok kem (pq_remote_public_key s) sk"
  shows "\<exists>o' r'. sender_step c s kem rk n r = (Ok o', r') \<and> (o' \<noteq> None \<longleftrightarrow> should_step s n)"
proof (cases "should_step s n")
  case True
  obtain enc r1 where "kem_encapsulate kem (pq_remote_public_key s) r = (Ok enc, r1)"
    using kem_pair_okD [OF assms(3)] by metis
  moreover obtain k where "mix_root_with_pq c rk (enc_shared_secret enc) = Ok k"
    unfolding mix_root_with_pq_def using hkdf_sha256_32_Ok [OF assms(2)] by metis
  moreover obtain kp r2 where "kem_keypair kem r1 = (Ok kp, r2)" using kem_okD [OF assms(1)] by metis
  ultimately show ?thesis using True by (simp add: sender_step_def)
qed (simp add: sender_step_def)

end
