(* ===== verification/Session.thy ===== *)
theory Session
  imports Wire Ratchet Pq_Ratchet
begin

text \<open>
  \<^verbatim>\<open>session.rs\<close>: the double ratchet session. \<open>SessionState\<close> is the Rust structure field by
  field; \<open>session_encrypt\<close> and \<open>session_decrypt\<close> take the state and the random bytes of the
  operating system and return the result beside the state they leave behind, so the changes a
  failing call has already made stay visible. The stages of the two functions are separate
  definitions in the order of the source. The snapshot functions are here as well.
\<close>

definition INFO_INITIATOR_SEND :: bytes where
  "INFO_INITIATOR_SEND = str_bytes ''pqmsg-session-initiator-send''"
definition INFO_INITIATOR_RECV :: bytes where
  "INFO_INITIATOR_RECV = str_bytes ''pqmsg-session-initiator-recv''"
definition INFO_INITIATOR_SEND_HK :: bytes where
  "INFO_INITIATOR_SEND_HK = str_bytes ''pqmsg-session-initiator-send-hk''"
definition INFO_INITIATOR_RECV_HK :: bytes where
  "INFO_INITIATOR_RECV_HK = str_bytes ''pqmsg-session-initiator-recv-hk''"

definition S_AD_TAG_PROTOCOL_VERSION :: u16 where "S_AD_TAG_PROTOCOL_VERSION = critical_type 0x1101"
definition S_AD_TAG_SUITE_ID :: u16 where "S_AD_TAG_SUITE_ID = critical_type 0x1102"
definition S_AD_TAG_EXTERNAL_AD :: u16 where "S_AD_TAG_EXTERNAL_AD = critical_type 0x1103"
definition S_AD_TAG_SENDER_DH_PUB :: u16 where "S_AD_TAG_SENDER_DH_PUB = critical_type 0x1104"
definition S_AD_TAG_MSG_NUM :: u16 where "S_AD_TAG_MSG_NUM = critical_type 0x1105"
definition S_AD_TAG_PREV_CHAIN_LEN :: u16 where "S_AD_TAG_PREV_CHAIN_LEN = critical_type 0x1106"
definition S_AD_TAG_PQ_STEP_CT :: u16 where "S_AD_TAG_PQ_STEP_CT = critical_type 0x1107"
definition S_AD_TAG_PQ_TARGET_PUB_HASH :: u16 where "S_AD_TAG_PQ_TARGET_PUB_HASH = critical_type 0x1108"
definition S_AD_TAG_PQ_NEXT_PUB :: u16 where "S_AD_TAG_PQ_NEXT_PUB = critical_type 0x1109"

lemma session_tags [tag_simps]:
  "S_AD_TAG_PROTOCOL_VERSION = 0x9101" "S_AD_TAG_SUITE_ID = 0x9102" "S_AD_TAG_EXTERNAL_AD = 0x9103"
  "S_AD_TAG_SENDER_DH_PUB = 0x9104" "S_AD_TAG_MSG_NUM = 0x9105" "S_AD_TAG_PREV_CHAIN_LEN = 0x9106"
  "S_AD_TAG_PQ_STEP_CT = 0x9107" "S_AD_TAG_PQ_TARGET_PUB_HASH = 0x9108" "S_AD_TAG_PQ_NEXT_PUB = 0x9109"
  by (simp_all add: S_AD_TAG_PROTOCOL_VERSION_def S_AD_TAG_SUITE_ID_def S_AD_TAG_EXTERNAL_AD_def
      S_AD_TAG_SENDER_DH_PUB_def S_AD_TAG_MSG_NUM_def S_AD_TAG_PREV_CHAIN_LEN_def
      S_AD_TAG_PQ_STEP_CT_def S_AD_TAG_PQ_TARGET_PUB_HASH_def S_AD_TAG_PQ_NEXT_PUB_def
      critical_type_def CRITICAL_BIT_def)

datatype SessionRole = Initiator | Responder

record SessionState =
  st_version :: u16
  st_suite_id :: u16
  st_negotiated_wire_version :: u16
  st_root_key :: bytes
  st_sending_chain :: ChainState
  st_receiving_chain :: ChainState
  st_local_dh :: DhKeyPair
  st_remote_dh_pub :: bytes
  st_prev_chain_len :: u32
  st_skipped :: SkippedMessageKeys
  st_pq_state :: "PqRatchetState option"
  st_pq_kem :: "kem_provider option"
  st_sending_header_key :: "bytes option"
  st_receiving_header_key :: "bytes option"
  st_prev_receiving_header_key :: "bytes option"

subsection \<open>Construction\<close>

fun chain_infos :: "SessionRole \<Rightarrow> bytes \<times> bytes" where
  "chain_infos Initiator = (INFO_INITIATOR_SEND, INFO_INITIATOR_RECV)"
| "chain_infos Responder = (INFO_INITIATOR_RECV, INFO_INITIATOR_SEND)"

fun header_infos :: "SessionRole \<Rightarrow> bytes \<times> bytes" where
  "header_infos Initiator = (INFO_INITIATOR_SEND_HK, INFO_INITIATOR_RECV_HK)"
| "header_infos Responder = (INFO_INITIATOR_RECV_HK, INFO_INITIATOR_SEND_HK)"

definition from_handshake_with_suite_and_wire_version ::
  "crypto \<Rightarrow> SessionRole \<Rightarrow> bytes \<Rightarrow> DhKeyPair \<Rightarrow> bytes \<Rightarrow> u16 \<Rightarrow> u16 \<Rightarrow> usize \<Rightarrow> SessionState result" where
  "from_handshake_with_suite_and_wire_version c role handshake_root_key local_dh remote_dh_pub
       sid wire_version max_skipped =
     and_then (hkdf_sha256_32 c handshake_root_key None (fst (chain_infos role))) (\<lambda>sending_chain_key.
     and_then (hkdf_sha256_32 c handshake_root_key None (snd (chain_infos role))) (\<lambda>receiving_chain_key.
     and_then
       (if wire_version \<ge> WIRE_VERSION_V2 then
          and_then (hkdf_sha256_32 c handshake_root_key None (fst (header_infos role))) (\<lambda>send_hk.
          and_then (hkdf_sha256_32 c handshake_root_key None (snd (header_infos role))) (\<lambda>recv_hk.
          Ok (Some send_hk, Some recv_hk)))
        else Ok (None, None)) (\<lambda>(sending_header_key, receiving_header_key).
     Ok \<lparr>st_version = WIRE_VERSION, st_suite_id = sid,
         st_negotiated_wire_version = wire_version, st_root_key = handshake_root_key,
         st_sending_chain = chain_new sending_chain_key,
         st_receiving_chain = chain_new receiving_chain_key,
         st_local_dh = local_dh, st_remote_dh_pub = remote_dh_pub, st_prev_chain_len = 0,
         st_skipped = sm_new max_skipped, st_pq_state = None, st_pq_kem = None,
         st_sending_header_key = sending_header_key,
         st_receiving_header_key = receiving_header_key,
         st_prev_receiving_header_key = None\<rparr>)))"

definition from_handshake_with_suite ::
  "crypto \<Rightarrow> SessionRole \<Rightarrow> bytes \<Rightarrow> DhKeyPair \<Rightarrow> bytes \<Rightarrow> u16 \<Rightarrow> usize \<Rightarrow> SessionState result" where
  "from_handshake_with_suite c role rk local_dh remote_dh_pub sid max_skipped =
     from_handshake_with_suite_and_wire_version c role rk local_dh remote_dh_pub sid WIRE_VERSION
       max_skipped"

definition from_handshake ::
  "crypto \<Rightarrow> SessionRole \<Rightarrow> bytes \<Rightarrow> DhKeyPair \<Rightarrow> bytes \<Rightarrow> usize \<Rightarrow> SessionState result" where
  "from_handshake c role rk local_dh remote_dh_pub max_skipped =
     from_handshake_with_suite c role rk local_dh remote_dh_pub DEFAULT_SUITE_ID max_skipped"

definition enable_pq_ratchet :: "PqRatchetState \<Rightarrow> kem_provider \<Rightarrow> SessionState \<Rightarrow> SessionState" where
  "enable_pq_ratchet state kem s = s\<lparr>st_pq_state := Some state, st_pq_kem := Some kem\<rparr>"

definition from_handshake_with_suite_and_wire_version_with_pq_ratchet ::
  "crypto \<Rightarrow> SessionRole \<Rightarrow> bytes \<Rightarrow> DhKeyPair \<Rightarrow> bytes \<Rightarrow> u16 \<Rightarrow> u16 \<Rightarrow> usize \<Rightarrow> PqRatchetState
     \<Rightarrow> kem_provider \<Rightarrow> SessionState result" where
  "from_handshake_with_suite_and_wire_version_with_pq_ratchet c role rk local_dh remote_dh_pub sid
       wire_version max_skipped pq_ratchet pq_kem =
     and_then (from_handshake_with_suite_and_wire_version c role rk local_dh remote_dh_pub sid
                 wire_version max_skipped) (\<lambda>session.
     Ok (enable_pq_ratchet pq_ratchet pq_kem session))"

definition from_handshake_with_suite_with_pq_ratchet ::
  "crypto \<Rightarrow> SessionRole \<Rightarrow> bytes \<Rightarrow> DhKeyPair \<Rightarrow> bytes \<Rightarrow> u16 \<Rightarrow> usize \<Rightarrow> PqRatchetState
     \<Rightarrow> kem_provider \<Rightarrow> SessionState result" where
  "from_handshake_with_suite_with_pq_ratchet c role rk local_dh remote_dh_pub sid max_skipped
       pq_ratchet pq_kem =
     from_handshake_with_suite_and_wire_version_with_pq_ratchet c role rk local_dh remote_dh_pub sid
       WIRE_VERSION max_skipped pq_ratchet pq_kem"

definition pq_ratchet_enabled :: "SessionState \<Rightarrow> bool" where
  "pq_ratchet_enabled s \<longleftrightarrow> st_pq_state s \<noteq> None \<and> st_pq_kem s \<noteq> None"

definition pq_ratchet_interval :: "SessionState \<Rightarrow> u32 option" where
  "pq_ratchet_interval s = map_option pq_interval (st_pq_state s)"

subsection \<open>Associated data\<close>

record PqFields =
  pf_step_ct :: "bytes option"
  pf_target_pub_hash :: "bytes option"
  pf_next_public_key :: "bytes option"

definition session_ad_records ::
  "u16 \<Rightarrow> u16 \<Rightarrow> bytes \<Rightarrow> u32 \<Rightarrow> u32 \<Rightarrow> PqFields \<Rightarrow> bytes \<Rightarrow> TlvRecord list" where
  "session_ad_records version sid sender_dh_pub msg_num prev_chain_len pq external_ad =
     [tlv S_AD_TAG_PROTOCOL_VERSION (u16_to_be_bytes version),
      tlv S_AD_TAG_SUITE_ID (u16_to_be_bytes sid),
      tlv S_AD_TAG_SENDER_DH_PUB sender_dh_pub,
      tlv S_AD_TAG_MSG_NUM (u32_to_be_bytes msg_num),
      tlv S_AD_TAG_PREV_CHAIN_LEN (u32_to_be_bytes prev_chain_len),
      tlv S_AD_TAG_EXTERNAL_AD external_ad]
     @ push_opt S_AD_TAG_PQ_STEP_CT (pf_step_ct pq)
     @ push_opt S_AD_TAG_PQ_TARGET_PUB_HASH (pf_target_pub_hash pq)
     @ push_opt S_AD_TAG_PQ_NEXT_PUB (pf_next_public_key pq)"

definition session_associated_data ::
  "u16 \<Rightarrow> u16 \<Rightarrow> bytes \<Rightarrow> u32 \<Rightarrow> u32 \<Rightarrow> PqFields \<Rightarrow> bytes \<Rightarrow> bytes result" where
  "session_associated_data version sid sender_dh_pub msg_num prev_chain_len pq external_ad =
     encode (session_ad_records version sid sender_dh_pub msg_num prev_chain_len pq external_ad)"

subsection \<open>Encryption\<close>

definition no_pq :: PqFields where
  "no_pq = \<lparr>pf_step_ct = None, pf_target_pub_hash = None, pf_next_public_key = None\<rparr>"

definition encrypt_pq_step ::
  "crypto \<Rightarrow> SessionState \<Rightarrow> u32 \<Rightarrow> rng \<Rightarrow> PqFields result \<times> SessionState \<times> rng" where
  "encrypt_pq_step c s msg_num rng = (case (st_pq_state s, st_pq_kem s) of
       (Some state, Some kem) \<Rightarrow>
         (case sender_step c state kem (st_root_key s) msg_num rng of
            (Inl e, rng) \<Rightarrow> (Err e, s, rng)
          | (Inr None, rng) \<Rightarrow> (Ok no_pq, s, rng)
          | (Inr (Some step), rng) \<Rightarrow>
              (Ok \<lparr>pf_step_ct = Some (ps_ciphertext step),
                   pf_target_pub_hash = Some (ps_target_public_key_hash step),
                   pf_next_public_key = Some (kp_public_key (ps_next_local_keypair step))\<rparr>,
               s\<lparr>st_root_key := ps_root_key step,
                 st_pq_state := Some (commit_local_key_rotation (ps_next_local_keypair step) state)\<rparr>,
               rng))
     | _ \<Rightarrow> (Ok no_pq, s, rng))"

definition frame_v2 ::
  "crypto \<Rightarrow> SessionState \<Rightarrow> u32 \<Rightarrow> PqFields \<Rightarrow> CiphertextEnvelope \<Rightarrow> bytes result" where
  "frame_v2 c s msg_num pq envelope =
     and_then (hp_encode \<lparr>hp_sender_dh_pub = dh_public (st_local_dh s), hp_msg_num = msg_num,
        hp_prev_chain_len = st_prev_chain_len s, hp_pq_step_ct = pf_step_ct pq,
        hp_pq_target_pub_hash = pf_target_pub_hash pq,
        hp_pq_next_public_key = pf_next_public_key pq\<rparr>) (\<lambda>header_bytes.
     let header_bytes = (case st_sending_header_key s of
           Some hk \<Rightarrow> encrypt_header c hk header_bytes | None \<Rightarrow> header_bytes)
     in w2_encode \<lparr>w2_version = WIRE_VERSION_V2, w2_suite_id = st_suite_id s,
          w2_encrypted_header = header_bytes, w2_aead_nonce = env_nonce envelope,
          w2_ciphertext = env_ciphertext envelope\<rparr>)"

definition frame_v1 :: "SessionState \<Rightarrow> u32 \<Rightarrow> PqFields \<Rightarrow> CiphertextEnvelope \<Rightarrow> bytes result" where
  "frame_v1 s msg_num pq envelope =
     wm_encode \<lparr>wm_version = st_version s, wm_suite_id = st_suite_id s,
       wm_sender_dh_pub = dh_public (st_local_dh s), wm_msg_num = msg_num,
       wm_prev_chain_len = st_prev_chain_len s, wm_pq_step_ct = pf_step_ct pq,
       wm_pq_target_pub_hash = pf_target_pub_hash pq,
       wm_pq_next_public_key = pf_next_public_key pq,
       wm_aead_nonce = env_nonce envelope, wm_ciphertext = env_ciphertext envelope\<rparr>"

definition pad_for_wire :: "SessionState \<Rightarrow> bytes \<Rightarrow> bytes" where
  "pad_for_wire s message =
     (if st_negotiated_wire_version s \<ge> WIRE_VERSION_V2
      then the (pad_plaintext message PADDING_BLOCK_SIZE) else message)"

definition session_encrypt ::
  "crypto \<Rightarrow> bytes \<Rightarrow> bytes \<Rightarrow> SessionState \<Rightarrow> rng \<Rightarrow> bytes result \<times> SessionState \<times> rng" where
  "session_encrypt c message ad s rng =
     (case next_message_key c (st_sending_chain s) of
        (Inl e, chain) \<Rightarrow> (Err e, s\<lparr>st_sending_chain := chain\<rparr>, rng)
      | (Inr (msg_num, message_key), chain) \<Rightarrow>
     (case encrypt_pq_step c (s\<lparr>st_sending_chain := chain\<rparr>) msg_num rng of
        (Inl e, s, rng) \<Rightarrow> (Err e, s, rng)
      | (Inr pq, s, rng) \<Rightarrow>
     (case session_associated_data (st_version s) (st_suite_id s) (dh_public (st_local_dh s)) msg_num
             (st_prev_chain_len s) pq ad of
        Inl e \<Rightarrow> (Err e, s, rng)
      | Inr associated_data \<Rightarrow>
     (case encrypt_with_rng c message_key (pad_for_wire s message) associated_data rng of
        (Inl e, rng) \<Rightarrow> (Err e, s, rng)
      | (Inr envelope, rng) \<Rightarrow>
          (if st_negotiated_wire_version s \<ge> WIRE_VERSION_V2 then frame_v2 c s msg_num pq envelope
           else frame_v1 s msg_num pq envelope, s, rng)))))"

subsection \<open>Decryption\<close>

definition decrypt_v2_header :: "crypto \<Rightarrow> SessionState \<Rightarrow> bytes \<Rightarrow> HeaderPlaintext result" where
  "decrypt_v2_header c s encrypted_header =
     (case (case st_receiving_header_key s of
              Some hk \<Rightarrow> try_decrypt_header c hk encrypted_header | None \<Rightarrow> None) of
        Some header \<Rightarrow> Ok header
      | None \<Rightarrow>
     (case (case st_prev_receiving_header_key s of
              Some hk \<Rightarrow> try_decrypt_header c hk encrypted_header | None \<Rightarrow> None) of
        Some header \<Rightarrow> Ok header
      | None \<Rightarrow> hp_decode encrypted_header))"

record MessageFields =
  mf_wire_version :: u16
  mf_suite_id :: u16
  mf_sender_dh_pub :: bytes
  mf_msg_num :: u32
  mf_prev_chain_len :: u32
  mf_pq :: PqFields
  mf_aead_nonce :: bytes
  mf_ciphertext :: bytes

fun message_fields :: "crypto \<Rightarrow> SessionState \<Rightarrow> DecodedWireMessage \<Rightarrow> MessageFields result" where
  "message_fields c s (V1 wire) =
     Ok \<lparr>mf_wire_version = wm_version wire, mf_suite_id = wm_suite_id wire,
         mf_sender_dh_pub = wm_sender_dh_pub wire, mf_msg_num = wm_msg_num wire,
         mf_prev_chain_len = wm_prev_chain_len wire,
         mf_pq = \<lparr>pf_step_ct = wm_pq_step_ct wire, pf_target_pub_hash = wm_pq_target_pub_hash wire,
                  pf_next_public_key = wm_pq_next_public_key wire\<rparr>,
         mf_aead_nonce = wm_aead_nonce wire, mf_ciphertext = wm_ciphertext wire\<rparr>"
| "message_fields c s (V2 wire) =
     and_then (decrypt_v2_header c s (w2_encrypted_header wire)) (\<lambda>header.
     Ok \<lparr>mf_wire_version = WIRE_VERSION, mf_suite_id = w2_suite_id wire,
         mf_sender_dh_pub = hp_sender_dh_pub header, mf_msg_num = hp_msg_num header,
         mf_prev_chain_len = hp_prev_chain_len header,
         mf_pq = \<lparr>pf_step_ct = hp_pq_step_ct header, pf_target_pub_hash = hp_pq_target_pub_hash header,
                  pf_next_public_key = hp_pq_next_public_key header\<rparr>,
         mf_aead_nonce = w2_aead_nonce wire, mf_ciphertext = w2_ciphertext wire\<rparr>)"

lemma unat_plus_one: "(x :: u32) < y \<Longrightarrow> unat (x + 1) = unat x + 1"
proof -
  assume "x < y"
  then have "unat x + 1 < 2 ^ 32"
    using unsigned_less [where ?'a = nat, of y] by (simp add: word_less_nat_alt)
  then show ?thesis by (simp add: unat_word_ariths)
qed

text \<open>\<^verbatim>\<open>skip_until\<close> touches the receiving chain and the cache only; the loop works on these two.\<close>

function skip_loop ::
  "crypto \<Rightarrow> bytes \<Rightarrow> u32 \<Rightarrow> ChainState \<Rightarrow> SkippedMessageKeys \<Rightarrow> unit result \<times> ChainState \<times> SkippedMessageKeys"
where
  "skip_loop c dh_pub until_msg_num chain cache =
     (if next_msg_num chain < until_msg_num then
        case next_message_key c chain of
          (Inl e, chain) \<Rightarrow> (Err e, chain, cache)
        | (Inr (msg_num, key), chain) \<Rightarrow>
            skip_loop c dh_pub until_msg_num chain
              (sm_insert \<lparr>sk_dh_pub = dh_pub, sk_msg_num = msg_num\<rparr> key cache)
      else (Ok (), chain, cache))"
  by pat_completeness auto
termination
proof (relation "measure (\<lambda>(c, d, until_num, chain, cache). unat until_num - unat (next_msg_num chain))")
  fix c until_num and chain chain' :: ChainState and n :: u32 and key :: bytes
    and r :: "(u32 \<times> bytes) result" and p :: "u32 \<times> bytes" and cache :: SkippedMessageKeys and dh_pub :: bytes
  assume lt: "next_msg_num chain < until_num" and "(r, chain') = next_message_key c chain"
    and "r = Inr p" and "(n, key) = p"
  then have "next_message_key c chain = (Ok (n, key), chain')" by simp
  then have n: "next_msg_num chain' = next_msg_num chain + 1" using next_message_key_Ok by metis
  have "unat (next_msg_num chain + 1) = unat (next_msg_num chain) + 1"
    using lt by (rule unat_plus_one)
  with lt n have "unat until_num - unat (next_msg_num chain') < unat until_num - unat (next_msg_num chain)"
    by (simp add: word_less_nat_alt)
  then show "((c, dh_pub, until_num, chain', sm_insert \<lparr>sk_dh_pub = dh_pub, sk_msg_num = n\<rparr> key cache),
      c, dh_pub, until_num, chain, cache)
      \<in> measure (\<lambda>(c, d, until_num, chain, cache). unat until_num - unat (next_msg_num chain))"
    by simp
qed simp

declare skip_loop.simps [simp del]

definition skip_until :: "crypto \<Rightarrow> bytes \<Rightarrow> u32 \<Rightarrow> SessionState \<Rightarrow> unit result \<times> SessionState" where
  "skip_until c dh_pub until_msg_num s =
     (case skip_loop c dh_pub until_msg_num (st_receiving_chain s) (st_skipped s) of
        (r, chain, cache) \<Rightarrow> (r, s\<lparr>st_receiving_chain := chain, st_skipped := cache\<rparr>))"

definition ratchet_receive ::
  "RootStepOutput \<Rightarrow> bytes \<Rightarrow> SessionState \<Rightarrow> SessionState" where
  "ratchet_receive recv_step new_remote_dh_pub s =
     s\<lparr>st_root_key := rs_root_key recv_step,
       st_receiving_chain := chain_reset (rs_chain_key recv_step) (st_receiving_chain s),
       st_prev_receiving_header_key := st_receiving_header_key s,
       st_receiving_header_key := Some (rs_header_key recv_step),
       st_prev_chain_len := next_msg_num (st_sending_chain s),
       st_remote_dh_pub := new_remote_dh_pub,
       st_pq_state := map_option reset_remote_update_tracking (st_pq_state s)\<rparr>"

definition ratchet_send :: "RootStepOutput \<Rightarrow> SessionState \<Rightarrow> SessionState" where
  "ratchet_send send_step s =
     s\<lparr>st_root_key := rs_root_key send_step,
       st_sending_chain := chain_reset (rs_chain_key send_step) (st_sending_chain s),
       st_sending_header_key := Some (rs_header_key send_step)\<rparr>"

definition apply_dh_ratchet ::
  "crypto \<Rightarrow> bytes \<Rightarrow> SessionState \<Rightarrow> rng \<Rightarrow> unit result \<times> SessionState \<times> rng" where
  "apply_dh_ratchet c new_remote_dh_pub s rng =
     (case dh_root_step c (st_root_key s) (dh_secret (st_local_dh s)) new_remote_dh_pub of
        Inl e \<Rightarrow> (Err e, s, rng)
      | Inr recv_step \<Rightarrow>
          let s = ratchet_receive recv_step new_remote_dh_pub s;
              (local_dh, rng) = generate_keypair c rng;
              s = s\<lparr>st_local_dh := local_dh\<rparr>
          in case dh_root_step c (st_root_key s) (dh_secret (st_local_dh s)) (st_remote_dh_pub s) of
               Inl e \<Rightarrow> (Err e, s, rng)
             | Inr send_step \<Rightarrow> (Ok (), ratchet_send send_step s, rng))"

definition ratchet_if_new ::
  "crypto \<Rightarrow> MessageFields \<Rightarrow> SessionState \<Rightarrow> rng \<Rightarrow> unit result \<times> SessionState \<times> rng" where
  "ratchet_if_new c f s rng =
     (if mf_sender_dh_pub f \<noteq> st_remote_dh_pub s then
        (case skip_until c (st_remote_dh_pub s) (mf_prev_chain_len f) s of
           (Inl e, s) \<Rightarrow> (Err e, s, rng)
         | (Inr _, s) \<Rightarrow> apply_dh_ratchet c (mf_sender_dh_pub f) s rng)
      else (Ok (), s, rng))"

definition message_key_for :: "crypto \<Rightarrow> MessageFields \<Rightarrow> SessionState \<Rightarrow> bytes result \<times> SessionState" where
  "message_key_for c f s =
     (if mf_msg_num f < next_msg_num (st_receiving_chain s) then
        (case sm_take \<lparr>sk_dh_pub = mf_sender_dh_pub f, sk_msg_num = mf_msg_num f\<rparr> (st_skipped s) of
           (key, cache) \<Rightarrow> (ok_or key MessageKeyUnavailable, s\<lparr>st_skipped := cache\<rparr>))
      else
        (case skip_until c (mf_sender_dh_pub f) (mf_msg_num f) s of
           (Inl e, s) \<Rightarrow> (Err e, s)
         | (Inr _, s) \<Rightarrow>
             (case next_message_key c (st_receiving_chain s) of
                (Inl e, chain) \<Rightarrow> (Err e, s\<lparr>st_receiving_chain := chain\<rparr>)
              | (Inr (_, key), chain) \<Rightarrow> (Ok key, s\<lparr>st_receiving_chain := chain\<rparr>))))"

definition open_fields :: "crypto \<Rightarrow> bytes \<Rightarrow> MessageFields \<Rightarrow> bool \<Rightarrow> bytes \<Rightarrow> bytes result" where
  "open_fields c ad f is_v2 message_key =
     and_then (session_associated_data (mf_wire_version f) (mf_suite_id f) (mf_sender_dh_pub f)
                 (mf_msg_num f) (mf_prev_chain_len f) (mf_pq f) ad) (\<lambda>aad.
     and_then (aead_decrypt c message_key \<lparr>env_nonce = mf_aead_nonce f,
                 env_ciphertext = mf_ciphertext f, env_aad = aad\<rparr>) (\<lambda>decrypted.
     if is_v2 then unpad_plaintext decrypted else Ok decrypted))"

definition decrypt_pq_step :: "crypto \<Rightarrow> MessageFields \<Rightarrow> SessionState \<Rightarrow> unit result \<times> SessionState" where
  "decrypt_pq_step c f s = (case pf_step_ct (mf_pq f) of
       None \<Rightarrow> (Ok (), s)
     | Some ct \<Rightarrow>
         (case st_pq_state s of
            None \<Rightarrow> (Err PqRatchetDisabled, s)
          | Some state \<Rightarrow>
         (case st_pq_kem s of
            None \<Rightarrow> (Err PqRatchetDisabled, s)
          | Some kem \<Rightarrow>
         (case receiver_step c state kem (st_root_key s) ct (pf_target_pub_hash (mf_pq f))
                 (pf_next_public_key (mf_pq f)) (mf_msg_num f) of
            (Inl e, state) \<Rightarrow> (Err e, s\<lparr>st_pq_state := Some state\<rparr>)
          | (Inr root_key, state) \<Rightarrow>
              (Ok (), s\<lparr>st_pq_state := Some state, st_root_key := root_key\<rparr>)))))"

fun is_V2 :: "DecodedWireMessage \<Rightarrow> bool" where
  "is_V2 (V1 m) = False"
| "is_V2 (V2 m) = True"

definition session_decrypt ::
  "crypto \<Rightarrow> bytes \<Rightarrow> bytes \<Rightarrow> SessionState \<Rightarrow> rng \<Rightarrow> bytes result \<times> SessionState \<times> rng" where
  "session_decrypt c wire_bytes ad s rng =
     (case decode_wire_message wire_bytes of
        Inl e \<Rightarrow> (Err e, s, rng)
      | Inr decoded \<Rightarrow>
     (case message_fields c s decoded of
        Inl e \<Rightarrow> (Err e, s, rng)
      | Inr f \<Rightarrow>
     if mf_suite_id f \<noteq> st_suite_id s then (Err (UnsupportedAlgorithm ''wire.suite_id''), s, rng)
     else
     (case ratchet_if_new c f s rng of
        (Inl e, s, rng) \<Rightarrow> (Err e, s, rng)
      | (Inr _, s, rng) \<Rightarrow>
     (case message_key_for c f s of
        (Inl e, s) \<Rightarrow> (Err e, s, rng)
      | (Inr message_key, s) \<Rightarrow>
     (case open_fields c ad f (is_V2 decoded) message_key of
        Inl e \<Rightarrow> (Err e, s, rng)
      | Inr plaintext \<Rightarrow>
     (case decrypt_pq_step c f s of
        (Inl e, s) \<Rightarrow> (Err e, s, rng)
      | (Inr _, s) \<Rightarrow> (Ok plaintext, s, rng)))))))"

subsection \<open>Snapshots\<close>

record PqLocalKeyRecordSnapshot =
  ks_public_key :: bytes
  ks_secret_key :: bytes

record PqRatchetSnapshot =
  rsn_interval :: u32
  rsn_local_public_key :: bytes
  rsn_local_secret_key :: bytes
  rsn_remote_public_key :: bytes
  rsn_local_key_history :: "PqLocalKeyRecordSnapshot list"
  rsn_max_key_history :: usize
  rsn_last_remote_update_msg_num :: u32

record SkippedMessageKeySnapshot =
  mks_dh_pub :: bytes
  mks_msg_num :: u32
  mks_message_key :: bytes

record SessionSnapshot =
  sn_version :: u16
  sn_suite_id :: u16
  sn_negotiated_wire_version :: u16
  sn_root_key :: bytes
  sn_sending_chain_key :: bytes
  sn_sending_next_msg_num :: u32
  sn_receiving_chain_key :: bytes
  sn_receiving_next_msg_num :: u32
  sn_local_dh_public :: bytes
  sn_local_dh_secret :: bytes
  sn_remote_dh_pub :: bytes
  sn_prev_chain_len :: u32
  sn_max_skipped :: usize
  sn_skipped :: "SkippedMessageKeySnapshot list"
  sn_pq_ratchet :: "PqRatchetSnapshot option"
  sn_sending_header_key :: "bytes option"
  sn_receiving_header_key :: "bytes option"
  sn_prev_receiving_header_key :: "bytes option"

definition pq_snapshot :: "PqRatchetState \<Rightarrow> PqRatchetSnapshot" where
  "pq_snapshot s =
     \<lparr>rsn_interval = pq_interval s, rsn_local_public_key = pq_local_public_key s,
      rsn_local_secret_key = pq_local_secret_key s, rsn_remote_public_key = pq_remote_public_key s,
      rsn_local_key_history = map (\<lambda>r. \<lparr>ks_public_key = lk_public_key r, ks_secret_key = lk_secret_key r\<rparr>)
        (pq_local_key_history s),
      rsn_max_key_history = pq_max_key_history s,
      rsn_last_remote_update_msg_num = pq_last_remote_update_msg_num s\<rparr>"

definition pq_from_snapshot :: "PqRatchetSnapshot \<Rightarrow> PqRatchetState" where
  "pq_from_snapshot s =
     \<lparr>pq_interval = rsn_interval s, pq_local_public_key = rsn_local_public_key s,
      pq_local_secret_key = rsn_local_secret_key s, pq_remote_public_key = rsn_remote_public_key s,
      pq_local_key_history = map (\<lambda>r. \<lparr>lk_public_key = ks_public_key r, lk_secret_key = ks_secret_key r\<rparr>)
        (rsn_local_key_history s),
      pq_max_key_history = rsn_max_key_history s,
      pq_last_remote_update_msg_num = rsn_last_remote_update_msg_num s\<rparr>"

definition session_snapshot :: "SessionState \<Rightarrow> SessionSnapshot" where
  "session_snapshot s =
     \<lparr>sn_version = st_version s, sn_suite_id = st_suite_id s,
      sn_negotiated_wire_version = st_negotiated_wire_version s, sn_root_key = st_root_key s,
      sn_sending_chain_key = chain_key (st_sending_chain s),
      sn_sending_next_msg_num = next_msg_num (st_sending_chain s),
      sn_receiving_chain_key = chain_key (st_receiving_chain s),
      sn_receiving_next_msg_num = next_msg_num (st_receiving_chain s),
      sn_local_dh_public = dh_public (st_local_dh s), sn_local_dh_secret = dh_secret (st_local_dh s),
      sn_remote_dh_pub = st_remote_dh_pub s, sn_prev_chain_len = st_prev_chain_len s,
      sn_max_skipped = sm_max_entries (st_skipped s),
      sn_skipped = map (\<lambda>(key_id, key). \<lparr>mks_dh_pub = sk_dh_pub key_id,
        mks_msg_num = sk_msg_num key_id, mks_message_key = key\<rparr>) (sm_entries (st_skipped s)),
      sn_pq_ratchet = map_option pq_snapshot (st_pq_state s),
      sn_sending_header_key = st_sending_header_key s,
      sn_receiving_header_key = st_receiving_header_key s,
      sn_prev_receiving_header_key = st_prev_receiving_header_key s\<rparr>"

definition from_snapshot_with_kem :: "SessionSnapshot \<Rightarrow> kem_provider option \<Rightarrow> SessionState" where
  "from_snapshot_with_kem sn kem =
     \<lparr>st_version = sn_version sn, st_suite_id = sn_suite_id sn,
      st_negotiated_wire_version = sn_negotiated_wire_version sn, st_root_key = sn_root_key sn,
      st_sending_chain = chain_from_parts (sn_sending_chain_key sn) (sn_sending_next_msg_num sn),
      st_receiving_chain = chain_from_parts (sn_receiving_chain_key sn) (sn_receiving_next_msg_num sn),
      st_local_dh = \<lparr>dh_public = sn_local_dh_public sn, dh_secret = sn_local_dh_secret sn\<rparr>,
      st_remote_dh_pub = sn_remote_dh_pub sn, st_prev_chain_len = sn_prev_chain_len sn,
      st_skipped = sm_from_entries (sn_max_skipped sn)
        (map (\<lambda>i. (\<lparr>sk_dh_pub = mks_dh_pub i, sk_msg_num = mks_msg_num i\<rparr>, mks_message_key i)) (sn_skipped sn)),
      st_pq_state = map_option pq_from_snapshot (sn_pq_ratchet sn), st_pq_kem = kem,
      st_sending_header_key = sn_sending_header_key sn,
      st_receiving_header_key = sn_receiving_header_key sn,
      st_prev_receiving_header_key = sn_prev_receiving_header_key sn\<rparr>"

definition from_snapshot :: "SessionSnapshot \<Rightarrow> SessionState" where
  "from_snapshot sn = from_snapshot_with_kem sn None"

lemma pq_from_snapshot_snapshot: "pq_from_snapshot (pq_snapshot s) = s"
proof -
  have "(\<lambda>r. \<lparr>lk_public_key = lk_public_key r, lk_secret_key = lk_secret_key r\<rparr>) = (\<lambda>r :: PqLocalKeyRecord. r)"
    by (rule ext) simp
  then show ?thesis by (simp add: pq_from_snapshot_def pq_snapshot_def comp_def)
qed

lemma snapshot_skipped:
  "map (\<lambda>i. (\<lparr>sk_dh_pub = mks_dh_pub i, sk_msg_num = mks_msg_num i\<rparr>, mks_message_key i))
     (map (\<lambda>(key_id, key). \<lparr>mks_dh_pub = sk_dh_pub key_id, mks_msg_num = sk_msg_num key_id,
        mks_message_key = key\<rparr>) es) = es"
  by (induction es) auto

lemma from_snapshot_snapshot:
  assumes "sm_inv (st_skipped s)"
  shows "from_snapshot_with_kem (session_snapshot s) (st_pq_kem s) = s"
proof -
  have "map_option pq_from_snapshot (map_option pq_snapshot p) = p" for p
    by (cases p) (simp_all add: pq_from_snapshot_snapshot)
  then show ?thesis
    unfolding from_snapshot_with_kem_def session_snapshot_def
    by (simp add: snapshot_skipped sm_from_entries_entries [OF assms] chain_from_parts_def del: map_map)
qed

end
