(* ===== verification/Session_Props.thy ===== *)
theory Session_Props
  imports Session
begin

text \<open>
  How two sessions that come out of one handshake work together. The first part computes what
  \<open>session_encrypt\<close> and \<open>session_decrypt\<close> do to a session whose chains are \<open>chain_at\<close> states; the
  second part is a transition system of two sessions that send and receive in any order, with
  loss, reordering and duplication of messages, and its invariant.
\<close>

subsection \<open>Skipping ahead\<close>

definition kid :: "bytes \<Rightarrow> nat \<Rightarrow> SkippedKeyId" where
  "kid d i = \<lparr>sk_dh_pub = d, sk_msg_num = of_nat i\<rparr>"

definition skip_keys :: "crypto \<Rightarrow> bytes \<Rightarrow> bytes \<Rightarrow> nat \<Rightarrow> nat \<Rightarrow> (SkippedKeyId \<times> bytes) list" where
  "skip_keys c ck d m n = map (\<lambda>i. (kid d i, message_key_at c ck i)) [m..<n]"

lemma u32_of_nat_less: "m < 2 ^ 32 \<Longrightarrow> n < 2 ^ 32 \<Longrightarrow> (of_nat m :: u32) < of_nat n \<longleftrightarrow> m < n"
  by (simp add: word_less_nat_alt unat_of_nat)

lemma kid_inject: "i < 2 ^ 32 \<Longrightarrow> j < 2 ^ 32 \<Longrightarrow> kid d i = kid d j \<longleftrightarrow> i = j"
  by (simp add: kid_def word_unat_eq_iff unat_of_nat)

lemma next_chain_at [simp]: "next_msg_num (chain_at c ck n) = of_nat n"
  by (simp add: chain_at_def)

lemma chain_at_new: "chain_new ck = chain_at c ck 0"
  by (simp add: chain_new_def chain_at_def)

lemma skip_loop_chain:
  assumes "hkdf_ok c" and "m \<le> n" and "n \<le> 0xFFFFFFFF"
  shows "skip_loop c d (of_nat n) (chain_at c ck m) cache
    = (Ok (), chain_at c ck n, skipped.ins_all (skip_keys c ck d m n) cache)"
  using assms(2)
proof (induction "n - m" arbitrary: m cache)
  case 0
  then show ?case by (simp add: skip_loop.simps skip_keys_def)
next
  case (Suc k)
  then have lt: "m < n" by simp
  have "next_message_key c (chain_at c ck m) = (Ok (of_nat m, message_key_at c ck m), chain_at c ck (Suc m))"
    using lt assms by (intro next_message_key_chain) auto
  moreover have "(of_nat m :: u32) < of_nat n" using lt assms(3) by (simp add: u32_of_nat_less)
  ultimately have "skip_loop c d (of_nat n) (chain_at c ck m) cache
      = skip_loop c d (of_nat n) (chain_at c ck (Suc m)) (sm_insert (kid d m) (message_key_at c ck m) cache)"
    by (simp add: skip_loop.simps [of c d "of_nat n" "chain_at c ck m"] kid_def)
  with Suc lt show ?case by (simp add: skip_keys_def upt_conv_Cons)
qed

lemma message_key_for_new:
  assumes "hkdf_ok c" "st_receiving_chain s = chain_at c ck m" "m \<le> i" "i < 0xFFFFFFFF"
    "mf_msg_num f = of_nat i"
  shows "message_key_for c f s = (Ok (message_key_at c ck i),
    s\<lparr>st_receiving_chain := chain_at c ck (Suc i),
      st_skipped := skipped.ins_all (skip_keys c ck (mf_sender_dh_pub f) m i) (st_skipped s)\<rparr>)"
proof -
  have "\<not> (of_nat i :: u32) < of_nat m" using assms(3,4) by (simp add: u32_of_nat_less)
  moreover have "skip_until c (mf_sender_dh_pub f) (of_nat i) s = (Ok (),
      s\<lparr>st_receiving_chain := chain_at c ck i,
        st_skipped := skipped.ins_all (skip_keys c ck (mf_sender_dh_pub f) m i) (st_skipped s)\<rparr>)"
    using assms by (simp add: skip_until_def skip_loop_chain)
  ultimately show ?thesis
    using assms next_message_key_chain [of c i ck] by (simp add: message_key_for_def)
qed

lemma message_key_for_old:
  assumes "st_receiving_chain s = chain_at c ck m" "i < m" "m < 2 ^ 32" "mf_msg_num f = of_nat i"
    "sm_inv (st_skipped s)"
  shows "message_key_for c f s =
    (ok_or (map_of (sm_entries (st_skipped s)) (kid (mf_sender_dh_pub f) i)) MessageKeyUnavailable,
     s\<lparr>st_skipped := snd (sm_take (kid (mf_sender_dh_pub f) i) (st_skipped s))\<rparr>)"
  using assms u32_of_nat_less [of i m]
  by (simp add: message_key_for_def kid_def skipped.tak_result [OF assms(5), symmetric] case_prod_beta)

subsection \<open>The receiving side\<close>

text \<open>
  The receiver has derived the keys of all numbers below \<open>m\<close>; \<open>got\<close> are the numbers whose key it
  has used. Every cached key is the right key of an unused number, and as long as the cache is
  large enough for all numbers, every unused number is cached.
\<close>

definition receiver_inv :: "crypto \<Rightarrow> bytes \<Rightarrow> bytes \<Rightarrow> nat \<Rightarrow> nat set \<Rightarrow> SessionState \<Rightarrow> bool" where
  "receiver_inv c ck d m got s \<longleftrightarrow>
     st_receiving_chain s = chain_at c ck m \<and> st_remote_dh_pub s = d \<and> sm_inv (st_skipped s)
     \<and> m \<le> 0xFFFFFFFF \<and> got \<subseteq> {..<m}
     \<and> set (sm_entries (st_skipped s)) \<subseteq> (\<lambda>i. (kid d i, message_key_at c ck i)) ` ({..<m} - got)
     \<and> (m \<le> sm_max_entries (st_skipped s) \<longrightarrow>
          fst ` set (sm_entries (st_skipped s)) = kid d ` ({..<m} - got))"

lemma receiver_inv_entry:
  assumes "receiver_inv c ck d m got s" and "i < m"
  shows "map_of (sm_entries (st_skipped s)) (kid d i) \<in> {None, Some (message_key_at c ck i)}"
    and "i \<in> got \<Longrightarrow> kid d i \<notin> fst ` set (sm_entries (st_skipped s))"
proof -
  have m: "m \<le> 0xFFFFFFFF" using assms(1) by (simp add: receiver_inv_def)
  have *: "(kid d i, v) \<in> set (sm_entries (st_skipped s)) \<Longrightarrow> v = message_key_at c ck i \<and> i \<notin> got" for v
  proof -
    assume "(kid d i, v) \<in> set (sm_entries (st_skipped s))"
    then obtain j where "j < m" "j \<notin> got" "kid d i = kid d j" "v = message_key_at c ck j"
      using assms(1) unfolding receiver_inv_def by blast
    moreover have "i = j" using kid_inject [of i j d] calculation assms(2) m by simp
    ultimately show ?thesis by simp
  qed
  show "map_of (sm_entries (st_skipped s)) (kid d i) \<in> {None, Some (message_key_at c ck i)}"
    using * by (cases "map_of (sm_entries (st_skipped s)) (kid d i)") (auto dest: map_of_SomeD)
  show "i \<in> got \<Longrightarrow> kid d i \<notin> fst ` set (sm_entries (st_skipped s))"
    using * by auto
qed

lemma receiver_inv_take:
  assumes "receiver_inv c ck d m got s" and "i < m"
  shows "receiver_inv c ck d m (insert i got) (s\<lparr>st_skipped := snd (sm_take (kid d i) (st_skipped s))\<rparr>)"
proof -
  have "sm_inv (st_skipped s)" "m \<le> 0xFFFFFFFF" using assms(1) by (simp_all add: receiver_inv_def)
  then have e: "sm_entries (snd (sm_take (kid d i) (st_skipped s)))
      = filter (\<lambda>e. fst e \<noteq> kid d i) (sm_entries (st_skipped s))" "sm_inv (snd (sm_take (kid d i) (st_skipped s)))"
    by (simp_all add: skipped.tak_ents skipped.tak_inv)
  have "fst ` {e \<in> S. fst e \<noteq> k} = fst ` S - {k}" for S :: "(SkippedKeyId \<times> bytes) set" and k
    by auto
  moreover have "kid d ` ({..<m} - insert i got) = kid d ` ({..<m} - got) - {kid d i}"
    using assms(2) \<open>m \<le> 0xFFFFFFFF\<close> by (auto simp: kid_inject)
  moreover have "{e \<in> set (sm_entries (st_skipped s)). fst e \<noteq> kid d i}
      \<subseteq> (\<lambda>j. (kid d j, message_key_at c ck j)) ` ({..<m} - insert i got)"
    using assms(1) unfolding receiver_inv_def by fastforce
  ultimately show ?thesis
    using assms e unfolding receiver_inv_def by (simp add: skipped.tak_cap)
qed

lemma receiver_inv_skip:
  assumes "receiver_inv c ck d m got s" and "m \<le> i" and "i < 0xFFFFFFFF"
  shows "receiver_inv c ck d (Suc i) (insert i got)
    (s\<lparr>st_receiving_chain := chain_at c ck (Suc i),
       st_skipped := skipped.ins_all (skip_keys c ck d m i) (st_skipped s)\<rparr>)"
proof -
  let ?cache = "st_skipped s" and ?new = "skip_keys c ck d m i"
  have inv: "sm_inv ?cache" and got: "got \<subseteq> {..<m}"
    and old: "set (sm_entries ?cache) \<subseteq> (\<lambda>j. (kid d j, message_key_at c ck j)) ` ({..<m} - got)"
    using assms(1) by (auto simp: receiver_inv_def)
  have new: "set ?new = (\<lambda>j. (kid d j, message_key_at c ck j)) ` {m..<i}"
    by (simp add: skip_keys_def)
  have sub: "set (sm_entries (skipped.ins_all ?new ?cache))
      \<subseteq> (\<lambda>j. (kid d j, message_key_at c ck j)) ` ({..<Suc i} - insert i got)"
    using skipped.ins_all_subset [OF inv, of ?new] old new got assms(2) by fastforce
  have "fst ` set (sm_entries (skipped.ins_all ?new ?cache)) = kid d ` ({..<Suc i} - insert i got)"
    if cap: "Suc i \<le> sm_max_entries ?cache"
  proof -
    have all: "fst ` set (sm_entries ?cache) = kid d ` ({..<m} - got)"
      using assms cap by (auto simp: receiver_inv_def)
    have "length (sm_entries ?cache) = card (fst ` set (sm_entries ?cache))"
      using skipped.ents_distinct [OF inv] by (metis distinct_card length_map set_map)
    also have "\<dots> \<le> m"
      unfolding all by (metis card_image_le card_lessThan card_mono Diff_subset finite_Diff finite_lessThan order_trans)
    finally have len: "length (sm_entries ?cache) + length ?new \<le> sm_max_entries ?cache"
      using assms(2) cap by (simp add: skip_keys_def)
    have "distinct (map fst ?new)" "fst ` set (sm_entries ?cache) \<inter> fst ` set ?new = {}"
      using all assms(2,3) by (auto simp: skip_keys_def comp_def distinct_map inj_on_def kid_inject)
    then have "sm_entries (skipped.ins_all ?new ?cache) = sm_entries ?cache @ ?new"
      using skipped.ents_distinct [OF inv] len by (intro skipped.ins_all_exact [OF inv]) auto
    then have "fst ` set (sm_entries (skipped.ins_all ?new ?cache)) = kid d ` (({..<m} - got) \<union> {m..<i})"
      using all new by (simp add: image_Un image_image)
    also have "({..<m} - got) \<union> {m..<i} = {..<Suc i} - insert i got"
      using got assms(2) by auto
    finally show ?thesis .
  qed
  with sub inv got assms show ?thesis
    by (auto simp: receiver_inv_def skipped.ins_all_inv skipped.ins_all_cap)
qed

subsection \<open>The sending side\<close>

text \<open>
  What a receiver makes of a decoded message \<open>decoded\<close>: everyone who holds the header key \<open>hk\<close> reads the
  fields \<open>f\<close>, and the header of a version 2 message is the encoding of these fields under \<open>hk\<close>.
\<close>

definition header_of :: "MessageFields \<Rightarrow> HeaderPlaintext" where
  "header_of f = \<lparr>hp_sender_dh_pub = mf_sender_dh_pub f, hp_msg_num = mf_msg_num f,
     hp_prev_chain_len = mf_prev_chain_len f, hp_pq_step_ct = pf_step_ct (mf_pq f),
     hp_pq_target_pub_hash = pf_target_pub_hash (mf_pq f), hp_pq_next_public_key = pf_next_public_key (mf_pq f)\<rparr>"

definition carries :: "crypto \<Rightarrow> bytes option \<Rightarrow> DecodedWireMessage \<Rightarrow> MessageFields \<Rightarrow> bool" where
  "carries c hk decoded f \<longleftrightarrow>
     (\<forall>s. st_receiving_header_key s = hk \<longrightarrow> (hk = None \<longrightarrow> st_prev_receiving_header_key s = None) \<longrightarrow>
            message_fields c s decoded = Ok f)
     \<and> (\<forall>m. decoded = V2 m \<longrightarrow> (\<exists>hb. hp_encode (header_of f) = Ok hb
            \<and> w2_encrypted_header m = (case hk of Some k \<Rightarrow> encrypt_header c k hb | None \<Rightarrow> hb)))"

text \<open>
  \<open>x = (w, msg, ad)\<close> is message number \<open>i\<close> of a chain that started from \<open>ck\<close>: every receiver that
  holds the header key \<open>hk\<close> reads the same fields from the wire bytes \<open>w\<close>, and the \<open>i\<close>-th message
  key opens them to \<open>msg\<close> under the associated data \<open>ad\<close>. With a header key the message has version 2.
\<close>

definition sent_ok ::
  "crypto \<Rightarrow> bytes \<Rightarrow> bytes \<Rightarrow> bytes option \<Rightarrow> u16 \<Rightarrow> bool \<Rightarrow> nat \<Rightarrow> bytes \<times> bytes \<times> bytes \<Rightarrow> bool" where
  "sent_ok c ck d hk sid plain i x \<longleftrightarrow> (case x of (w, msg, ad) \<Rightarrow> \<exists>decoded f.
     decode_wire_message w = Ok decoded \<and> carries c hk decoded f \<and> (hk \<noteq> None \<longrightarrow> is_V2 decoded)
     \<and> mf_suite_id f = sid \<and> mf_sender_dh_pub f = d \<and> mf_msg_num f = of_nat i
     \<and> (plain \<longrightarrow> mf_pq f = no_pq)
     \<and> open_fields c ad f (is_V2 decoded) (message_key_at c ck i) = Ok msg)"

lemma encrypt_pq_step_frame:
  assumes "encrypt_pq_step c s n r = (res, s', r')"
  obtains rk pq where "s' = s\<lparr>st_root_key := rk, st_pq_state := pq\<rparr>"
    and "st_pq_state s = None \<Longrightarrow> pq = None \<and> res = Ok no_pq \<and> rk = st_root_key s \<and> r' = r"
proof -
  have same: "s = s\<lparr>st_root_key := st_root_key s, st_pq_state := st_pq_state s\<rparr>" by simp
  show thesis
  proof (cases "\<exists>step r1. fst (sender_step c (the (st_pq_state s)) (the (st_pq_kem s)) (st_root_key s) n r)
      = Ok (Some step) \<and> st_pq_state s \<noteq> None \<and> st_pq_kem s \<noteq> None")
    case True
    then show thesis
      using assms that by (auto simp: encrypt_pq_step_def split: prod.splits)
  next
    case False
    then have "s' = s \<and> (st_pq_state s = None \<longrightarrow> res = Ok no_pq \<and> r' = r)"
      using assms by (auto simp: encrypt_pq_step_def split: option.splits prod.splits sum.splits)
    with same that show thesis by metis
  qed
qed

lemma session_encrypt_stages:
  assumes "hkdf_ok c" "st_sending_chain a = chain_at c ck n" "n < 0xFFFFFFFF"
    and "session_encrypt c msg ad a r = (res, a', r')"
  obtains pq r1 where "encrypt_pq_step c (a\<lparr>st_sending_chain := chain_at c ck (Suc n)\<rparr>) (of_nat n) r = (pq, a', r1)"
    and "\<And>w. res = Ok w \<Longrightarrow> \<exists>f aad env. pq = Ok f
      \<and> session_associated_data (st_version a') (st_suite_id a') (dh_public (st_local_dh a')) (of_nat n)
             (st_prev_chain_len a') f ad = Ok aad
      \<and> encrypt_with_rng c (message_key_at c ck n) (pad_for_wire a' msg) aad r1 = (Ok env, r')
      \<and> (if st_negotiated_wire_version a' \<ge> WIRE_VERSION_V2 then frame_v2 c a' (of_nat n) f env
         else frame_v1 a' (of_nat n) f env) = Ok w"
proof -
  have nk: "next_message_key c (st_sending_chain a) = (Ok (of_nat n, message_key_at c ck n), chain_at c ck (Suc n))"
    using assms by (simp add: next_message_key_chain)
  obtain pq a1 r1 where
    e: "encrypt_pq_step c (a\<lparr>st_sending_chain := chain_at c ck (Suc n)\<rparr>) (of_nat n) r = (pq, a1, r1)"
    by (metis prod_cases3)
  have a1: "a1 = a'"
    using assms(4) by (simp add: session_encrypt_def nk e split: sum.splits prod.splits)
  show thesis
  proof (rule that [of pq r1])
    show "encrypt_pq_step c (a\<lparr>st_sending_chain := chain_at c ck (Suc n)\<rparr>) (of_nat n) r = (pq, a', r1)"
      using e a1 by simp
    show "\<exists>f aad env. pq = Ok f
      \<and> session_associated_data (st_version a') (st_suite_id a') (dh_public (st_local_dh a')) (of_nat n)
             (st_prev_chain_len a') f ad = Ok aad
      \<and> encrypt_with_rng c (message_key_at c ck n) (pad_for_wire a' msg) aad r1 = (Ok env, r')
      \<and> (if st_negotiated_wire_version a' \<ge> WIRE_VERSION_V2 then frame_v2 c a' (of_nat n) f env
         else frame_v1 a' (of_nat n) f env) = Ok w" if "res = Ok w" for w
    using assms(4) that by (cases pq) (auto simp: session_encrypt_def nk e a1 split: sum.splits prod.splits)
  qed
qed

lemma session_encrypt_frame:
  assumes "hkdf_ok c" "st_sending_chain a = chain_at c ck n" "n \<le> 0xFFFFFFFF"
    and "session_encrypt c msg ad a r = (res, a', r')"
  obtains (exhausted) "n = 0xFFFFFFFF" "a' = a" "\<not> is_ok res"
    | (step) rk pq where "n < 0xFFFFFFFF"
      "a' = a\<lparr>st_sending_chain := chain_at c ck (Suc n), st_root_key := rk, st_pq_state := pq\<rparr>"
      "st_pq_state a = None \<Longrightarrow> pq = None"
proof (cases "n = 0xFFFFFFFF")
  case True
  then have "next_msg_num (st_sending_chain a) = u32_MAX" using assms(2) by (simp add: chain_at_def)
  from next_message_key_exhausted [OF assms(1) this] assms(4) show thesis
    by (intro exhausted [OF True]) (auto simp: session_encrypt_def)
next
  case False
  then have lt: "n < 0xFFFFFFFF" using assms(3) by simp
  from session_encrypt_stages [OF assms(1,2) lt assms(4)] obtain pq r1 where
    "encrypt_pq_step c (a\<lparr>st_sending_chain := chain_at c ck (Suc n)\<rparr>) (of_nat n) r = (pq, a', r1)" by metis
  from encrypt_pq_step_frame [OF this] step [OF lt] show thesis by (metis SessionState.select_convs(11) SessionState.update_convs(5) SessionState.surjective)
qed

lemma encrypt_with_rng_open:
  assumes "aead_ok c" "length key = 32" "encrypt_with_rng c key pt aad r = (Ok env, r')"
  shows "length (env_nonce env) = 12"
    and "aead_decrypt c key \<lparr>env_nonce = env_nonce env, env_ciphertext = env_ciphertext env, env_aad = aad\<rparr> = Ok pt"
proof -
  have n: "length (fst (fill_bytes 12 r)) = 12" "aead_encrypt c key pt aad (fst (fill_bytes 12 r)) = Ok env"
    using assms(3) by (simp_all add: encrypt_with_rng_def Let_def case_prod_beta)
  have d: "aead_decrypt c key env = Ok pt" "env_nonce env = fst (fill_bytes 12 r)" "env_aad env = aad"
    using aead_encrypt_decrypt [OF assms(1,2) n] by simp_all
  show "length (env_nonce env) = 12" using d n by simp
  have "\<lparr>env_nonce = env_nonce env, env_ciphertext = env_ciphertext env, env_aad = aad\<rparr> = env"
    using d by simp
  then show "aead_decrypt c key \<lparr>env_nonce = env_nonce env, env_ciphertext = env_ciphertext env, env_aad = aad\<rparr> = Ok pt"
    using d(1) by simp
qed

lemma unpad_pad_for_wire:
  "st_negotiated_wire_version s \<ge> WIRE_VERSION_V2 \<Longrightarrow> unpad_plaintext (pad_for_wire s m) = Ok m"
  using unpad_pad [OF pad_256_Some] by (simp add: pad_for_wire_def)

lemma decrypt_v2_header_encrypted:
  assumes "hp_wf h" "hp_encode h = Ok hb" "st_receiving_header_key s = hk"
    "hk = None \<longrightarrow> st_prev_receiving_header_key s = None"
  shows "decrypt_v2_header c s (case hk of Some k \<Rightarrow> encrypt_header c k hb | None \<Rightarrow> hb) = Ok h"
  using assms try_decrypt_encrypt_header [OF assms(1,2)] wire_header.dec_enc [OF assms(1,2)]
  by (cases hk) (auto simp: decrypt_v2_header_def)

lemma frame_v2_sent:
  assumes "aead_ok c" "length key = 32" "length (dh_public (st_local_dh a)) = 32" "st_version a = WIRE_VERSION"
    and ad: "session_associated_data (st_version a) (st_suite_id a) (dh_public (st_local_dh a)) n
             (st_prev_chain_len a) pq ad = Ok aad"
    and env: "encrypt_with_rng c key (pad_for_wire a msg) aad r1 = (Ok env, r')"
    and v2: "st_negotiated_wire_version a \<ge> WIRE_VERSION_V2" and w: "frame_v2 c a n pq env = Ok w"
  shows "\<exists>decoded f. decode_wire_message w = Ok decoded \<and> carries c (st_sending_header_key a) decoded f \<and> is_V2 decoded
     \<and> mf_suite_id f = st_suite_id a \<and> mf_sender_dh_pub f = dh_public (st_local_dh a) \<and> mf_msg_num f = n
     \<and> mf_pq f = pq \<and> open_fields c ad f (is_V2 decoded) key = Ok msg"
proof -
  define h where "h = \<lparr>hp_sender_dh_pub = dh_public (st_local_dh a), hp_msg_num = n,
        hp_prev_chain_len = st_prev_chain_len a, hp_pq_step_ct = pf_step_ct pq,
        hp_pq_target_pub_hash = pf_target_pub_hash pq, hp_pq_next_public_key = pf_next_public_key pq\<rparr>"
  obtain hb where hb: "hp_encode h = Ok hb"
    using w by (auto simp: frame_v2_def h_def)
  define m where "m = \<lparr>w2_version = WIRE_VERSION_V2, w2_suite_id = st_suite_id a,
    w2_encrypted_header = (case st_sending_header_key a of Some hk \<Rightarrow> encrypt_header c hk hb | None \<Rightarrow> hb),
    w2_aead_nonce = env_nonce env, w2_ciphertext = env_ciphertext env\<rparr>"
  have "w2_encode m = Ok w" using w hb by (simp add: frame_v2_def m_def h_def Let_def)
  moreover have "length (w2_aead_nonce m) = 12"
    using encrypt_with_rng_open(1) [OF assms(1,2) env] by (simp add: m_def)
  ultimately have dec: "decode_wire_message w = Ok (V2 m)"
    using decode_wire_v2 w2_encode_wf by blast
  define f where "f = \<lparr>mf_wire_version = WIRE_VERSION, mf_suite_id = st_suite_id a,
    mf_sender_dh_pub = dh_public (st_local_dh a), mf_msg_num = n, mf_prev_chain_len = st_prev_chain_len a,
    mf_pq = pq, mf_aead_nonce = env_nonce env, mf_ciphertext = env_ciphertext env\<rparr>"
  have hwf: "hp_wf h" using hp_encode_wf [OF hb] assms(3) by (simp add: h_def)
  have "message_fields c s (V2 m) = Ok f"
    if "st_receiving_header_key s = st_sending_header_key a"
      "st_sending_header_key a = None \<longrightarrow> st_prev_receiving_header_key s = None" for s
    using decrypt_v2_header_encrypted [OF hwf hb that]
    by (simp add: m_def f_def h_def)
  moreover have "header_of f = h" by (simp add: header_of_def f_def h_def)
  ultimately have "carries c (st_sending_header_key a) (V2 m) f"
    unfolding carries_def using hb by (auto simp: m_def simp del: message_fields.simps)
  moreover have "open_fields c ad f True key = Ok msg"
    using ad encrypt_with_rng_open(2) [OF assms(1,2) env] unpad_pad_for_wire [OF v2, of msg] assms(4)
    by (simp add: open_fields_def f_def)
  ultimately show ?thesis
    using dec by (intro exI [of _ "V2 m"] exI [of _ f]) (simp add: f_def)
qed

lemma frame_v1_sent:
  assumes "aead_ok c" "length key = 32" "length (dh_public (st_local_dh a)) = 32"
    and ad: "session_associated_data (st_version a) (st_suite_id a) (dh_public (st_local_dh a)) n
             (st_prev_chain_len a) pq ad = Ok aad"
    and env: "encrypt_with_rng c key (pad_for_wire a msg) aad r1 = (Ok env, r')"
    and v1: "\<not> st_negotiated_wire_version a \<ge> WIRE_VERSION_V2" and w: "frame_v1 a n pq env = Ok w"
  shows "\<exists>decoded f. decode_wire_message w = Ok decoded \<and> carries c (st_sending_header_key a) decoded f
     \<and> mf_suite_id f = st_suite_id a \<and> mf_sender_dh_pub f = dh_public (st_local_dh a) \<and> mf_msg_num f = n
     \<and> mf_pq f = pq \<and> open_fields c ad f (is_V2 decoded) key = Ok msg"
proof -
  define m where "m = \<lparr>wm_version = st_version a, wm_suite_id = st_suite_id a,
       wm_sender_dh_pub = dh_public (st_local_dh a), wm_msg_num = n,
       wm_prev_chain_len = st_prev_chain_len a, wm_pq_step_ct = pf_step_ct pq,
       wm_pq_target_pub_hash = pf_target_pub_hash pq, wm_pq_next_public_key = pf_next_public_key pq,
       wm_aead_nonce = env_nonce env, wm_ciphertext = env_ciphertext env\<rparr>"
  have "wm_encode m = Ok w" using w by (simp add: frame_v1_def m_def)
  moreover have "length (wm_aead_nonce m) = 12" "length (wm_sender_dh_pub m) = 32"
    using encrypt_with_rng_open(1) [OF assms(1,2) env] assms(3) by (simp_all add: m_def)
  ultimately have dec: "decode_wire_message w = Ok (V1 m)"
    using decode_wire_v1 wm_encode_wf by blast
  define f where "f = \<lparr>mf_wire_version = st_version a, mf_suite_id = st_suite_id a,
    mf_sender_dh_pub = dh_public (st_local_dh a), mf_msg_num = n, mf_prev_chain_len = st_prev_chain_len a,
    mf_pq = pq, mf_aead_nonce = env_nonce env, mf_ciphertext = env_ciphertext env\<rparr>"
  have "message_fields c s (V1 m) = Ok f" for s by (simp add: m_def f_def)
  then have "carries c (st_sending_header_key a) (V1 m) f" by (simp add: carries_def del: message_fields.simps)
  moreover have "open_fields c ad f False key = Ok msg"
    using ad encrypt_with_rng_open(2) [OF assms(1,2) env] v1
    by (simp add: open_fields_def f_def pad_for_wire_def)
  ultimately show ?thesis
    using dec by (intro exI [of _ "V1 m"] exI [of _ f]) (simp add: f_def)
qed

lemma session_encrypt_fields:
  assumes "hkdf_ok c" "aead_ok c" "st_sending_chain a = chain_at c ck n" "n < 0xFFFFFFFF"
    "st_version a = WIRE_VERSION" "length (dh_public (st_local_dh a)) = 32"
    and enc: "session_encrypt c msg ad a r = (Ok w, a', r')"
  obtains decoded f r1 where "decode_wire_message w = Ok decoded" "carries c (st_sending_header_key a) decoded f"
    "st_negotiated_wire_version a \<ge> WIRE_VERSION_V2 \<Longrightarrow> is_V2 decoded"
    "mf_suite_id f = st_suite_id a" "mf_sender_dh_pub f = dh_public (st_local_dh a)" "mf_msg_num f = of_nat n"
    "open_fields c ad f (is_V2 decoded) (message_key_at c ck n) = Ok msg"
    "encrypt_pq_step c (a\<lparr>st_sending_chain := chain_at c ck (Suc n)\<rparr>) (of_nat n) r = (Ok (mf_pq f), a', r1)"
proof -
  from session_encrypt_stages [OF assms(1,3,4) enc] obtain pq aad env r1 where
      pq: "encrypt_pq_step c (a\<lparr>st_sending_chain := chain_at c ck (Suc n)\<rparr>) (of_nat n) r = (Ok pq, a', r1)"
      and ad: "session_associated_data (st_version a') (st_suite_id a') (dh_public (st_local_dh a')) (of_nat n)
             (st_prev_chain_len a') pq ad = Ok aad"
      and env: "encrypt_with_rng c (message_key_at c ck n) (pad_for_wire a' msg) aad r1 = (Ok env, r')"
      and fr: "(if st_negotiated_wire_version a' \<ge> WIRE_VERSION_V2 then frame_v2 c a' (of_nat n) pq env
         else frame_v1 a' (of_nat n) pq env) = Ok w"
    by metis
  from encrypt_pq_step_frame [OF pq] obtain rk st where
      a': "a' = a\<lparr>st_sending_chain := chain_at c ck (Suc n), st_root_key := rk, st_pq_state := st\<rparr>" by metis
  have key: "length (message_key_at c ck n) = 32" using assms(1) by (rule message_key_length)
  have "length (dh_public (st_local_dh a')) = 32" "st_version a' = WIRE_VERSION" using assms a' by simp_all
  with frame_v2_sent [OF assms(2) key _ _ ad env, of w] frame_v1_sent [OF assms(2) key _ ad env, of w] fr
  obtain decoded f where "decode_wire_message w = Ok decoded" "carries c (st_sending_header_key a') decoded f"
      "st_negotiated_wire_version a' \<ge> WIRE_VERSION_V2 \<longrightarrow> is_V2 decoded"
      "mf_suite_id f = st_suite_id a'" "mf_sender_dh_pub f = dh_public (st_local_dh a')" "mf_msg_num f = of_nat n"
      "mf_pq f = pq" "open_fields c ad f (is_V2 decoded) (message_key_at c ck n) = Ok msg"
    by (auto split: if_splits)
  with that [of decoded f r1] pq show thesis by (simp add: a')
qed

lemma session_encrypt_sent:
  assumes "hkdf_ok c" "aead_ok c" "st_sending_chain a = chain_at c ck n" "n < 0xFFFFFFFF"
    "st_version a = WIRE_VERSION" "length (dh_public (st_local_dh a)) = 32"
    and v2: "st_sending_header_key a \<noteq> None \<longrightarrow> st_negotiated_wire_version a \<ge> WIRE_VERSION_V2"
    and enc: "session_encrypt c msg ad a r = (Ok w, a', r')"
  shows "sent_ok c ck (dh_public (st_local_dh a)) (st_sending_header_key a) (st_suite_id a)
    (st_pq_state a = None) n (w, msg, ad)"
proof (rule session_encrypt_fields [OF assms(1-6) enc])
  fix decoded f r1
  assume f: "decode_wire_message w = Ok decoded" "carries c (st_sending_header_key a) decoded f"
    "st_negotiated_wire_version a \<ge> WIRE_VERSION_V2 \<Longrightarrow> is_V2 decoded"
    "mf_suite_id f = st_suite_id a" "mf_sender_dh_pub f = dh_public (st_local_dh a)" "mf_msg_num f = of_nat n"
    "open_fields c ad f (is_V2 decoded) (message_key_at c ck n) = Ok msg"
    and pq: "encrypt_pq_step c (a\<lparr>st_sending_chain := chain_at c ck (Suc n)\<rparr>) (of_nat n) r = (Ok (mf_pq f), a', r1)"
  have "st_pq_state a = None \<longrightarrow> mf_pq f = no_pq" using pq by (auto simp: encrypt_pq_step_def)
  with f v2 show ?thesis unfolding sent_ok_def prod.case by (intro exI [of _ decoded] exI [of _ f]) simp
qed

subsection \<open>Delivering a message\<close>

lemma decrypt_pq_step_frame:
  assumes "decrypt_pq_step c f s = (res, s')"
  obtains rk pq where "s' = s\<lparr>st_root_key := rk, st_pq_state := pq\<rparr>"
    and "pf_step_ct (mf_pq f) = None \<Longrightarrow> res = Ok ()" and "st_pq_state s = None \<Longrightarrow> pq = None"
proof -
  have same: "s = s\<lparr>st_root_key := st_root_key s, st_pq_state := st_pq_state s\<rparr>" by simp
  show thesis
  proof (cases "pf_step_ct (mf_pq f) = None \<or> st_pq_state s = None \<or> st_pq_kem s = None")
    case True
    then have "s' = s" "pf_step_ct (mf_pq f) = None \<Longrightarrow> res = Ok ()"
      using assms by (auto simp: decrypt_pq_step_def split: option.splits)
    with same that show thesis by metis
  next
    case False
    then obtain ct st kem where some: "pf_step_ct (mf_pq f) = Some ct" "st_pq_state s = Some st" "st_pq_kem s = Some kem"
      by auto
    obtain rr st' where rr: "receiver_step c st kem (st_root_key s) ct (pf_target_pub_hash (mf_pq f))
        (pf_next_public_key (mf_pq f)) (mf_msg_num f) = (rr, st')" by fastforce
    have "s' = s\<lparr>st_root_key := (case rr of Inl e \<Rightarrow> st_root_key s | Inr k \<Rightarrow> k), st_pq_state := Some st'\<rparr>"
      using assms some rr by (cases rr) (auto simp: decrypt_pq_step_def)
    with some show thesis by (intro that) auto
  qed
qed

lemma receiver_inv_update [simp]:
  "receiver_inv c ck d m got (s\<lparr>st_root_key := rk, st_pq_state := pq\<rparr>) = receiver_inv c ck d m got s"
  by (simp add: receiver_inv_def)

definition holds_header_key :: "bytes option \<Rightarrow> SessionState \<Rightarrow> bool" where
  "holds_header_key hk s \<longleftrightarrow> st_receiving_header_key s = hk
     \<and> (hk = None \<longrightarrow> st_prev_receiving_header_key s = None)"

definition key_gone :: "bytes \<Rightarrow> nat \<Rightarrow> nat \<Rightarrow> SessionState \<Rightarrow> bool" where
  "key_gone d m i s \<longleftrightarrow> i < m \<and> kid d i \<notin> fst ` set (sm_entries (st_skipped s))"

lemma message_key_for_gone:
  assumes "receiver_inv c ck d m got b" "mf_sender_dh_pub f = d" "mf_msg_num f = of_nat i"
    and "key_gone d m i b"
  shows "message_key_for c f b = (Err MessageKeyUnavailable, b)"
proof -
  have b: "st_receiving_chain b = chain_at c ck m" "sm_inv (st_skipped b)" "m \<le> 0xFFFFFFFF"
    using assms(1) by (simp_all add: receiver_inv_def)
  have "map_of (sm_entries (st_skipped b)) (kid d i) = None"
      "snd (sm_take (kid d i) (st_skipped b)) = st_skipped b"
    using assms(4) b(2) by (simp_all add: key_gone_def map_of_eq_None_iff sm_take_missing)
  with message_key_for_old [OF b(1) _ _ assms(3) b(2)] b(3) assms(2,4) show ?thesis
    by (simp add: key_gone_def)
qed

lemma message_key_for_available:
  assumes "hkdf_ok c" "receiver_inv c ck d m got b" "mf_sender_dh_pub f = d" "mf_msg_num f = of_nat i"
    "i < 0xFFFFFFFF" and "\<not> key_gone d m i b"
  obtains ch cache where
    "message_key_for c f b = (Ok (message_key_at c ck i), b\<lparr>st_receiving_chain := ch, st_skipped := cache\<rparr>)"
    and "receiver_inv c ck d (max m (Suc i)) (insert i got) (b\<lparr>st_receiving_chain := ch, st_skipped := cache\<rparr>)"
    and "sm_max_entries cache = sm_max_entries (st_skipped b)"
proof (cases "i < m")
  case True
  have b: "st_receiving_chain b = chain_at c ck m" "sm_inv (st_skipped b)" "m \<le> 0xFFFFFFFF"
    using assms(2) by (simp_all add: receiver_inv_def)
  have "map_of (sm_entries (st_skipped b)) (kid d i) = Some (message_key_at c ck i)"
    using receiver_inv_entry(1) [OF assms(2) True] assms(6) True
    by (auto simp: key_gone_def map_of_eq_None_iff)
  with message_key_for_old [OF b(1) True _ assms(4) b(2)] b(3) assms(3)
  have "message_key_for c f b = (Ok (message_key_at c ck i),
      b\<lparr>st_receiving_chain := st_receiving_chain b, st_skipped := snd (sm_take (kid d i) (st_skipped b))\<rparr>)"
    by simp
  moreover have "max m (Suc i) = m" using True by simp
  ultimately show thesis
    using receiver_inv_take [OF assms(2) True] that [where ch = "st_receiving_chain b"]
    by (simp add: skipped.tak_cap)
next
  case False
  then have "m \<le> i" "max m (Suc i) = Suc i" by simp_all
  moreover have "st_receiving_chain b = chain_at c ck m" using assms(2) by (simp add: receiver_inv_def)
  ultimately show thesis
    using message_key_for_new [OF assms(1) _ _ assms(5,4), of b ck m] receiver_inv_skip [OF assms(2) _ assms(5)]
      assms(3) that by (simp add: skipped.ins_all_cap)
qed

text \<open>
  Whether the post-quantum step that the message \<open>w\<close> asks for goes through in the state \<open>b\<close>. A message
  without such a step always passes.
\<close>

definition pq_step_ok :: "crypto \<Rightarrow> bytes \<Rightarrow> SessionState \<Rightarrow> bool" where
  "pq_step_ok c w b = (case and_then (decode_wire_message w) (message_fields c b) of
       Inl e \<Rightarrow> False | Inr f \<Rightarrow> is_ok (fst (decrypt_pq_step c f b)))"

lemma decrypt_pq_step_result:
  "fst (decrypt_pq_step c f (b\<lparr>st_receiving_chain := ch, st_skipped := cache\<rparr>)) = fst (decrypt_pq_step c f b)"
  by (simp add: decrypt_pq_step_def split: option.split prod.split sum.split)

lemma session_decrypt_sent:
  assumes "hkdf_ok c" "receiver_inv c ck d m got b" "i < 0xFFFFFFFF" "holds_header_key hk b"
    and sent: "sent_ok c ck d hk (st_suite_id b) plain i (w, msg, ad)"
    and dec: "session_decrypt c w ad b r = (res, b', r')"
  obtains (gone) "key_gone d m i b" "res = Err MessageKeyUnavailable" "b' = b" "r' = r"
    | (opened) ch cache rk pq where "\<not> key_gone d m i b" "r' = r"
      "b' = b\<lparr>st_receiving_chain := ch, st_skipped := cache, st_root_key := rk, st_pq_state := pq\<rparr>"
      "receiver_inv c ck d (max m (Suc i)) (insert i got) b'"
      "sm_max_entries cache = sm_max_entries (st_skipped b)"
      "plain \<Longrightarrow> pq_step_ok c w b" "pq_step_ok c w b \<Longrightarrow> res = Ok msg" "\<not> pq_step_ok c w b \<Longrightarrow> \<not> is_ok res" "st_pq_state b = None \<Longrightarrow> pq = None"
proof -
  from sent obtain decoded f where f: "decode_wire_message w = Ok decoded" "message_fields c b decoded = Ok f"
      "mf_suite_id f = st_suite_id b" "mf_sender_dh_pub f = d" "mf_msg_num f = of_nat i"
      "plain \<longrightarrow> mf_pq f = no_pq"
      "open_fields c ad f (is_V2 decoded) (message_key_at c ck i) = Ok msg"
    using assms(4) unfolding sent_ok_def carries_def holds_header_key_def prod.case by (elim exE conjE) simp
  have "ratchet_if_new c f b r = (Ok (), b, r)"
    using assms(2) f(4) by (simp add: ratchet_if_new_def receiver_inv_def)
  with f(1-3) dec have run: "(case message_key_for c f b of
        (Inl e, s) \<Rightarrow> (Err e, s, r)
      | (Inr message_key, s) \<Rightarrow>
     (case open_fields c ad f (is_V2 decoded) message_key of
        Inl e \<Rightarrow> (Err e, s, r)
      | Inr plaintext \<Rightarrow>
     (case decrypt_pq_step c f s of
        (Inl e, s) \<Rightarrow> (Err e, s, r)
      | (Inr _, s) \<Rightarrow> (Ok plaintext, s, r)))) = (res, b', r')"
    by (simp add: session_decrypt_def)
  show thesis
  proof (cases "key_gone d m i b")
    case True
    from message_key_for_gone [OF assms(2) f(4,5) this] run gone [OF True] show thesis by simp
  next
    case False
    from message_key_for_available [OF assms(1,2) f(4,5) assms(3) this] obtain ch cache where
      key: "message_key_for c f b = (Ok (message_key_at c ck i), b\<lparr>st_receiving_chain := ch, st_skipped := cache\<rparr>)"
      and inv: "receiver_inv c ck d (max m (Suc i)) (insert i got) (b\<lparr>st_receiving_chain := ch, st_skipped := cache\<rparr>)"
      and cap: "sm_max_entries cache = sm_max_entries (st_skipped b)" by metis
    obtain pr s' where p: "decrypt_pq_step c f (b\<lparr>st_receiving_chain := ch, st_skipped := cache\<rparr>) = (pr, s')"
      by fastforce
    show thesis
    proof (rule decrypt_pq_step_frame [OF p])
      fix rk pq
      assume s': "s' = b\<lparr>st_receiving_chain := ch, st_skipped := cache, st_root_key := rk, st_pq_state := pq\<rparr>"
        and pr: "pf_step_ct (mf_pq f) = None \<Longrightarrow> pr = Ok ()"
        and pq: "st_pq_state (b\<lparr>st_receiving_chain := ch, st_skipped := cache\<rparr>) = None \<Longrightarrow> pq = None"
      have res: "b' = s'" "r' = r" "res = and_then pr (\<lambda>_. Ok msg)"
        using run f(7) by (auto simp: key p split: sum.splits)
      show thesis
      proof (rule opened [OF False res(2)])
        show "b' = b\<lparr>st_receiving_chain := ch, st_skipped := cache, st_root_key := rk, st_pq_state := pq\<rparr>"
          using res(1) s' by simp
        show "receiver_inv c ck d (max m (Suc i)) (insert i got) b'" using inv by (simp add: res(1) s')
        have ok: "pq_step_ok c w b \<longleftrightarrow> is_ok pr"
          using decrypt_pq_step_result [where c = c and f = f and b = b and ch = ch and cache = cache] f(1,2)
          by (simp add: p pq_step_ok_def del: message_fields.simps)
        show "plain \<Longrightarrow> pq_step_ok c w b" using f(6) pr ok by (simp add: no_pq_def)
        show "pq_step_ok c w b \<Longrightarrow> res = Ok msg" "\<not> pq_step_ok c w b \<Longrightarrow> \<not> is_ok res"
          using ok res(3) by (cases pr; simp)+
        show "st_pq_state b = None \<Longrightarrow> pq = None" using pq by simp
      qed (rule cap)
    qed
  qed
qed

end
