(* ===== verification/Session_Pair.thy ===== *)
theory Session_Pair
  imports Session_Props
begin

text \<open>
  Two sessions that come out of one handshake, as a transition system: either party may send, and
  any message sent so far may be handed to the other party at any time, again and in any order.
  The invariant of the system holds for both wire versions and with the post-quantum ratchet on or
  off; the theorems about delivery, replay and the key schedule follow from it.
\<close>

subsection \<open>The system\<close>

fun peer :: "SessionRole \<Rightarrow> SessionRole" where
  "peer Initiator = Responder"
| "peer Responder = Initiator"

lemma peer_simps [simp]: "peer (peer x) = x" "peer x \<noteq> x" "x \<noteq> peer x"
  by (cases x; simp)+

lemma not_peer: "y \<noteq> peer x \<longleftrightarrow> y = x"
  by (cases x; cases y) simp_all

text \<open>
  \<open>sent p x\<close> holds the messages party \<open>x\<close> has produced, by message number, with the plaintext and
  the associated data; \<open>got p x\<close> the numbers that have been handed to its peer.
\<close>

record pair_state =
  party :: "SessionRole \<Rightarrow> SessionState"
  sent :: "SessionRole \<Rightarrow> nat \<rightharpoonup> bytes \<times> bytes \<times> bytes"
  got :: "SessionRole \<Rightarrow> nat set"

definition log_send ::
  "SessionState \<Rightarrow> bytes result \<Rightarrow> bytes \<Rightarrow> bytes \<Rightarrow> (nat \<rightharpoonup> bytes \<times> bytes \<times> bytes) \<Rightarrow> (nat \<rightharpoonup> bytes \<times> bytes \<times> bytes)"
where
  "log_send s res msg ad l = (case res of Inl e \<Rightarrow> l
     | Inr w \<Rightarrow> l(unat (next_msg_num (st_sending_chain s)) \<mapsto> (w, msg, ad)))"

definition start_state :: "(SessionRole \<Rightarrow> SessionState) \<Rightarrow> pair_state" where
  "start_state s0 = \<lparr>party = s0, sent = (\<lambda>_. Map.empty), got = (\<lambda>_. {})\<rparr>"

inductive run :: "crypto \<Rightarrow> (SessionRole \<Rightarrow> SessionState) \<Rightarrow> pair_state \<Rightarrow> bool" for c s0 where
  start: "run c s0 (start_state s0)"
| send: "run c s0 p \<Longrightarrow> session_encrypt c msg ad (party p x) r = (res, s', r') \<Longrightarrow>
    run c s0 (p\<lparr>party := (party p)(x := s'),
                sent := (sent p)(x := log_send (party p x) res msg ad (sent p x))\<rparr>)"
| deliver: "run c s0 p \<Longrightarrow> sent p x i = Some (w, msg, ad) \<Longrightarrow>
    session_decrypt c w ad (party p (peer x)) r = (res, s', r') \<Longrightarrow>
    run c s0 (p\<lparr>party := (party p)(peer x := s'), got := (got p)(x := insert i (got p x))\<rparr>)"

inductive_cases run_startE: "run c s0 (start_state s0)"

subsection \<open>One direction of the conversation\<close>

definition sender_inv ::
  "crypto \<Rightarrow> bytes \<Rightarrow> bytes \<Rightarrow> bytes option \<Rightarrow> u16 \<Rightarrow> bool \<Rightarrow> nat \<Rightarrow> SessionState
     \<Rightarrow> (nat \<rightharpoonup> bytes \<times> bytes \<times> bytes) \<Rightarrow> bool" where
  "sender_inv c ck d hk sid plain n a l \<longleftrightarrow>
     st_sending_chain a = chain_at c ck n \<and> n \<le> 0xFFFFFFFF
     \<and> dh_public (st_local_dh a) = d \<and> length d = 32 \<and> st_sending_header_key a = hk
     \<and> st_suite_id a = sid \<and> st_version a = WIRE_VERSION \<and> (plain \<longrightarrow> st_pq_state a = None)
     \<and> (hk \<noteq> None \<longrightarrow> st_negotiated_wire_version a \<ge> WIRE_VERSION_V2)
     \<and> (\<forall>i x. l i = Some x \<longrightarrow> i < n \<and> sent_ok c ck d hk sid plain i x)"

definition listener_inv ::
  "crypto \<Rightarrow> bytes \<Rightarrow> bytes \<Rightarrow> bytes option \<Rightarrow> u16 \<Rightarrow> nat \<Rightarrow> nat \<Rightarrow> nat set \<Rightarrow> SessionState \<Rightarrow> bool" where
  "listener_inv c ck d hk sid cap m g b \<longleftrightarrow>
     st_suite_id b = sid \<and> holds_header_key hk b \<and> sm_max_entries (st_skipped b) = cap
     \<and> receiver_inv c ck d m g b"

definition dir_inv ::
  "crypto \<Rightarrow> bytes \<Rightarrow> bytes \<Rightarrow> bytes option \<Rightarrow> u16 \<Rightarrow> bool \<Rightarrow> nat \<Rightarrow> SessionState \<Rightarrow> SessionState
     \<Rightarrow> (nat \<rightharpoonup> bytes \<times> bytes \<times> bytes) \<Rightarrow> nat set \<Rightarrow> bool" where
  "dir_inv c ck d hk sid plain cap a b l g \<longleftrightarrow>
     (\<exists>n m. m \<le> n \<and> sender_inv c ck d hk sid plain n a l \<and> listener_inv c ck d hk sid cap m g b)"

lemma dir_inv_sender_update:
  "dir_inv c ck d hk sid plain cap a b l g \<Longrightarrow> (plain \<Longrightarrow> pq = None) \<Longrightarrow>
   dir_inv c ck d hk sid plain cap
     (a\<lparr>st_receiving_chain := ch, st_skipped := cache, st_root_key := rk, st_pq_state := pq\<rparr>) b l g"
proof -
  assume "dir_inv c ck d hk sid plain cap a b l g" and pq: "plain \<Longrightarrow> pq = None"
  then obtain n m where "m \<le> n" "sender_inv c ck d hk sid plain n a l" "listener_inv c ck d hk sid cap m g b"
    unfolding dir_inv_def by blast
  moreover have "sender_inv c ck d hk sid plain n
      (a\<lparr>st_receiving_chain := ch, st_skipped := cache, st_root_key := rk, st_pq_state := pq\<rparr>) l"
    using calculation(2) pq by (simp add: sender_inv_def)
  ultimately show ?thesis unfolding dir_inv_def by blast
qed

lemma dir_inv_receiver_update:
  "dir_inv c ck d hk sid plain cap a b l g \<Longrightarrow>
   dir_inv c ck d hk sid plain cap a
     (b\<lparr>st_sending_chain := ch, st_root_key := rk, st_pq_state := pq\<rparr>) l g"
  by (simp add: dir_inv_def listener_inv_def receiver_inv_def holds_header_key_def)

lemma sent_ok_mono: "sent_ok c ck d hk sid p i x \<Longrightarrow> q \<longrightarrow> p \<Longrightarrow> sent_ok c ck d hk sid q i x"
  by (cases x) (simp only: sent_ok_def prod.case, blast)

lemma sender_inv_send:
  assumes "hkdf_ok c" "aead_ok c" and inv: "sender_inv c ck d hk sid plain n a l"
    and enc: "session_encrypt c msg ad a r = (res, a', r')"
  obtains (exhausted) "a' = a" "log_send a res msg ad l = l"
    | (step) rk pq where "sender_inv c ck d hk sid plain (Suc n) a' (log_send a res msg ad l)"
      "a' = a\<lparr>st_sending_chain := chain_at c ck (Suc n), st_root_key := rk, st_pq_state := pq\<rparr>"
proof -
  have a: "st_sending_chain a = chain_at c ck n" "n \<le> 0xFFFFFFFF" "dh_public (st_local_dh a) = d"
      "length d = 32" "st_sending_header_key a = hk" "st_suite_id a = sid" "st_version a = WIRE_VERSION"
    and plain: "plain \<longrightarrow> st_pq_state a = None"
    and v2: "hk \<noteq> None \<longrightarrow> st_negotiated_wire_version a \<ge> WIRE_VERSION_V2"
    and l: "\<And>i x. l i = Some x \<Longrightarrow> i < n \<and> sent_ok c ck d hk sid plain i x"
    using inv unfolding sender_inv_def by blast+
  show thesis
  proof (rule session_encrypt_frame [OF assms(1) a(1,2) enc])
    assume "a' = a" "\<not> is_ok res"
    then show thesis by (cases res) (auto simp: log_send_def intro: exhausted)
  next
    fix rk pq
    assume lt: "n < 0xFFFFFFFF" and pq: "st_pq_state a = None \<Longrightarrow> pq = None"
      and a': "a' = a\<lparr>st_sending_chain := chain_at c ck (Suc n), st_root_key := rk, st_pq_state := pq\<rparr>"
    have "sent_ok c ck d hk sid (st_pq_state a = None) n (w, msg, ad)" if "res = Ok w" for w
      using session_encrypt_sent [OF assms(1,2) a(1) lt a(7)] a(3-6) v2 enc that by simp
    then have new: "sent_ok c ck d hk sid plain n (w, msg, ad)" if "res = Ok w" for w
      using plain that by (blast intro: sent_ok_mono)
    have num: "unat (next_msg_num (st_sending_chain a)) = n" using a(1,2) by (simp add: unat_of_nat)
    have "i < Suc n \<and> sent_ok c ck d hk sid plain i x" if "log_send a res msg ad l i = Some x" for i x
      using that l [of i x] new by (cases res) (auto simp: log_send_def num split: if_splits)
    then show thesis
      using a plain v2 lt pq by (intro step [OF _ a']) (simp add: sender_inv_def a')
  qed
qed

lemma dir_inv_send:
  assumes "hkdf_ok c" "aead_ok c" and inv: "dir_inv c ck d hk sid plain cap a b l g"
    and enc: "session_encrypt c msg ad a r = (res, a', r')"
  shows "dir_inv c ck d hk sid plain cap a' b (log_send a res msg ad l) g
    \<and> (\<exists>ch rk pq. a' = a\<lparr>st_sending_chain := ch, st_root_key := rk, st_pq_state := pq\<rparr>)"
proof -
  from inv obtain n m where nm: "m \<le> n" "sender_inv c ck d hk sid plain n a l"
      "listener_inv c ck d hk sid cap m g b"
    unfolding dir_inv_def by blast
  show ?thesis
  proof (rule sender_inv_send [OF assms(1,2) nm(2) enc])
    assume same: "a' = a" "log_send a res msg ad l = l"
    have "a = a\<lparr>st_sending_chain := st_sending_chain a, st_root_key := st_root_key a,
        st_pq_state := st_pq_state a\<rparr>" by simp
    with inv same show ?thesis by metis
  next
    fix rk pq
    assume "sender_inv c ck d hk sid plain (Suc n) a' (log_send a res msg ad l)"
      and a': "a' = a\<lparr>st_sending_chain := chain_at c ck (Suc n), st_root_key := rk, st_pq_state := pq\<rparr>"
    moreover have "m \<le> Suc n" using nm(1) by simp
    ultimately have "dir_inv c ck d hk sid plain cap a' b (log_send a res msg ad l) g"
      using nm(3) unfolding dir_inv_def by blast
    then show ?thesis
      using a' by (intro conjI exI [of _ "chain_at c ck (Suc n)"] exI [of _ rk] exI [of _ pq]) simp_all
  qed
qed

lemma dir_inv_deliver:
  assumes "hkdf_ok c" and inv: "dir_inv c ck d hk sid plain cap a b l g"
    and msg: "l i = Some (w, msg, ad)" and dec: "session_decrypt c w ad b r = (res, b', r')"
  shows "dir_inv c ck d hk sid plain cap a b' l (insert i g)
    \<and> (\<exists>ch cache rk pq. (st_pq_state b = None \<longrightarrow> pq = None) \<and>
        b' = b\<lparr>st_receiving_chain := ch, st_skipped := cache, st_root_key := rk, st_pq_state := pq\<rparr>)"
proof -
  from inv obtain n m where nm: "m \<le> n" and snd: "sender_inv c ck d hk sid plain n a l"
      and lst: "listener_inv c ck d hk sid cap m g b"
    unfolding dir_inv_def by blast
  have i: "i < n \<and> sent_ok c ck d hk (st_suite_id b) plain i (w, msg, ad)" and "n \<le> 0xFFFFFFFF"
  proof -
    have l: "l j = Some x \<Longrightarrow> j < n \<and> sent_ok c ck d hk sid plain j x" for j x
      using snd unfolding sender_inv_def by blast
    show "i < n \<and> sent_ok c ck d hk (st_suite_id b) plain i (w, msg, ad)"
      using l [OF msg] lst by (simp add: listener_inv_def)
    show "n \<le> 0xFFFFFFFF" using snd by (simp add: sender_inv_def)
  qed
  then have lt: "i < 0xFFFFFFFF" by simp
  have b: "receiver_inv c ck d m g b" "holds_header_key hk b" using lst by (simp_all add: listener_inv_def)
  show ?thesis
  proof (rule session_decrypt_sent [OF assms(1) b(1) lt b(2) conjunct2 [OF i] dec])
    assume gone: "key_gone d m i b" "b' = b"
    have "receiver_inv c ck d m (insert i g) b"
      using receiver_inv_take [OF b(1), of i] gone(1) b(1) sm_take_missing [of "st_skipped b" "kid d i"]
      by (simp add: key_gone_def receiver_inv_def)
    then have "listener_inv c ck d hk sid cap m (insert i g) b'"
      using lst gone(2) by (simp add: listener_inv_def)
    with nm snd have "dir_inv c ck d hk sid plain cap a b' l (insert i g)"
      unfolding dir_inv_def by blast
    then show ?thesis
      using gone(2) by (intro conjI exI [of _ "st_receiving_chain b"] exI [of _ "st_skipped b"]
          exI [of _ "st_root_key b"] exI [of _ "st_pq_state b"]) simp_all
  next
    fix ch cache rk pq
    assume opened: "b' = b\<lparr>st_receiving_chain := ch, st_skipped := cache, st_root_key := rk, st_pq_state := pq\<rparr>"
      "receiver_inv c ck d (max m (Suc i)) (insert i g) b'"
      "sm_max_entries cache = sm_max_entries (st_skipped b)" "st_pq_state b = None \<Longrightarrow> pq = None"
    then have "listener_inv c ck d hk sid cap (max m (Suc i)) (insert i g) b'"
      using lst by (simp add: listener_inv_def holds_header_key_def)
    moreover have "max m (Suc i) \<le> n" using nm i by simp
    ultimately have "dir_inv c ck d hk sid plain cap a b' l (insert i g)"
      using snd unfolding dir_inv_def by blast
    then show ?thesis
      using opened(1,4) by (intro conjI exI [of _ ch] exI [of _ cache] exI [of _ rk] exI [of _ pq]) simp_all
  qed
qed

subsection \<open>The invariant of the pair\<close>

definition pair_inv ::
  "crypto \<Rightarrow> (SessionRole \<Rightarrow> bytes) \<Rightarrow> (SessionRole \<Rightarrow> bytes) \<Rightarrow> (SessionRole \<Rightarrow> bytes option) \<Rightarrow> u16
     \<Rightarrow> bool \<Rightarrow> nat \<Rightarrow> pair_state \<Rightarrow> bool" where
  "pair_inv c ck d hk sid plain cap p \<longleftrightarrow> (\<forall>x. dir_inv c (ck x) (d x) (hk x) sid plain cap
     (party p x) (party p (peer x)) (sent p x) (got p x))"

lemma pair_inv_send:
  assumes "hkdf_ok c" "aead_ok c" and inv: "pair_inv c ck d hk sid plain cap p"
    and enc: "session_encrypt c msg ad (party p x) r = (res, s', r')"
  shows "pair_inv c ck d hk sid plain cap (p\<lparr>party := (party p)(x := s'),
           sent := (sent p)(x := log_send (party p x) res msg ad (sent p x))\<rparr>)"
  unfolding pair_inv_def
proof
  fix y
  have d: "dir_inv c (ck z) (d z) (hk z) sid plain cap (party p z) (party p (peer z)) (sent p z) (got p z)" for z
    using inv by (simp add: pair_inv_def)
  from dir_inv_send [OF assms(1,2) d enc] obtain ch rk pq where
      new: "dir_inv c (ck x) (d x) (hk x) sid plain cap s' (party p (peer x))
        (log_send (party p x) res msg ad (sent p x)) (got p x)"
      and s': "s' = (party p x)\<lparr>st_sending_chain := ch, st_root_key := rk, st_pq_state := pq\<rparr>"
    by (elim conjE exE) (rule that)
  show "dir_inv c (ck y) (d y) (hk y) sid plain cap
      (party (p\<lparr>party := (party p)(x := s'), sent := (sent p)(x := log_send (party p x) res msg ad (sent p x))\<rparr>) y)
      (party (p\<lparr>party := (party p)(x := s'), sent := (sent p)(x := log_send (party p x) res msg ad (sent p x))\<rparr>) (peer y))
      (sent (p\<lparr>party := (party p)(x := s'), sent := (sent p)(x := log_send (party p x) res msg ad (sent p x))\<rparr>) y)
      (got (p\<lparr>party := (party p)(x := s'), sent := (sent p)(x := log_send (party p x) res msg ad (sent p x))\<rparr>) y)"
  proof (cases "y = x")
    case True
    with new show ?thesis by simp
  next
    case False
    then have "peer y = x" using not_peer by (metis peer_simps(1))
    with False dir_inv_receiver_update [OF d [of y], where ch = ch and rk = rk and pq = pq] s' show ?thesis by simp
  qed
qed

lemma pair_inv_deliver:
  assumes "hkdf_ok c" and inv: "pair_inv c ck d hk sid plain cap p"
    and msg: "sent p x i = Some (w, msg, ad)"
    and dec: "session_decrypt c w ad (party p (peer x)) r = (res, s', r')"
  shows "pair_inv c ck d hk sid plain cap
    (p\<lparr>party := (party p)(peer x := s'), got := (got p)(x := insert i (got p x))\<rparr>)" (is "pair_inv _ _ _ _ _ _ _ ?q")
  unfolding pair_inv_def
proof
  fix y
  have d: "dir_inv c (ck z) (d z) (hk z) sid plain cap (party p z) (party p (peer z)) (sent p z) (got p z)" for z
    using inv by (simp add: pair_inv_def)
  from dir_inv_deliver [OF assms(1) d msg dec] obtain ch cache rk pq where
      new: "dir_inv c (ck x) (d x) (hk x) sid plain cap (party p x) s' (sent p x) (insert i (got p x))"
      and s': "s' = (party p (peer x))\<lparr>st_receiving_chain := ch, st_skipped := cache, st_root_key := rk,
        st_pq_state := pq\<rparr>"
      and pq: "st_pq_state (party p (peer x)) = None \<longrightarrow> pq = None"
    by (elim conjE exE) (rule that)
  show "dir_inv c (ck y) (d y) (hk y) sid plain cap (party ?q y) (party ?q (peer y)) (sent ?q y) (got ?q y)"
  proof (cases "y = x")
    case True
    with new show ?thesis by simp
  next
    case False
    then have y: "y = peer x" using not_peer by metis
    have "plain \<Longrightarrow> pq = None"
    proof -
      assume plain
      with d [of "peer x"] have "st_pq_state (party p (peer x)) = None"
        by (auto simp only: dir_inv_def sender_inv_def)
      with pq show ?thesis by simp
    qed
    from dir_inv_sender_update [OF d [of "peer x"] this, where ch = ch and cache = cache and rk = rk] y s' show ?thesis by simp
  qed
qed

lemma run_inv:
  assumes "run c s0 p" "hkdf_ok c" "aead_ok c" "pair_inv c ck d hk sid plain cap (start_state s0)"
  shows "pair_inv c ck d hk sid plain cap p"
  using assms(1)
proof (induction rule: run.induct)
  case start
  show ?case by (rule assms(4))
next
  case (send p msg ad x r res s' r')
  show ?case by (rule pair_inv_send [OF assms(2,3) send.IH send.hyps(2)])
next
  case (deliver p x i w msg ad r res s' r')
  show ?case by (rule pair_inv_deliver [OF assms(2) deliver.IH deliver.hyps(2,3)])
qed

subsection \<open>Sessions out of one handshake\<close>

definition session_pair ::
  "crypto \<Rightarrow> bytes \<Rightarrow> (SessionRole \<Rightarrow> DhKeyPair) \<Rightarrow> u16 \<Rightarrow> u16 \<Rightarrow> usize \<Rightarrow> (SessionRole \<Rightarrow> SessionState) \<Rightarrow> bool"
where
  "session_pair c rk kp sid wv mx s \<longleftrightarrow>
     (\<forall>x. length (dh_public (kp x)) = 32
        \<and> from_handshake_with_suite_and_wire_version c x rk (kp x) (dh_public (kp (peer x))) sid wv mx = Ok (s x))"

text \<open>The same sessions, possibly with the post-quantum ratchet switched on for either party.\<close>

definition pq_variant :: "(SessionRole \<Rightarrow> SessionState) \<Rightarrow> (SessionRole \<Rightarrow> SessionState) \<Rightarrow> bool" where
  "pq_variant s s0 \<longleftrightarrow> (\<forall>x. s0 x = s x \<or> (\<exists>st kem. s0 x = enable_pq_ratchet st kem (s x)))"

definition init_key :: "crypto \<Rightarrow> bytes \<Rightarrow> bytes \<Rightarrow> bytes" where
  "init_key c rk info = the (hkdf_expand c None rk info 32)"

definition send_chain_key :: "crypto \<Rightarrow> bytes \<Rightarrow> SessionRole \<Rightarrow> bytes" where
  "send_chain_key c rk x = init_key c rk (fst (chain_infos x))"

definition send_header_key :: "crypto \<Rightarrow> bytes \<Rightarrow> u16 \<Rightarrow> SessionRole \<Rightarrow> bytes option" where
  "send_header_key c rk wv x =
     (if wv \<ge> WIRE_VERSION_V2 then Some (init_key c rk (fst (header_infos x))) else None)"

lemma infos_peer: "snd (chain_infos x) = fst (chain_infos (peer x))" "snd (header_infos x) = fst (header_infos (peer x))"
  by (cases x; simp)+

lemma hkdf_sha256_32_init: "hkdf_ok c \<Longrightarrow> hkdf_sha256_32 c rk None info = Ok (init_key c rk info)"
  by (rule hkdf_ok_Some [of c 32 None rk info]) (auto simp: hkdf_sha256_32_def init_key_def)

definition initial_session ::
  "crypto \<Rightarrow> SessionRole \<Rightarrow> bytes \<Rightarrow> DhKeyPair \<Rightarrow> bytes \<Rightarrow> u16 \<Rightarrow> u16 \<Rightarrow> usize \<Rightarrow> SessionState" where
  "initial_session c x rk kp rd sid wv mx =
     \<lparr>st_version = WIRE_VERSION, st_suite_id = sid, st_negotiated_wire_version = wv, st_root_key = rk,
         st_sending_chain = chain_new (send_chain_key c rk x),
         st_receiving_chain = chain_new (send_chain_key c rk (peer x)),
         st_local_dh = kp, st_remote_dh_pub = rd, st_prev_chain_len = 0, st_skipped = sm_new mx,
         st_pq_state = None, st_pq_kem = None, st_sending_header_key = send_header_key c rk wv x,
         st_receiving_header_key = send_header_key c rk wv (peer x), st_prev_receiving_header_key = None\<rparr>"

lemma from_handshake_eq:
  "hkdf_ok c \<Longrightarrow> from_handshake_with_suite_and_wire_version c x rk kp rd sid wv mx =
     Ok (initial_session c x rk kp rd sid wv mx)"
  by (simp add: from_handshake_with_suite_and_wire_version_def hkdf_sha256_32_init infos_peer
      send_chain_key_def send_header_key_def initial_session_def)

lemma session_pair_eq:
  assumes "hkdf_ok c" "session_pair c rk kp sid wv mx s"
  shows "s x = initial_session c x rk (kp x) (dh_public (kp (peer x))) sid wv mx"
    and "length (dh_public (kp x)) = 32"
proof -
  have "from_handshake_with_suite_and_wire_version c x rk (kp x) (dh_public (kp (peer x))) sid wv mx = Ok (s x)"
    and "length (dh_public (kp x)) = 32"
    using assms(2) by (simp_all add: session_pair_def)
  then show "s x = initial_session c x rk (kp x) (dh_public (kp (peer x))) sid wv mx"
    and "length (dh_public (kp x)) = 32"
    by (simp_all add: from_handshake_eq [OF assms(1)])
qed

lemma session_pair_exists:
  assumes "hkdf_ok c" "\<forall>x. length (dh_public (kp x)) = 32"
  shows "\<exists>s. session_pair c rk kp sid wv mx s"
  using assms unfolding session_pair_def from_handshake_eq [OF assms(1)]
  by (intro exI [of _ "\<lambda>x. initial_session c x rk (kp x) (dh_public (kp (peer x))) sid wv mx"]) simp

lemma start_inv:
  assumes "hkdf_ok c" "session_pair c rk kp sid wv mx s" "pq_variant s s0" "plain \<longrightarrow> s0 = s"
  shows "pair_inv c (send_chain_key c rk) (\<lambda>x. dh_public (kp x)) (send_header_key c rk wv) sid plain
    (min mx MAX_SKIPPED_KEYS_UPPER_BOUND) (start_state s0)"
  unfolding pair_inv_def
proof
  fix x
  note s = session_pair_eq [OF assms(1,2)]
  have v: "s0 y = s y \<or> (\<exists>st kem. s0 y = enable_pq_ratchet st kem (s y))" for y
    using assms(3) by (simp add: pq_variant_def)
  have "sender_inv c (send_chain_key c rk x) (dh_public (kp x)) (send_header_key c rk wv x) sid plain 0 (s0 x) Map.empty"
    using v [of x] assms(4) s(2)
    by (auto simp: sender_inv_def s(1) initial_session_def chain_at_new [of _ c] enable_pq_ratchet_def send_header_key_def)
  moreover have "listener_inv c (send_chain_key c rk x) (dh_public (kp x)) (send_header_key c rk wv x) sid
      (min mx MAX_SKIPPED_KEYS_UPPER_BOUND) 0 {} (s0 (peer x))"
    using v [of "peer x"]
    by (auto simp: listener_inv_def receiver_inv_def holds_header_key_def s(1) initial_session_def
        chain_at_new [of _ c] enable_pq_ratchet_def skipped.new_inv skipped.new_ents skipped.new_cap)
  ultimately show "dir_inv c (send_chain_key c rk x) (dh_public (kp x)) (send_header_key c rk wv x) sid plain
      (min mx MAX_SKIPPED_KEYS_UPPER_BOUND) (party (start_state s0) x) (party (start_state s0) (peer x))
      (sent (start_state s0) x) (got (start_state s0) x)"
    unfolding dir_inv_def start_state_def by auto
qed

lemma reachable_inv:
  assumes "hkdf_ok c" "aead_ok c" "session_pair c rk kp sid wv mx s" "pq_variant s s0" "plain \<longrightarrow> s0 = s"
    and "run c s0 p"
  obtains n m where "m \<le> n"
    and "sender_inv c (send_chain_key c rk x) (dh_public (kp x)) (send_header_key c rk wv x) sid plain n
          (party p x) (sent p x)"
    and "listener_inv c (send_chain_key c rk x) (dh_public (kp x)) (send_header_key c rk wv x) sid
          (min mx MAX_SKIPPED_KEYS_UPPER_BOUND) m (got p x) (party p (peer x))"
  using run_inv [OF assms(6,1,2) start_inv [OF assms(1,3,4,5)]] unfolding pair_inv_def dir_inv_def by blast

end
