(* ===== verification/Session_Delivery.thy ===== *)
theory Session_Delivery
  imports Session_Pair
begin

text \<open>
  When a message goes through. Encryption succeeds within the limits of the formats, with the
  post-quantum ratchet on or off; a message that was sent decrypts to its plaintext exactly when
  the receiver has its key and its post-quantum step goes through.
\<close>

subsection \<open>Encryption succeeds\<close>

text \<open>Post-quantum fields that fit into the encrypted header, and key encapsulation with such keys and ciphertexts.\<close>

definition pq_fits :: "PqFields \<Rightarrow> bool" where
  "pq_fits f \<longleftrightarrow> (\<forall>v \<in> set_option (pf_step_ct f). length v \<le> 30000) \<and> (\<forall>v \<in> set_option (pf_target_pub_hash f). length v = 32)
     \<and> (\<forall>v \<in> set_option (pf_next_public_key f). length v \<le> 30000)"

definition kem_small :: "kem_provider \<Rightarrow> bool" where
  "kem_small k \<longleftrightarrow> (\<forall>r kp r'. kem_keypair k r = (Ok kp, r') \<longrightarrow> length (kp_public_key kp) \<le> 30000)
     \<and> (\<forall>pk r e r'. kem_encapsulate k pk r = (Ok e, r') \<longrightarrow> length (enc_ciphertext e) \<le> 30000)"

lemma pq_fits_no_pq [simp]: "pq_fits no_pq"
  by (simp add: pq_fits_def no_pq_def)

lemma pq_fits_values:
  assumes "pq_fits f"
  shows "\<forall>v \<in> set_option (pf_step_ct f). length v \<le> 65535" "\<forall>v \<in> set_option (pf_target_pub_hash f). length v \<le> 65535"
    "\<forall>v \<in> set_option (pf_next_public_key f). length v \<le> 65535"
  using assms by (fastforce simp: pq_fits_def)+

lemma session_ad_total:
  assumes "length d = 32" "length ad \<le> 65535" "pq_fits f"
  shows "\<exists>aad. session_associated_data v sid d n pn f ad = Ok aad"
  using assms(1,2) pq_fits_values [OF assms(3)]
  by (simp add: session_associated_data_def session_ad_records_def encode_fits)

lemma hp_encode_total:
  assumes "length d = 32" "pq_fits f"
  shows "\<exists>hb. hp_encode \<lparr>hp_sender_dh_pub = d, hp_msg_num = n, hp_prev_chain_len = pn,
    hp_pq_step_ct = pf_step_ct f, hp_pq_target_pub_hash = pf_target_pub_hash f,
    hp_pq_next_public_key = pf_next_public_key f\<rparr> = Ok hb \<and> length hb \<le> 65535"
  using assms pq_fits_values [OF assms(2)]
  by (cases "pf_step_ct f"; cases "pf_target_pub_hash f"; cases "pf_next_public_key f")
     (simp_all add: hp_encode_def hp_records_def encode_fits record_bytes_def pq_fits_def)

lemma session_encrypt_total:
  assumes "hkdf_ok c" "aead_ok c" "st_sending_chain a = chain_at c ck n" "n < 0xFFFFFFFF" "length (dh_public (st_local_dh a)) = 32"
    and pq: "encrypt_pq_step c (a\<lparr>st_sending_chain := chain_at c ck (Suc n)\<rparr>) (of_nat n) r = (Ok f, a1, r1)" and pf: "pq_fits f"
    and fit: "length (pad_for_wire a msg) + 16 \<le> 65535" "length ad \<le> 65535"
  shows "\<exists>w a' r'. session_encrypt c msg ad a r = (Ok w, a', r')"
proof -
  have key: "next_message_key c (st_sending_chain a) = (Ok (of_nat n, message_key_at c ck n), chain_at c ck (Suc n))"
    using assms(1,3,4) by (simp add: next_message_key_chain)
  obtain rk q where a1: "a1 = a\<lparr>st_sending_chain := chain_at c ck (Suc n), st_root_key := rk, st_pq_state := q\<rparr>"
    using encrypt_pq_step_frame [OF pq] by metis
  have d: "length (dh_public (st_local_dh a1)) = 32" using assms(5) by (simp add: a1)
  obtain aad where aad: "session_associated_data (st_version a1) (st_suite_id a1) (dh_public (st_local_dh a1))
      (of_nat n) (st_prev_chain_len a1) f ad = Ok aad"
    using session_ad_total [OF d fit(2) pf] by metis
  have pad: "pad_for_wire a1 msg = pad_for_wire a msg" by (simp add: pad_for_wire_def a1)
  obtain ct where env: "encrypt_with_rng c (message_key_at c ck n) (pad_for_wire a msg) aad r1
      = (Ok \<lparr>env_nonce = stake 12 r1, env_ciphertext = ct, env_aad = aad\<rparr>, sdrop 12 r1)"
    and ct: "length ct \<le> 65535"
  proof (rule aead_encrypt_Ok [OF assms(2) message_key_length [OF assms(1), of ck n],
        of "stake 12 r1" "pad_for_wire a msg" aad])
    show "length (stake 12 r1) = 12" by simp
    show "length (pad_for_wire a msg) < aead_max" using fit(1) by (simp add: aead_max_def)
  qed (use fit(1) that in \<open>simp add: encrypt_with_rng_def fill_bytes_def\<close>)
  let ?env = "\<lparr>env_nonce = stake 12 r1, env_ciphertext = ct, env_aad = aad\<rparr>"
  have v1: "\<exists>w. frame_v1 a1 (of_nat n) f ?env = Ok w"
    using ct d pq_fits_values [OF pf] by (simp add: frame_v1_def wm_encode_def wm_records_def encode_fits)
  obtain hb where hb: "hp_encode \<lparr>hp_sender_dh_pub = dh_public (st_local_dh a1), hp_msg_num = of_nat n,
      hp_prev_chain_len = st_prev_chain_len a1, hp_pq_step_ct = pf_step_ct f, hp_pq_target_pub_hash = pf_target_pub_hash f,
      hp_pq_next_public_key = pf_next_public_key f\<rparr> = Ok hb" "length hb \<le> 65535"
    using hp_encode_total [OF d pf] by metis
  have v2: "\<exists>w. frame_v2 c a1 (of_nat n) f ?env = Ok w"
    using ct hb by (simp add: frame_v2_def w2_encode_def w2_records_def encode_fits split: option.splits)
  from key pq aad env v1 v2 show ?thesis
    by (auto simp: session_encrypt_def pad)
qed

subsection \<open>The post-quantum step\<close>

text \<open>
  Party \<open>b\<close> is ready for a post-quantum step of \<open>a\<close>: the ratchet of
  \<open>a\<close> is off, or both use one key encapsulation mechanism and \<open>b\<close> still has, as
  its current key or in its history, the secret key of the public key to which \<open>a\<close>
  encapsulates.
\<close>

definition pq_ready :: "crypto \<Rightarrow> SessionState \<Rightarrow> SessionState \<Rightarrow> bool" where
  "pq_ready c a b \<longleftrightarrow> (case (st_pq_state a, st_pq_kem a) of
       (Some sa, Some kem) \<Rightarrow> sha256_ok c \<and> kem_ok kem \<and> kem_small kem \<and> st_pq_kem b = Some kem
         \<and> (\<exists>sb sk. st_pq_state b = Some sb
              \<and> select_local_secret_key c sb (Some (hash_public_key c (pq_remote_public_key sa))) = Ok sk
              \<and> kem_pair_ok kem (pq_remote_public_key sa) sk)
     | _ \<Rightarrow> True)"

lemma pq_ready_cases:
  assumes "pq_ready c a b"
  obtains (off) "st_pq_state a = None \<or> st_pq_kem a = None"
    | (on) sa kem sb sk where "st_pq_state a = Some sa" "st_pq_kem a = Some kem" "sha256_ok c" "kem_ok kem" "kem_small kem"
      "st_pq_kem b = Some kem" "st_pq_state b = Some sb"
      "select_local_secret_key c sb (Some (hash_public_key c (pq_remote_public_key sa))) = Ok sk"
      "kem_pair_ok kem (pq_remote_public_key sa) sk"
  using assms by (cases "st_pq_state a"; cases "st_pq_kem a") (auto simp: pq_ready_def)

lemma sender_step_fields:
  assumes "sender_step c s kem rk n r = (Ok (Some o'), r')"
  obtains enc r1 where "kem_encapsulate kem (pq_remote_public_key s) r = (Ok enc, r1)" "ps_ciphertext o' = enc_ciphertext enc"
    "ps_target_public_key_hash o' = hash_public_key c (pq_remote_public_key s)"
    "kem_keypair kem r1 = (Ok (ps_next_local_keypair o'), r')"
  using assms by (auto simp: sender_step_def split: if_splits prod.splits sum.splits)

lemma encrypt_pq_step_total:
  assumes "hkdf_ok c" "pq_ready c a b"
  shows "\<exists>f a1 r1. encrypt_pq_step c (a\<lparr>st_sending_chain := ch\<rparr>) n r = (Ok f, a1, r1) \<and> pq_fits f"
  using assms(2)
proof (cases rule: pq_ready_cases)
  case off
  then have "encrypt_pq_step c (a\<lparr>st_sending_chain := ch\<rparr>) n r = (Ok no_pq, a\<lparr>st_sending_chain := ch\<rparr>, r)"
    by (auto simp: encrypt_pq_step_def split: option.splits)
  then show ?thesis by simp
next
  case (on sa kem sb sk)
  obtain o' r' where st: "sender_step c sa kem (st_root_key a) n r = (Ok o', r')"
    using sender_step_succeeds [OF on(4) assms(1) on(9)] by metis
  show ?thesis
  proof (cases o')
    case None
    with st on(1,2) show ?thesis by (simp add: encrypt_pq_step_def)
  next
    case (Some out)
    then obtain enc r1 where "kem_encapsulate kem (pq_remote_public_key sa) r = (Ok enc, r1)" "ps_ciphertext out = enc_ciphertext enc"
      "ps_target_public_key_hash out = hash_public_key c (pq_remote_public_key sa)"
      "kem_keypair kem r1 = (Ok (ps_next_local_keypair out), r')"
      using sender_step_fields st by metis
    then have "length (ps_ciphertext out) \<le> 30000" "length (ps_target_public_key_hash out) = 32"
      "length (kp_public_key (ps_next_local_keypair out)) \<le> 30000"
      using on(3,5) unfolding kem_small_def by (metis, simp add: hash_public_key_def sha256_ok_def, metis)
    with st Some on(1,2) show ?thesis by (simp add: encrypt_pq_step_def pq_fits_def)
  qed
qed

lemma receiver_step_accepts:
  assumes "hkdf_ok c" "sender_step c a kem rk n r = (Ok (Some out), r')"
    and "select_local_secret_key c b (Some (hash_public_key c (pq_remote_public_key a))) = Ok sk"
    and "kem_pair_ok kem (pq_remote_public_key a) sk"
  shows "is_ok (fst (receiver_step c b kem rk' (ps_ciphertext out) (Some (ps_target_public_key_hash out)) nx m))"
proof (rule sender_step_fields [OF assms(2)])
  fix enc r1
  assume "kem_encapsulate kem (pq_remote_public_key a) r = (Ok enc, r1)" "ps_ciphertext out = enc_ciphertext enc"
    "ps_target_public_key_hash out = hash_public_key c (pq_remote_public_key a)"
  moreover obtain k where "mix_root_with_pq c rk' (enc_shared_secret enc) = Ok k"
    unfolding mix_root_with_pq_def using hkdf_sha256_32_Ok [OF assms(1)] by metis
  ultimately show ?thesis
    using kem_pair_ok_decaps [OF assms(4)] assms(3) by (simp add: receiver_step_def)
qed

lemma pq_ready_step_ok:
  assumes "hkdf_ok c" "pq_ready c a b"
    and enc: "encrypt_pq_step c (a\<lparr>st_sending_chain := ch\<rparr>) n r = (Ok (mf_pq f), a1, r1)"
  shows "is_ok (fst (decrypt_pq_step c f b))"
proof (cases "pf_step_ct (mf_pq f)")
  case None
  then show ?thesis by (simp add: decrypt_pq_step_def)
next
  case (Some ct)
  from assms(2) show ?thesis
  proof (cases rule: pq_ready_cases)
    case off
    then have "mf_pq f = no_pq" using enc by (auto simp: encrypt_pq_step_def split: option.splits)
    with Some show ?thesis by (simp add: no_pq_def)
  next
    case (on sa kem sb sk)
    moreover have "mf_pq f \<noteq> no_pq" using Some by (auto simp: no_pq_def)
    ultimately obtain out r' where out: "sender_step c sa kem (st_root_key a) n r = (Ok (Some out), r')"
      and f: "mf_pq f = \<lparr>pf_step_ct = Some (ps_ciphertext out), pf_target_pub_hash = Some (ps_target_public_key_hash out),
        pf_next_public_key = Some (kp_public_key (ps_next_local_keypair out))\<rparr>"
      using enc by (auto simp: encrypt_pq_step_def split: prod.splits sum.splits option.splits)
    have "is_ok (fst (receiver_step c sb kem (st_root_key b) (ps_ciphertext out) (Some (ps_target_public_key_hash out))
        (Some (kp_public_key (ps_next_local_keypair out))) (mf_msg_num f)))"
      by (rule receiver_step_accepts [OF assms(1) out on(8,9)])
    with on(6,7) f show ?thesis by (auto simp: decrypt_pq_step_def split: prod.splits sum.splits)
  qed
qed

subsection \<open>Delivery\<close>

text \<open>The receiver \<open>b\<close> has the key of message number \<open>i\<close>: it has not derived it yet, or it has it in its cache.\<close>

definition key_held :: "nat \<Rightarrow> SessionState \<Rightarrow> bool" where
  "key_held i b \<longleftrightarrow> unat (next_msg_num (st_receiving_chain b)) \<le> i
     \<or> \<lparr>sk_dh_pub = st_remote_dh_pub b, sk_msg_num = of_nat i\<rparr> \<in> dom (sm_map (st_skipped b))"

lemma key_held_iff:
  assumes "receiver_inv c ck d m g b"
  shows "key_held i b \<longleftrightarrow> \<not> key_gone d m i b"
proof -
  have b: "st_receiving_chain b = chain_at c ck m" "st_remote_dh_pub b = d" "m \<le> 0xFFFFFFFF" "sm_inv (st_skipped b)"
    using assms by (simp_all add: receiver_inv_def)
  have "fst ` set (sm_entries (st_skipped b)) = dom (sm_map (st_skipped b))"
    using sm_entries_fst [OF b(4)] b(4) unfolding sm_inv_def by (metis list.set_map)
  with b show ?thesis by (auto simp: key_held_def key_gone_def kid_def unat_of_nat)
qed

lemma key_held_undelivered:
  assumes "receiver_inv c ck d m g b" "i \<notin> g" "unat (next_msg_num (st_receiving_chain b)) \<le> sm_max_entries (st_skipped b)"
  shows "key_held i b"
proof -
  have "st_receiving_chain b = chain_at c ck m" "m \<le> 0xFFFFFFFF" using assms(1) by (simp_all add: receiver_inv_def)
  then have "m \<le> sm_max_entries (st_skipped b)" using assms(3) by (simp add: unat_of_nat)
  then have "\<not> key_gone d m i b" using assms(1,2) by (auto simp: key_gone_def receiver_inv_def)
  then show ?thesis by (simp add: key_held_iff [OF assms(1)])
qed

lemma pq_step_ok_fields:
  assumes "decode_wire_message w = Ok decoded" "carries c hk decoded f" "holds_header_key hk b"
  shows "pq_step_ok c w b \<longleftrightarrow> is_ok (fst (decrypt_pq_step c f b))"
  using assms by (simp add: pq_step_ok_def carries_def holds_header_key_def del: message_fields.simps)

lemma pq_step_ok_plain:
  assumes "sent_ok c ck d hk sid True i (w, msg, ad)" "holds_header_key hk b"
  shows "pq_step_ok c w b"
proof -
  obtain decoded f where "decode_wire_message w = Ok decoded" "carries c hk decoded f" "mf_pq f = no_pq"
    using assms(1) unfolding sent_ok_def prod.case by blast
  then show ?thesis using pq_step_ok_fields [OF _ _ assms(2)] by (simp add: decrypt_pq_step_def no_pq_def)
qed

lemma reachable_sent:
  assumes "hkdf_ok c" "aead_ok c" "session_pair c rk kp sid wv mx s" "pq_variant s s0" "run c s0 p"
    and msg: "sent p x i = Some (w, msg, ad)"
  obtains m where "receiver_inv c (send_chain_key c rk x) (dh_public (kp x)) m (got p x) (party p (peer x))" "i < 0xFFFFFFFF"
    "holds_header_key (send_header_key c rk wv x) (party p (peer x))"
    "sent_ok c (send_chain_key c rk x) (dh_public (kp x)) (send_header_key c rk wv x) (st_suite_id (party p (peer x))) (s0 = s) i (w, msg, ad)"
    "sm_max_entries (st_skipped (party p (peer x))) = min mx MAX_SKIPPED_KEYS_UPPER_BOUND"
proof -
  from reachable_inv [OF assms(1-4) _ assms(5), of "s0 = s"] obtain n m where
      snd: "sender_inv c (send_chain_key c rk x) (dh_public (kp x)) (send_header_key c rk wv x) sid (s0 = s) n (party p x) (sent p x)"
      and lst: "listener_inv c (send_chain_key c rk x) (dh_public (kp x)) (send_header_key c rk wv x) sid
        (min mx MAX_SKIPPED_KEYS_UPPER_BOUND) m (got p x) (party p (peer x))"
    by (metis (full_types))
  have i: "i < n \<and> sent_ok c (send_chain_key c rk x) (dh_public (kp x)) (send_header_key c rk wv x) sid (s0 = s) i (w, msg, ad)"
    and "n \<le> 0xFFFFFFFF"
    using snd msg unfolding sender_inv_def by blast+
  then have "i < 0xFFFFFFFF" by simp
  with that [of m] i lst show thesis unfolding listener_inv_def by blast
qed

lemma reachable_delivery:
  assumes "hkdf_ok c" "aead_ok c" "session_pair c rk kp sid wv mx s" "pq_variant s s0" "run c s0 p"
    and msg: "sent p x i = Some (w, msg, ad)"
  defines "b \<equiv> party p (peer x)"
  shows "fst (session_decrypt c w ad b r) = Ok msg \<longleftrightarrow> key_held i b \<and> pq_step_ok c w b"
    and "\<not> key_held i b \<Longrightarrow> session_decrypt c w ad b r = (Err MessageKeyUnavailable, b, r)"
    and "s0 = s \<Longrightarrow> pq_step_ok c w b"
    and "i \<notin> got p x \<Longrightarrow> unat (next_msg_num (st_receiving_chain b)) \<le> min mx MAX_SKIPPED_KEYS_UPPER_BOUND \<Longrightarrow> key_held i b"
proof -
  obtain m where inv: "receiver_inv c (send_chain_key c rk x) (dh_public (kp x)) m (got p x) b" and lt: "i < 0xFFFFFFFF"
    and hk: "holds_header_key (send_header_key c rk wv x) b"
    and ok: "sent_ok c (send_chain_key c rk x) (dh_public (kp x)) (send_header_key c rk wv x) (st_suite_id b) (s0 = s) i (w, msg, ad)"
    and cap: "sm_max_entries (st_skipped b) = min mx MAX_SKIPPED_KEYS_UPPER_BOUND"
    unfolding b_def by (rule reachable_sent [OF assms(1-6)])
  obtain res b' r' where dec: "session_decrypt c w ad b r = (res, b', r')" by (metis prod_cases3)
  note cs = session_decrypt_sent [OF assms(1) inv lt hk ok dec]
  show "fst (session_decrypt c w ad b r) = Ok msg \<longleftrightarrow> key_held i b \<and> pq_step_ok c w b"
  proof (rule cs)
    assume "\<not> key_gone (dh_public (kp x)) m i b" "pq_step_ok c w b \<Longrightarrow> res = Ok msg" "\<not> pq_step_ok c w b \<Longrightarrow> \<not> is_ok res"
    then show ?thesis by (cases "pq_step_ok c w b") (auto simp: dec key_held_iff [OF inv])
  qed (simp add: dec key_held_iff [OF inv])
  show "session_decrypt c w ad b r = (Err MessageKeyUnavailable, b, r)" if "\<not> key_held i b"
    by (rule cs) (use that in \<open>auto simp: dec key_held_iff [OF inv]\<close>)
  show "pq_step_ok c w b" if "s0 = s" using pq_step_ok_plain [OF _ hk] ok that by simp
  show "key_held i b" if "i \<notin> got p x" "unat (next_msg_num (st_receiving_chain b)) \<le> min mx MAX_SKIPPED_KEYS_UPPER_BOUND"
    using key_held_undelivered [OF inv that(1)] that(2) cap by simp
qed

lemma reachable_replay:
  assumes "hkdf_ok c" "aead_ok c" "session_pair c rk kp sid wv mx s" "pq_variant s s0" "run c s0 p"
    and msg: "sent p x i = Some (w, msg, ad)" and used: "i \<in> got p x"
  shows "session_decrypt c w ad (party p (peer x)) r = (Err MessageKeyUnavailable, party p (peer x), r)"
proof (rule reachable_delivery(2) [OF assms(1-6)])
  obtain m where inv: "receiver_inv c (send_chain_key c rk x) (dh_public (kp x)) m (got p x) (party p (peer x))"
    by (rule reachable_sent [OF assms(1-6)])
  have "i < m" using inv used by (auto simp: receiver_inv_def)
  with receiver_inv_entry(2) [OF inv this used] show "\<not> key_held i (party p (peer x))"
    by (simp add: key_held_iff [OF inv] key_gone_def)
qed

subsection \<open>Sending in a run\<close>

lemma reachable_send:
  assumes "hkdf_ok c" "aead_ok c" "session_pair c rk kp sid wv mx s" "pq_variant s s0" "run c s0 p"
    and num: "next_msg_num (st_sending_chain (party p x)) \<noteq> 0xFFFFFFFF"
    and fit: "length (pad_for_wire (party p x) msg) + 16 \<le> 65535" "length ad \<le> 65535"
    and rd: "pq_ready c (party p x) (party p (peer x))"
  obtains w a' r' where "session_encrypt c msg ad (party p x) r = (Ok w, a', r')"
    "pq_step_ok c w (party p (peer x))"
    "next_msg_num (st_sending_chain a') = next_msg_num (st_sending_chain (party p x)) + 1"
    "st_pq_state (party p x) = None \<Longrightarrow> st_pq_state a' = None"
    "run c s0 (p\<lparr>party := (party p)(x := a'),
       sent := (sent p)(x := (sent p x)(unat (next_msg_num (st_sending_chain (party p x))) \<mapsto> (w, msg, ad)))\<rparr>)"
    "unat (next_msg_num (st_receiving_chain (party p (peer x)))) \<le> unat (next_msg_num (st_sending_chain (party p x)))"
proof -
  from reachable_inv [OF assms(1-4) _ assms(5), of False] obtain n m where
      mn: "m \<le> n" and snd: "sender_inv c (send_chain_key c rk x) (dh_public (kp x)) (send_header_key c rk wv x) sid False n
        (party p x) (sent p x)"
      and lst: "listener_inv c (send_chain_key c rk x) (dh_public (kp x)) (send_header_key c rk wv x) sid
        (min mx MAX_SKIPPED_KEYS_UPPER_BOUND) m (got p x) (party p (peer x))"
    by (metis (full_types))
  have a: "st_sending_chain (party p x) = chain_at c (send_chain_key c rk x) n" "n \<le> 0xFFFFFFFF"
      "length (dh_public (st_local_dh (party p x))) = 32" "st_version (party p x) = WIRE_VERSION"
      "st_sending_header_key (party p x) = send_header_key c rk wv x"
    using snd by (simp_all add: sender_inv_def)
  have lt: "n < 0xFFFFFFFF" using a(1,2) num u32_of_nat_eq_MAX [of n] by simp
  obtain f a1 r1 where "encrypt_pq_step c ((party p x)\<lparr>st_sending_chain := chain_at c (send_chain_key c rk x) (Suc n)\<rparr>) (of_nat n) r = (Ok f, a1, r1)"
      "pq_fits f"
    using encrypt_pq_step_total [OF assms(1) rd] by metis
  from session_encrypt_total [OF assms(1,2) a(1) lt a(3) this fit] obtain w a' r' where
      enc: "session_encrypt c msg ad (party p x) r = (Ok w, a', r')" by metis
  have hk: "holds_header_key (send_header_key c rk wv x) (party p (peer x))" using lst by (simp add: listener_inv_def)
  have "pq_step_ok c w (party p (peer x))"
    by (rule session_encrypt_fields [OF assms(1,2) a(1) lt a(4,3) enc])
       (use pq_step_ok_fields [OF _ _ hk] pq_ready_step_ok [OF assms(1) rd] a(5) in auto)
  moreover have "next_msg_num (st_sending_chain a') = next_msg_num (st_sending_chain (party p x)) + 1"
    "st_pq_state (party p x) = None \<Longrightarrow> st_pq_state a' = None"
    by (rule session_encrypt_frame [OF assms(1) a(1,2) enc]; use lt in \<open>simp add: a(1)\<close>)+
  moreover have "unat (next_msg_num (st_receiving_chain (party p (peer x)))) \<le> unat (next_msg_num (st_sending_chain (party p x)))"
    using lst a(1,2) mn by (simp add: listener_inv_def receiver_inv_def unat_of_nat)
  ultimately show thesis
    using that [OF enc] run.send [OF assms(5) enc] by (simp add: log_send_def)
qed

end
