(* ===== verification/Session_Inv.thy ===== *)
theory Session_Inv
  imports Session_Props
begin

text \<open>
  The well-formedness invariant of a session, preserved by every operation on every input: fixed key sizes,
  a cache of message keys that is consistent and bounded, and a bounded history of post-quantum keys.
  Nothing is assumed about the bytes a session is given to decrypt, so this is what holds against an
  arbitrary network.
\<close>

definition opt_32 :: "bytes option \<Rightarrow> bool" where
  "opt_32 k \<longleftrightarrow> (case k of None \<Rightarrow> True | Some b \<Rightarrow> length b = 32)"

definition history_ok :: "PqRatchetState option \<Rightarrow> bool" where
  "history_ok q \<longleftrightarrow> (case q of None \<Rightarrow> True | Some st \<Rightarrow> length (pq_local_key_history st) \<le> pq_max_key_history st)"

definition session_inv :: "SessionState \<Rightarrow> bool" where
  "session_inv s \<longleftrightarrow> sm_inv (st_skipped s) \<and> length (st_root_key s) = 32
     \<and> length (chain_key (st_sending_chain s)) = 32 \<and> length (chain_key (st_receiving_chain s)) = 32
     \<and> length (dh_public (st_local_dh s)) = 32 \<and> length (dh_secret (st_local_dh s)) = 32
     \<and> length (st_remote_dh_pub s) = 32 \<and> opt_32 (st_sending_header_key s)
     \<and> opt_32 (st_receiving_header_key s) \<and> opt_32 (st_prev_receiving_header_key s)
     \<and> history_ok (st_pq_state s)"

text \<open>The two limits of a session: of the cache of message keys, and of the history if the ratchet is on.\<close>

definition limits :: "SessionState \<Rightarrow> usize \<times> usize option" where
  "limits s = (sm_max_entries (st_skipped s), map_option pq_max_key_history (st_pq_state s))"

lemma history_ok_simps [simp]: "history_ok None"
  "history_ok (Some st) \<longleftrightarrow> length (pq_local_key_history st) \<le> pq_max_key_history st"
  by (simp_all add: history_ok_def)

lemma reset_history:
  "history_ok (map_option reset_remote_update_tracking q) = history_ok q"
  "map_option pq_max_key_history (map_option reset_remote_update_tracking q) = map_option pq_max_key_history q"
  by (cases q; simp add: reset_remote_update_tracking_def)+

lemma opt_32_simps [simp]: "opt_32 None" "opt_32 (Some b) \<longleftrightarrow> length b = 32"
  by (simp_all add: opt_32_def)

lemma next_message_key_length:
  assumes "hkdf_ok c" "next_message_key c s = (r, s')" "length (chain_key s) = 32"
  shows "length (chain_key s') = 32"
  using assms chain_okm_hkdf [OF assms(1), of "chain_key s"]
  by (auto simp: next_message_key_def Let_def split: if_splits)

lemma skip_loop_inv:
  "hkdf_ok c \<Longrightarrow> sm_inv cache \<Longrightarrow> length (chain_key chain) = 32 \<Longrightarrow> skip_loop c d n chain cache = (r, chain', cache') \<Longrightarrow>
    sm_inv cache' \<and> length (chain_key chain') = 32 \<and> sm_max_entries cache' = sm_max_entries cache"
proof (induction c d n chain cache rule: skip_loop.induct)
  case (1 c d n chain cache)
  show ?case
  proof (cases "next_msg_num chain < n")
    case False
    with "1.prems" show ?thesis by (simp add: skip_loop.simps [of c d n chain])
  next
    case True
    obtain res ch where nk: "next_message_key c chain = (res, ch)" by fastforce
    show ?thesis
    proof (cases res)
      case (Inl e)
      with True nk "1.prems" show ?thesis
        using next_message_key_Err [of c chain e ch] by (simp add: skip_loop.simps [of c d n chain])
    next
      case (Inr p)
      obtain m k where p: "p = (m, k)" by fastforce
      have ih: "length (chain_key ch) = 32 \<Longrightarrow>
        skip_loop c d n ch (sm_insert \<lparr>sk_dh_pub = d, sk_msg_num = m\<rparr> k cache) = (r, chain', cache') \<Longrightarrow>
        sm_inv cache' \<and> length (chain_key chain') = 32 \<and> sm_max_entries cache' = sm_max_entries cache"
        using "1.IH" [OF True nk [symmetric] Inr p [symmetric]] "1.prems"(1,2)
        by (simp add: skipped.ins_inv skipped.ins_cap)
      have "length (chain_key ch) = 32" by (rule next_message_key_length [OF "1.prems"(1) nk "1.prems"(3)])
      with ih True nk Inr p "1.prems"(4) show ?thesis by (simp add: skip_loop.simps [of c d n chain])
    qed
  qed
qed

lemma skip_until_inv:
  assumes "hkdf_ok c" "session_inv s" "skip_until c d n s = (r, s')"
  shows "session_inv s' \<and> limits s' = limits s"
proof -
  obtain ch cache where l: "skip_loop c d n (st_receiving_chain s) (st_skipped s) = (r, ch, cache)"
      and s': "s' = s\<lparr>st_receiving_chain := ch, st_skipped := cache\<rparr>"
    using assms(3) by (auto simp: skip_until_def split: prod.splits)
  have "sm_inv (st_skipped s)" "length (chain_key (st_receiving_chain s)) = 32"
    using assms(2) by (simp_all add: session_inv_def)
  from skip_loop_inv [OF assms(1) this l] assms(2) show ?thesis by (simp add: s' session_inv_def limits_def)
qed

lemma dh_root_step_length:
  assumes "hkdf_ok c" "dh_root_step c rk a b = Ok o'"
  shows "length (rs_root_key o') = 32 \<and> length (rs_chain_key o') = 32 \<and> length (rs_header_key o') = 32"
  using kdf_root_step_Ok [OF assms(1)] assms(2) unfolding dh_root_step_def by (metis sum.inject(2))

lemma generate_keypair_length:
  assumes "dh_ok c" "generate_keypair c r = (kp, r')"
  shows "length (dh_public kp) = 32 \<and> length (dh_secret kp) = 32"
  using generate_keypair_ok [OF assms] unfolding dh_pair_ok_def by blast

lemma apply_dh_ratchet_inv:
  assumes "hkdf_ok c" "dh_ok c" "session_inv s" "length d = 32" "apply_dh_ratchet c d s r = (res, s', r')"
  shows "session_inv s' \<and> limits s' = limits s"
proof (cases "dh_root_step c (st_root_key s) (dh_secret (st_local_dh s)) d")
  case (Inl e)
  with assms show ?thesis by (simp add: apply_dh_ratchet_def)
next
  case (Inr recv)
  obtain kp r1 where kp: "generate_keypair c r = (kp, r1)" by fastforce
  let ?s = "ratchet_receive recv d s\<lparr>st_local_dh := kp\<rparr>"
  have 1: "session_inv ?s" "limits ?s = limits s"
    using assms(3,4) dh_root_step_length [OF assms(1) Inr] generate_keypair_length [OF assms(2) kp]
    by (simp_all add: session_inv_def limits_def ratchet_receive_def chain_reset_def reset_history)
  show ?thesis
  proof (cases "dh_root_step c (st_root_key ?s) (dh_secret (st_local_dh ?s)) (st_remote_dh_pub ?s)")
    case (Inl e)
    with assms(5) Inr kp 1 show ?thesis by (auto simp: apply_dh_ratchet_def Let_def)
  next
    case (Inr send)
    have "session_inv (ratchet_send send ?s)" "limits (ratchet_send send ?s) = limits s"
      using 1 dh_root_step_length [OF assms(1) Inr] by (simp_all add: session_inv_def limits_def ratchet_send_def chain_reset_def)
    with assms(5) \<open>dh_root_step c (st_root_key s) (dh_secret (st_local_dh s)) d = Inr recv\<close> kp Inr show ?thesis
      by (simp add: apply_dh_ratchet_def Let_def)
  qed
qed

lemma ratchet_if_new_inv:
  assumes "hkdf_ok c" "dh_ok c" "session_inv s" "length (mf_sender_dh_pub f) = 32"
    "ratchet_if_new c f s r = (res, s', r')"
  shows "session_inv s' \<and> limits s' = limits s"
proof (cases "mf_sender_dh_pub f = st_remote_dh_pub s")
  case True
  with assms show ?thesis by (simp add: ratchet_if_new_def)
next
  case False
  obtain sr s1 where sk: "skip_until c (st_remote_dh_pub s) (mf_prev_chain_len f) s = (sr, s1)" by fastforce
  note 1 = skip_until_inv [OF assms(1,3) sk]
  show ?thesis
  proof (cases sr)
    case (Inl e)
    with assms(5) False sk 1 show ?thesis by (simp add: ratchet_if_new_def)
  next
    case (Inr u)
    with assms(5) False sk have "apply_dh_ratchet c (mf_sender_dh_pub f) s1 r = (res, s', r')"
      by (simp add: ratchet_if_new_def)
    from apply_dh_ratchet_inv [OF assms(1,2) _ assms(4) this] 1 show ?thesis by simp
  qed
qed

lemma message_key_for_inv:
  assumes "hkdf_ok c" "session_inv s" "message_key_for c f s = (r, s')"
  shows "session_inv s' \<and> limits s' = limits s"
proof (cases "mf_msg_num f < next_msg_num (st_receiving_chain s)")
  case True
  have "sm_inv (st_skipped s)" using assms(2) by (simp add: session_inv_def)
  with True assms(2,3) show ?thesis
    using skipped.tak_inv [of "st_skipped s"] skipped.tak_cap
    by (auto simp: message_key_for_def session_inv_def limits_def split: prod.splits) (metis snd_conv)+
next
  case False
  obtain sr s1 where sk: "skip_until c (mf_sender_dh_pub f) (mf_msg_num f) s = (sr, s1)" by fastforce
  note 1 = skip_until_inv [OF assms(1,2) sk]
  obtain kr ch where nk: "next_message_key c (st_receiving_chain s1) = (kr, ch)" by fastforce
  have "session_inv (s1\<lparr>st_receiving_chain := ch\<rparr>) \<and> limits (s1\<lparr>st_receiving_chain := ch\<rparr>) = limits s1"
    using 1 next_message_key_length [OF assms(1) nk] by (simp add: session_inv_def limits_def)
  with assms(3) False sk nk 1 show ?thesis
    by (auto simp: message_key_for_def split: sum.splits)
qed

lemma receiver_step_length:
  "hkdf_ok c \<Longrightarrow> receiver_step c st kem rk ct h n m = (Ok k, st') \<Longrightarrow> length k = 32"
  by (auto simp: receiver_step_def mix_root_with_pq_def split: sum.splits dest: hkdf_sha256_32_length)

lemma receiver_step_history:
  "receiver_step c st kem rk ct h n m = (r, st') \<Longrightarrow>
    pq_local_key_history st' = pq_local_key_history st \<and> pq_max_key_history st' = pq_max_key_history st"
  by (auto simp: receiver_step_def apply_remote_public_key_update_def split: sum.splits option.splits if_splits)

lemma decrypt_pq_step_inv:
  assumes "hkdf_ok c" "session_inv s" "decrypt_pq_step c f s = (r, s')"
  shows "session_inv s' \<and> limits s' = limits s"
  using assms
  by (auto simp: decrypt_pq_step_def session_inv_def limits_def split: option.splits prod.splits sum.splits
      dest: receiver_step_history receiver_step_length [OF assms(1)])

lemma decode_wire_message_length:
  assumes "decode_wire_message w = Ok decoded" "message_fields c s decoded = Ok f"
  shows "length (mf_sender_dh_pub f) = 32"
proof (cases decoded)
  case (V1 m)
  then have "wm_decode w = Ok m"
    using assms(1) by (auto simp: decode_wire_message_def Let_def split: if_splits)
  from wire_v1.dec_wf [OF this] V1 assms(2) show ?thesis by (auto simp: wm_wf_def)
next
  case (V2 m)
  then obtain h where "decrypt_v2_header c s (w2_encrypted_header m) = Ok h" "hp_sender_dh_pub h = mf_sender_dh_pub f"
    using assms(2) by auto
  then obtain b where "hp_decode b = Ok h"
    by (auto simp: decrypt_v2_header_def try_decrypt_header_def split: option.splits)
  from wire_header.dec_wf [OF this] \<open>hp_sender_dh_pub h = mf_sender_dh_pub f\<close> show ?thesis
    by (simp add: hp_wf_def)
qed

lemma session_decrypt_inv:
  assumes "hkdf_ok c" "dh_ok c" "session_inv s" "session_decrypt c w ad s r = (res, s', r')"
  shows "session_inv s' \<and> limits s' = limits s"
proof (cases "\<exists>decoded f. decode_wire_message w = Ok decoded \<and> message_fields c s decoded = Ok f
    \<and> mf_suite_id f = st_suite_id s")
  case False
  then have "s' = s" using assms(4) by (auto simp: session_decrypt_def split: sum.splits if_splits)
  with assms(3) show ?thesis by simp
next
  case True
  then obtain decoded f where f: "decode_wire_message w = Ok decoded" "message_fields c s decoded = Ok f"
      "mf_suite_id f = st_suite_id s" by blast
  obtain rr s1 r1 where ri: "ratchet_if_new c f s r = (rr, s1, r1)" by (metis prod_cases3)
  obtain kr s2 where mk: "message_key_for c f s1 = (kr, s2)" by fastforce
  obtain pr s3 where pq: "decrypt_pq_step c f s2 = (pr, s3)" by fastforce
  note 1 = ratchet_if_new_inv [OF assms(1-3) decode_wire_message_length [OF f(1,2)] ri]
  note 2 = message_key_for_inv [OF assms(1) conjunct1 [OF 1] mk]
  note 3 = decrypt_pq_step_inv [OF assms(1) conjunct1 [OF 2] pq]
  have "s' \<in> {s1, s2, s3}"
    using assms(4) by (auto simp: session_decrypt_def f ri mk pq split: sum.splits)
  with 1 2 3 show ?thesis by auto
qed

lemma sender_step_length:
  "hkdf_ok c \<Longrightarrow> sender_step c st kem rk n r = (Ok (Some o'), r') \<Longrightarrow> length (ps_root_key o') = 32"
  by (auto simp: sender_step_def mix_root_with_pq_def split: if_splits prod.splits sum.splits
      dest: hkdf_sha256_32_length)

lemma session_encrypt_inv:
  assumes "hkdf_ok c" "session_inv s" "session_encrypt c msg ad s r = (res, s', r')"
  shows "session_inv s' \<and> limits s' = limits s"
proof -
  obtain kr ch where nk: "next_message_key c (st_sending_chain s) = (kr, ch)" by fastforce
  have 1: "session_inv (s\<lparr>st_sending_chain := ch\<rparr>)" "limits (s\<lparr>st_sending_chain := ch\<rparr>) = limits s"
    using assms(2) next_message_key_length [OF assms(1) nk] by (simp_all add: session_inv_def limits_def)
  show ?thesis
  proof (cases kr)
    case (Inl e)
    with 1 nk assms(3) show ?thesis by (auto simp: session_encrypt_def)
  next
    case (Inr p)
    obtain n k where p: "p = (n, k)" by fastforce
    obtain pr s1 r1 where pq: "encrypt_pq_step c (s\<lparr>st_sending_chain := ch\<rparr>) n r = (pr, s1, r1)" by (metis prod_cases3)
    have "session_inv s1 \<and> limits s1 = limits s"
      using pq 1 sender_step_length [OF assms(1)] history_bounded
      by (auto simp: encrypt_pq_step_def session_inv_def limits_def split: option.splits prod.splits sum.splits)
    moreover have "s' = s1"
      using assms(3) by (auto simp: session_encrypt_def nk Inr p pq split: sum.splits prod.splits)
    ultimately show ?thesis by simp
  qed
qed

end
