(* ===== verification/Session_Thms.thy ===== *)
theory Session_Thms
  imports Session_Delivery Session_Inv
begin

text \<open>
  The correctness theorems of a conversation: messages decrypt in any order of delivery, no
  message is accepted twice, sending and receiving always succeed within the limits of the
  formats, the key schedule, and what a rejected message does to the session.
\<close>

subsection \<open>Delivery in any order\<close>

text \<open>Sessions out of a toy handshake, used by the witnesses.\<close>

definition toy_kp :: "SessionRole \<Rightarrow> DhKeyPair" where
  "toy_kp x = toy_pair (case x of Initiator \<Rightarrow> 1 | Responder \<Rightarrow> 2)"

definition toy_sessions :: "u16 \<Rightarrow> SessionRole \<Rightarrow> SessionState" where
  "toy_sessions wv x = initial_session toy_crypto x (replicate 32 7) (toy_kp x) (dh_public (toy_kp (peer x))) 1 wv 10"

lemma toy_kp_length [simp]: "length (dh_public (toy_kp x)) = 32" "dh_pair_ok toy_crypto (toy_kp x)"
  by (simp_all add: toy_kp_def) (simp add: toy_pair_def)

lemma toy_session_pair: "session_pair toy_crypto (replicate 32 7) toy_kp 1 wv 10 (toy_sessions wv)"
  by (simp add: session_pair_def from_handshake_eq toy_sessions_def)

lemma pq_variant_refl: "pq_variant s s"
  by (simp add: pq_variant_def)

lemma toy_fits: "length (pad_for_wire x [1, 2, 3]) + 16 \<le> 65535" "length [9 :: u8] \<le> 65535"
  by (simp_all add: pad_for_wire_def PADDING_BLOCK_SIZE_def length_pad_256)

text \<open>One more message in a run of the toy sessions.\<close>

lemma toy_send:
  assumes "run toy_crypto (toy_sessions wv) p" "next_msg_num (st_sending_chain (party p x)) = n" "n \<noteq> 0xFFFFFFFF"
    "st_pq_state (party p x) = None"
  obtains w p' where "run toy_crypto (toy_sessions wv) p'" "sent p' x = (sent p x)(unat n \<mapsto> (w, [1, 2, 3], [9]))" "got p' = got p"
    "party p' (peer x) = party p (peer x)" "next_msg_num (st_sending_chain (party p' x)) = n + 1" "st_pq_state (party p' x) = None"
proof -
  have "pq_ready toy_crypto (party p x) (party p (peer x))" using assms(4) by (simp add: pq_ready_def)
  from reachable_send [OF toy_hkdf_ok toy_aead_ok toy_session_pair pq_variant_refl assms(1) _ toy_fits this] assms(2,3)
  obtain w a' where "next_msg_num (st_sending_chain a') = n + 1" "st_pq_state a' = None"
    "run toy_crypto (toy_sessions wv) (p\<lparr>party := (party p)(x := a'), sent := (sent p)(x := (sent p x)(unat n \<mapsto> (w, [1, 2, 3], [9])))\<rparr>)"
    using assms(4) by metis
  then show thesis by (intro that [of "p\<lparr>party := (party p)(x := a'), sent := (sent p)(x := (sent p x)(unat n \<mapsto> (w, [1, 2, 3], [9])))\<rparr>"]) simp_all
qed

text \<open>Runs of the toy sessions in which the initiator has sent one message, or two.\<close>

lemma toy_run_sent2:
  obtains p w p' w' where "run toy_crypto (toy_sessions wv) p" "sent p Initiator 0 = Some (w, [1, 2, 3], [9])" "got p Initiator = {}"
    "party p Responder = toy_sessions wv Responder" "run toy_crypto (toy_sessions wv) p'"
    "sent p' Initiator 0 = Some (w, [1, 2, 3], [9])" "sent p' Initiator 1 = Some (w', [1, 2, 3], [9])" "got p' Initiator = {}"
    "party p' Responder = toy_sessions wv Responder"
proof -
  let ?s = "start_state (toy_sessions wv)"
  have z: "next_msg_num (st_sending_chain (party ?s Initiator)) = 0" "(0 :: u32) \<noteq> 0xFFFFFFFF" "(0 + 1 :: u32) \<noteq> 0xFFFFFFFF"
      "st_pq_state (party ?s Initiator) = None"
    by (simp_all add: start_state_def toy_sessions_def initial_session_def chain_new_def)
  obtain w p where p: "run toy_crypto (toy_sessions wv) p"
      "sent p Initiator = (sent ?s Initiator)(unat (0 :: u32) \<mapsto> (w, [1, 2, 3], [9]))" "got p = got ?s"
      "party p (peer Initiator) = party ?s (peer Initiator)"
      "next_msg_num (st_sending_chain (party p Initiator)) = 0 + 1" "st_pq_state (party p Initiator) = None"
    by (rule toy_send [OF run.start z(1,2,4)])
  obtain w' p' where "run toy_crypto (toy_sessions wv) p'"
      "sent p' Initiator = (sent p Initiator)(unat (0 + 1 :: u32) \<mapsto> (w', [1, 2, 3], [9]))" "got p' = got p"
      "party p' (peer Initiator) = party p (peer Initiator)"
    by (rule toy_send [OF p(1,5) z(3) p(6)])
  with p that [of p w p' w'] show thesis by (simp add: start_state_def)
qed

lemma toy_run_sent:
  "\<exists>p w. run toy_crypto (toy_sessions wv) p \<and> sent p Initiator 0 = Some (w, [1, 2, 3], [9])
     \<and> got p Initiator = {} \<and> party p Responder = toy_sessions wv Responder"
  using toy_run_sent2 [of wv] by metis

text \<open>
  C1. Delivery in any order. Take two sessions built from one handshake, with the post-quantum ratchet on or
  off for either party, and any run in which both parties send and in which the network loses, reorders and
  repeats messages, but adds none of its own. A message that was sent, of either direction and either wire
  version, decrypts to its plaintext exactly when the receiver has its key, that is when the receiver has
  not yet reached its number or still has its key in the cache of skipped keys, and the post-quantum step in
  its header, if there is one, goes through. A message whose key is gone is refused with
  \<^verbatim>\<open>MessageKeyUnavailable\<close> and changes nothing. Without the post-quantum ratchet the
  step is never in the way. A message that was not handed over before still has its key at least as long as
  the receiver's counter has not passed the capacity of the cache.
\<close>

theorem any_order_delivery:
  assumes "hkdf_ok c" "aead_ok c" "session_pair c rk kp sid wv mx s" "pq_variant s s0" "run c s0 p"
    and "sent p x i = Some (w, msg, ad)"
  shows "(fst (session_decrypt c w ad (party p (peer x)) r) = Ok msg
        \<longleftrightarrow> key_held i (party p (peer x)) \<and> pq_step_ok c w (party p (peer x)))
    \<and> (\<not> key_held i (party p (peer x)) \<longrightarrow>
         session_decrypt c w ad (party p (peer x)) r = (Err MessageKeyUnavailable, party p (peer x), r))
    \<and> (s0 = s \<longrightarrow> pq_step_ok c w (party p (peer x)))
    \<and> (i \<notin> got p x \<and> unat (next_msg_num (st_receiving_chain (party p (peer x)))) \<le> min mx MAX_SKIPPED_KEYS_UPPER_BOUND
        \<longrightarrow> key_held i (party p (peer x)))"
  using reachable_delivery [OF assms] by blast

text \<open>Two messages of one direction that arrive in the wrong order.\<close>

theorem any_order_delivery_witness:
  "\<exists>p w w' q. run toy_crypto (toy_sessions WIRE_VERSION_V2) p \<and> sent p Initiator 0 = Some (w, [1, 2, 3], [9])
     \<and> sent p Initiator 1 = Some (w', [1, 2, 3], [9])
     \<and> session_decrypt toy_crypto w' [9] (party p Responder) (sconst 0) = (Ok [1, 2, 3], party q Responder, sconst 0)
     \<and> run toy_crypto (toy_sessions WIRE_VERSION_V2) q
     \<and> fst (session_decrypt toy_crypto w [9] (party q Responder) (sconst 0)) = Ok [1, 2, 3]"
proof -
  let ?s = "toy_sessions WIRE_VERSION_V2"
  obtain p w w' where p: "run toy_crypto ?s p" "sent p Initiator 0 = Some (w, [1, 2, 3], [9])"
      "sent p Initiator 1 = Some (w', [1, 2, 3], [9])" "got p Initiator = {}" "party p (peer Initiator) = ?s Responder"
    by (rule toy_run_sent2 [of WIRE_VERSION_V2]) simp
  note ok = any_order_delivery [OF toy_hkdf_ok toy_aead_ok toy_session_pair pq_variant_refl]
  obtain res b' r' where dec: "session_decrypt toy_crypto w' [9] (party p (peer Initiator)) (sconst 0) = (res, b', r')"
    by (metis prod_cases3)
  have cnt: "unat (next_msg_num (st_receiving_chain (party p (peer Initiator)))) = 0"
    unfolding p(5) by (simp add: toy_sessions_def initial_session_def chain_new_def)
  then have res: "res = Ok [1, 2, 3]" using ok [OF p(1,3), of "sconst 0"] p(4) dec by simp
  define q where "q = p\<lparr>party := (party p)(peer Initiator := b'), got := (got p)(Initiator := insert 1 (got p Initiator))\<rparr>"
  have q: "run toy_crypto ?s q" unfolding q_def by (rule run.deliver [OF p(1,3) dec])
  obtain m where m: "receiver_inv toy_crypto (send_chain_key toy_crypto (replicate 32 7) Initiator) (dh_public (toy_kp Initiator)) m
      (got p Initiator) (party p (peer Initiator))" "holds_header_key (send_header_key toy_crypto (replicate 32 7) WIRE_VERSION_V2 Initiator)
      (party p (peer Initiator))"
    "sent_ok toy_crypto (send_chain_key toy_crypto (replicate 32 7) Initiator) (dh_public (toy_kp Initiator))
      (send_header_key toy_crypto (replicate 32 7) WIRE_VERSION_V2 Initiator) (st_suite_id (party p (peer Initiator))) (?s = ?s) 1 (w', [1, 2, 3], [9])"
    by (rule reachable_sent [OF toy_hkdf_ok toy_aead_ok toy_session_pair pq_variant_refl p(1,3)])
  have m0: "m = 0" using cnt m(1) by (simp add: receiver_inv_def unat_of_nat)
  have b': "r' = sconst 0" "unat (next_msg_num (st_receiving_chain b')) \<le> 10"
    by (rule session_decrypt_sent [OF toy_hkdf_ok m(1) _ m(2,3) dec]; simp add: m0 key_gone_def receiver_inv_def)+
  have "fst (session_decrypt toy_crypto w [9] (party q (peer Initiator)) (sconst 0)) = Ok [1, 2, 3]"
    using ok [OF q, of Initiator 0 w "[1, 2, 3]" "[9]" "sconst 0"] p(2,4) b'(2) by (simp add: q_def MAX_SKIPPED_KEYS_UPPER_BOUND_def)
  with p(1-3) q dec res b'(1) show ?thesis by (intro exI [of _ p] exI [of _ w] exI [of _ w'] exI [of _ q]) (simp add: q_def)
qed



text \<open>
  C5. Sending and receiving succeed. In every state that two sessions built from one handshake reach by
  sending and by losing, reordering and repeating messages, as long as the chain is not exhausted and the
  padded message and the associated data fit the length fields, encryption returns wire bytes, and the peer
  decrypts them at once to the message, whatever random bytes either side draws. With the post-quantum
  ratchet of the sender on this needs a key encapsulation mechanism that works and has short keys and
  ciphertexts, and it needs the peer to have the same mechanism and to hold still, as its current key or in
  its history, the secret key of the public key to which the sender encapsulates; with the ratchet off there
  is no such condition.
\<close>

theorem send_then_receive:
  assumes "hkdf_ok c" "aead_ok c" "session_pair c rk kp sid wv mx s" "pq_variant s s0" "run c s0 p"
    and "next_msg_num (st_sending_chain (party p x)) \<noteq> 0xFFFFFFFF"
    and "length (pad_for_wire (party p x) msg) + 16 \<le> 65535" "length ad \<le> 65535"
    and "pq_ready c (party p x) (party p (peer x))"
  shows "\<exists>w a' r'. session_encrypt c msg ad (party p x) r = (Ok w, a', r')
     \<and> fst (session_decrypt c w ad (party p (peer x)) q) = Ok msg"
proof (rule reachable_send [OF assms])
  fix w a' r'
  let ?n = "unat (next_msg_num (st_sending_chain (party p x)))"
  let ?p = "p\<lparr>party := (party p)(x := a'), sent := (sent p)(x := (sent p x)(?n \<mapsto> (w, msg, ad)))\<rparr>"
  assume enc: "session_encrypt c msg ad (party p x) r = (Ok w, a', r')" and pq: "pq_step_ok c w (party p (peer x))"
    and run': "run c s0 ?p" and num: "unat (next_msg_num (st_receiving_chain (party p (peer x)))) \<le> ?n"
  have "party ?p (peer x) = party p (peer x)" "sent ?p x ?n = Some (w, msg, ad)" by simp_all
  from reachable_delivery(1) [OF assms(1-4) run' this(2)] num pq
  have "fst (session_decrypt c w ad (party p (peer x)) q) = Ok msg" by (simp add: key_held_def)
  with enc show ?thesis by blast
qed

text \<open>A pair of sessions with the post-quantum ratchet on for both parties and on every message.\<close>

definition toy_pq_of :: "SessionRole \<Rightarrow> PqRatchetState" where
  "toy_pq_of x = \<lparr>pq_interval = 1, pq_local_public_key = replicate 32 (case x of Initiator \<Rightarrow> 3 | Responder \<Rightarrow> 4),
     pq_local_secret_key = replicate 32 (case x of Initiator \<Rightarrow> 3 | Responder \<Rightarrow> 4),
     pq_remote_public_key = replicate 32 (case x of Initiator \<Rightarrow> 4 | Responder \<Rightarrow> 3), pq_local_key_history = [],
     pq_max_key_history = 4, pq_last_remote_update_msg_num = 0\<rparr>"

definition toy_pq_sessions :: "u16 \<Rightarrow> SessionRole \<Rightarrow> SessionState" where
  "toy_pq_sessions wv x = enable_pq_ratchet (toy_pq_of x) toy_kem (toy_sessions wv x)"

lemma toy_pq_variant: "pq_variant (toy_sessions wv) (toy_pq_sessions wv)"
  unfolding pq_variant_def toy_pq_sessions_def by blast

lemma toy_kem_small: "kem_small toy_kem"
  by (auto simp: kem_small_def toy_kem_def mlkem_provider_def MlKem768_keypair_def MlKem768_encapsulate_def
      pq_build_of_def toy_features_def toy_backend_def split: if_splits)

lemma toy_pq_ready: "pq_ready toy_crypto (toy_pq_sessions wv x) (toy_pq_sessions wv (peer x))"
  by (cases x) (simp_all add: pq_ready_def toy_pq_sessions_def enable_pq_ratchet_def toy_pq_of_def toy_kem_small
      select_local_secret_key_def local_public_key_hash_def)

theorem send_then_receive_witness:
  "\<exists>w a' r'. session_encrypt toy_crypto [1, 2, 3] [9] (toy_pq_sessions WIRE_VERSION_V2 Responder) (sconst 5) = (Ok w, a', r')
     \<and> fst (session_decrypt toy_crypto w [9] (toy_pq_sessions WIRE_VERSION_V2 Initiator) (sconst 6)) = Ok [1, 2, 3]"
proof -
  let ?s = "start_state (toy_pq_sessions WIRE_VERSION_V2)"
  have "next_msg_num (st_sending_chain (party ?s Responder)) \<noteq> 0xFFFFFFFF"
    by (simp add: start_state_def toy_pq_sessions_def enable_pq_ratchet_def toy_sessions_def initial_session_def chain_new_def)
  moreover have "pq_ready toy_crypto (party ?s Responder) (party ?s (peer Responder))"
    unfolding start_state_def using toy_pq_ready [of WIRE_VERSION_V2 Responder] by simp
  ultimately show ?thesis
    using send_then_receive [OF toy_hkdf_ok toy_aead_ok toy_session_pair toy_pq_variant run.start _ toy_fits,
        of WIRE_VERSION_V2 Responder "sconst 5" "sconst 6"]
    by (simp add: start_state_def)
qed

subsection \<open>Arbitrary call sequences\<close>

datatype session_call = Encrypt bytes bytes | Decrypt bytes bytes

fun apply_call :: "crypto \<Rightarrow> session_call \<Rightarrow> SessionState \<times> rng \<Rightarrow> SessionState \<times> rng" where
  "apply_call c (Encrypt msg ad) (s, r) = snd (session_encrypt c msg ad s r)"
| "apply_call c (Decrypt w ad) (s, r) = snd (session_decrypt c w ad s r)"

definition apply_calls :: "crypto \<Rightarrow> session_call list \<Rightarrow> SessionState \<times> rng \<Rightarrow> SessionState \<times> rng" where
  "apply_calls c calls s = fold (apply_call c) calls s"

lemma apply_call_inv:
  assumes "hkdf_ok c" "dh_ok c" "session_inv (fst s)"
  shows "session_inv (fst (apply_call c call s)) \<and> limits (fst (apply_call c call s)) = limits (fst s)"
proof (cases call; cases s)
  fix msg ad st r
  assume "call = Encrypt msg ad" "s = (st, r)"
  moreover obtain res st' r' where "session_encrypt c msg ad st r = (res, st', r')" by (metis prod_cases3)
  ultimately show ?thesis using session_encrypt_inv [OF assms(1), of st msg ad r] assms(3) by simp
next
  fix w ad st r
  assume "call = Decrypt w ad" "s = (st, r)"
  moreover obtain res st' r' where "session_decrypt c w ad st r = (res, st', r')" by (metis prod_cases3)
  ultimately show ?thesis using session_decrypt_inv [OF assms(1,2), of st w ad r] assms(3) by simp
qed

lemma apply_calls_inv:
  assumes "hkdf_ok c" "dh_ok c"
  shows "session_inv (fst s) \<Longrightarrow> session_inv (fst (apply_calls c calls s)) \<and> limits (fst (apply_calls c calls s)) = limits (fst s)"
  unfolding apply_calls_def
  by (induction calls arbitrary: s) (simp_all add: apply_call_inv [OF assms])

lemma initial_session_inv:
  assumes "hkdf_ok c" "length rk = 32" "length (dh_public kp) = 32" "length (dh_secret kp) = 32" "length rd = 32"
    "from_handshake_with_suite_and_wire_version c role rk kp rd sid wv mx = Ok s"
  shows "session_inv s \<and> limits s = (min mx MAX_SKIPPED_KEYS_UPPER_BOUND, None)"
proof -
  have "length (init_key c rk info) = 32" for info
    using hkdf_sha256_32_init [OF assms(1)] hkdf_sha256_32_length [OF assms(1)] by metis
  then show ?thesis
    using assms by (auto simp: from_handshake_eq initial_session_def session_inv_def limits_def chain_new_def
        send_chain_key_def send_header_key_def skipped.new_inv skipped.new_cap)
qed

lemma enable_pq_ratchet_inv:
  assumes "session_inv s" "length (pq_local_key_history st) \<le> pq_max_key_history st"
  shows "session_inv (enable_pq_ratchet st kem s)
    \<and> limits (enable_pq_ratchet st kem s) = (fst (limits s), Some (pq_max_key_history st))"
  using assms by (simp add: enable_pq_ratchet_def session_inv_def limits_def)

text \<open>
  C3. A session stays well formed and bounded against an arbitrary network. Take a session built by the
  handshake, without the post-quantum ratchet or with it in a state whose key history does not exceed its
  maximum. After any sequence of encryptions and of decryptions of arbitrary bytes, its keys have their
  sizes, its key cache is consistent and holds at most \<open>max_skipped\<close> entries, never more than
  the hard bound of 2048, the history of post-quantum keys holds at most \<open>max_key_history\<close>
  keys, and writing a snapshot and reading it back gives the same session.
\<close>

theorem session_bounded:
  assumes "hkdf_ok c" "dh_ok c" "length rk = 32" "dh_pair_ok c kp" "length rd = 32"
    and "length (pq_local_key_history pq) \<le> pq_max_key_history pq"
    and "from_handshake_with_suite_and_wire_version c role rk kp rd sid wv mx = Ok s0
       \<or> from_handshake_with_suite_and_wire_version_with_pq_ratchet c role rk kp rd sid wv mx pq kem = Ok s0"
    and "s = fst (apply_calls c calls (s0, r))"
  shows "session_inv s \<and> length (sm_order (st_skipped s)) \<le> min mx 2048
    \<and> dom (sm_map (st_skipped s)) = set (sm_order (st_skipped s))
    \<and> (case st_pq_state s of None \<Rightarrow> True | Some st \<Rightarrow> length (pq_local_key_history st) \<le> pq_max_key_history pq)
    \<and> from_snapshot_with_kem (session_snapshot s) (st_pq_kem s) = s"
proof -
  have kp: "length (dh_public kp) = 32" "length (dh_secret kp) = 32"
    using assms(4) unfolding dh_pair_ok_def by blast+
  obtain s1 where s1: "from_handshake_with_suite_and_wire_version c role rk kp rd sid wv mx = Ok s1"
    "s0 = s1 \<or> s0 = enable_pq_ratchet pq kem s1"
    using assms(7) by (auto simp: from_handshake_with_suite_and_wire_version_with_pq_ratchet_def)
  have i1: "session_inv s1" "limits s1 = (min mx MAX_SKIPPED_KEYS_UPPER_BOUND, None)"
    using initial_session_inv [OF assms(1,3) kp assms(5) s1(1)] by simp_all
  have i0: "session_inv s0" "fst (limits s0) = min mx MAX_SKIPPED_KEYS_UPPER_BOUND" "snd (limits s0) \<in> {None, Some (pq_max_key_history pq)}"
    using s1(2) i1 enable_pq_ratchet_inv [OF i1(1) assms(6), of kem] by auto
  have inv: "session_inv s" and lim: "limits s = limits s0"
    using apply_calls_inv [OF assms(1,2), of "(s0, r)" calls] i0(1) assms(8) by simp_all
  then have "sm_inv (st_skipped s)" by (simp add: session_inv_def)
  moreover have "case st_pq_state s of None \<Rightarrow> True | Some st \<Rightarrow> length (pq_local_key_history st) \<le> pq_max_key_history pq"
    using inv lim i0(3) by (auto simp: session_inv_def limits_def split: option.splits)
  ultimately show ?thesis
    using inv lim i0(2) from_snapshot_snapshot [of s] by (simp add: sm_inv_def limits_def MAX_SKIPPED_KEYS_UPPER_BOUND_def)
qed

theorem session_bounded_witness:
  "case st_pq_state (fst (apply_calls toy_crypto (replicate 9 (Encrypt [1] [2]) @ [Decrypt [144, 1, 0, 0] []])
       (toy_pq_sessions WIRE_VERSION_V2 Initiator, sconst 0))) of
     None \<Rightarrow> True | Some st \<Rightarrow> length (pq_local_key_history st) \<le> pq_max_key_history (toy_pq_of Initiator)"
proof -
  have h: "length (replicate 32 7 :: bytes) = 32" "dh_pair_ok toy_crypto (toy_kp Initiator)" "length (dh_public (toy_kp Responder)) = 32"
      "length (pq_local_key_history (toy_pq_of Initiator)) \<le> pq_max_key_history (toy_pq_of Initiator)"
    by (simp_all add: toy_pq_of_def)
  have "from_handshake_with_suite_and_wire_version_with_pq_ratchet toy_crypto Initiator (replicate 32 7) (toy_kp Initiator)
      (dh_public (toy_kp Responder)) 1 WIRE_VERSION_V2 10 (toy_pq_of Initiator) toy_kem = Ok (toy_pq_sessions WIRE_VERSION_V2 Initiator)"
    by (simp add: from_handshake_with_suite_and_wire_version_with_pq_ratchet_def from_handshake_eq toy_pq_sessions_def toy_sessions_def)
  from session_bounded [OF toy_hkdf_ok toy_dh_ok h disjI2 [OF this] refl] show ?thesis by blast
qed

subsection \<open>The key schedule\<close>

text \<open>
  C6. What the message keys of a conversation depend on. In every run of two sessions built from one
  handshake, with the post-quantum ratchet on or off, both ends of each direction are positions
  \<open>n\<close> and \<open>m \<le> n\<close> of the one chain derived from the handshake root key, and
  neither party ever replaces its Diffie-Hellman key pair. So the two ends agree, and the root key into
  which the post-quantum ratchet mixes its shared secrets never reaches a message key.
\<close>

theorem key_schedule:
  assumes "hkdf_ok c" "aead_ok c" "session_pair c rk kp sid wv mx s" "pq_variant s s0" "run c s0 p"
  shows "\<exists>n m. m \<le> n
    \<and> st_sending_chain (party p x) = chain_at c (send_chain_key c rk x) n
    \<and> st_receiving_chain (party p (peer x)) = chain_at c (send_chain_key c rk x) m
    \<and> dh_public (st_local_dh (party p x)) = dh_public (kp x)
    \<and> st_remote_dh_pub (party p (peer x)) = dh_public (kp x)"
proof -
  from reachable_inv [OF assms(1-4) _ assms(5), of False x] obtain n m where "m \<le> n"
      "sender_inv c (send_chain_key c rk x) (dh_public (kp x)) (send_header_key c rk wv x) sid False n (party p x) (sent p x)"
      "listener_inv c (send_chain_key c rk x) (dh_public (kp x)) (send_header_key c rk wv x) sid
        (min mx MAX_SKIPPED_KEYS_UPPER_BOUND) m (got p x) (party p (peer x))"
    by (metis (full_types))
  then show ?thesis
    by (intro exI [of _ n] exI [of _ m]) (simp add: sender_inv_def listener_inv_def receiver_inv_def)
qed

theorem key_schedule_witness:
  "\<exists>a' res r'. session_encrypt toy_crypto [1] [] (enable_pq_ratchet (toy_pq_of Initiator) toy_kem (toy_sessions 1 Initiator)) (sconst 1) = (res, a', r')
     \<and> (\<exists>n. st_sending_chain a' = chain_at toy_crypto (send_chain_key toy_crypto (replicate 32 7) Initiator) n)"
proof -
  let ?s0 = "(toy_sessions 1)(Initiator := enable_pq_ratchet (toy_pq_of Initiator) toy_kem (toy_sessions 1 Initiator))"
  obtain res a' r' where enc: "session_encrypt toy_crypto [1] [] (party (start_state ?s0) Initiator) (sconst 1) = (res, a', r')"
    by (metis prod_cases3)
  note run' = run.send [OF run.start enc]
  have v: "pq_variant (toy_sessions 1) ?s0" by (auto simp: pq_variant_def)
  from key_schedule [OF toy_hkdf_ok toy_aead_ok toy_session_pair v run', of Initiator]
  have "\<exists>n. st_sending_chain a' = chain_at toy_crypto (send_chain_key toy_crypto (replicate 32 7) Initiator) n"
    by auto
  with enc show ?thesis by (auto simp: start_state_def)
qed

subsection \<open>Rejected messages\<close>

lemma session_decrypt_consumes:
  assumes "hkdf_ok c" "receiver_inv c ck d m g b" "m < 0xFFFFFFFF"
    and "wm_wf f" "wm_encode f = Ok w" "wm_suite_id f = st_suite_id b" "wm_sender_dh_pub f = d" "wm_msg_num f = of_nat m"
    and dec: "session_decrypt c w ad b r = (res, b', r')"
  shows "receiver_inv c ck d (Suc m) (insert m g) b' \<and> st_suite_id b' = st_suite_id b
    \<and> st_receiving_header_key b' = st_receiving_header_key b
    \<and> st_prev_receiving_header_key b' = st_prev_receiving_header_key b"
proof -
  define mf where "mf = \<lparr>mf_wire_version = wm_version f, mf_suite_id = wm_suite_id f,
         mf_sender_dh_pub = wm_sender_dh_pub f, mf_msg_num = wm_msg_num f,
         mf_prev_chain_len = wm_prev_chain_len f,
         mf_pq = \<lparr>pf_step_ct = wm_pq_step_ct f, pf_target_pub_hash = wm_pq_target_pub_hash f,
                  pf_next_public_key = wm_pq_next_public_key f\<rparr>,
         mf_aead_nonce = wm_aead_nonce f, mf_ciphertext = wm_ciphertext f\<rparr>"
  have fields: "message_fields c b (V1 f) = Ok mf" by (simp add: mf_def)
  have d: "mf_sender_dh_pub mf = d" "mf_msg_num mf = of_nat m" "mf_suite_id mf = st_suite_id b"
    using assms(6-8) by (simp_all add: mf_def)
  have "\<not> key_gone d m m b" by (simp add: key_gone_def)
  from message_key_for_available [OF assms(1,2) d(1,2) assms(3) this] obtain ch cache where
      key: "message_key_for c mf b = (Ok (message_key_at c ck m), b\<lparr>st_receiving_chain := ch, st_skipped := cache\<rparr>)"
      and inv: "receiver_inv c ck d (max m (Suc m)) (insert m g) (b\<lparr>st_receiving_chain := ch, st_skipped := cache\<rparr>)"
    by metis
  let ?b = "b\<lparr>st_receiving_chain := ch, st_skipped := cache\<rparr>"
  have rn: "ratchet_if_new c mf b r = (Ok (), b, r)"
    using assms(2) d(1) by (simp add: ratchet_if_new_def receiver_inv_def)
  obtain pr s' where pq: "decrypt_pq_step c mf ?b = (pr, s')" by fastforce
  have b': "b' \<in> {?b, s'}"
    using dec by (auto simp: session_decrypt_def decode_wire_v1 [OF assms(4,5)] fields d(3) rn key pq
        simp del: message_fields.simps split: sum.splits)
  show ?thesis
  proof (rule decrypt_pq_step_frame [OF pq])
    fix rk q
    assume "s' = ?b\<lparr>st_root_key := rk, st_pq_state := q\<rparr>"
    with b' inv show ?thesis by auto
  qed
qed

text \<open>
  C15. A forged message destroys a genuine one. Let the next message the receiver expects be number
  \<open>i\<close>, and let anyone on the network hand it a version 1 message that carries the sender's public
  ratchet key, the suite and the number \<open>i\<close>, all of them public, but is then rejected. The rejected
  call has used up the message key: the genuine message number \<open>i\<close> is from then on refused with
  \<^verbatim>\<open>MessageKeyUnavailable\<close>.
\<close>

theorem forged_message_blocks_genuine:
  assumes "hkdf_ok c" "aead_ok c" "session_pair c rk kp sid wv mx s" "run c s p"
    and msg: "sent p x i = Some (w, msg, ad)"
    and i: "unat (next_msg_num (st_receiving_chain (party p (peer x)))) = i"
    and forged: "wm_wf f" "wm_encode f = Ok w'" "wm_suite_id f = sid" "wm_sender_dh_pub f = dh_public (kp x)"
      "wm_msg_num f = of_nat i"
    and rej: "session_decrypt c w' ad' (party p (peer x)) r = (Err e, b', r')"
  shows "fst (session_decrypt c w ad b' q) = Err MessageKeyUnavailable"
proof -
  let ?b = "party p (peer x)" and ?d = "dh_public (kp x)" and ?ck = "send_chain_key c rk x"
  have v: "pq_variant s s" by (simp add: pq_variant_def)
  from reachable_inv [OF assms(1-3) v _ assms(4), of True] obtain n m where
      snd: "sender_inv c ?ck ?d (send_header_key c rk wv x) sid True n (party p x) (sent p x)"
      and lst: "listener_inv c ?ck ?d (send_header_key c rk wv x) sid (min mx MAX_SKIPPED_KEYS_UPPER_BOUND) m (got p x) ?b"
    by (metis (full_types))
  have inv: "receiver_inv c ?ck ?d m (got p x) ?b" and hk: "holds_header_key (send_header_key c rk wv x) ?b"
    and sid: "st_suite_id ?b = sid" using lst by (simp_all add: listener_inv_def)
  have "st_receiving_chain ?b = chain_at c ?ck m" "m \<le> 0xFFFFFFFF" using inv by (simp_all add: receiver_inv_def)
  then have m: "m = i" using i by (simp add: unat_of_nat)
  have s: "i < n \<and> sent_ok c ?ck ?d (send_header_key c rk wv x) sid True i (w, msg, ad)" and "n \<le> 0xFFFFFFFF"
    using snd msg unfolding sender_inv_def by blast+
  then have lt: "i < 0xFFFFFFFF" by simp
  have b': "receiver_inv c ?ck ?d (Suc i) (insert i (got p x)) b'" "st_suite_id b' = sid"
      "holds_header_key (send_header_key c rk wv x) b'"
    using session_decrypt_consumes [OF assms(1) inv [unfolded m] lt forged(1,2) _ forged(4,5) rej] forged(3) sid hk
    by (simp_all add: holds_header_key_def)
  have gone: "key_gone ?d (Suc i) i b'" using receiver_inv_entry(2) [OF b'(1), of i] by (simp add: key_gone_def)
  have s': "sent_ok c ?ck ?d (send_header_key c rk wv x) (st_suite_id b') True i (w, msg, ad)"
    using s b'(2) by simp
  obtain res b2 q2 where dec: "session_decrypt c w ad b' q = (res, b2, q2)" by (metis prod_cases3)
  show ?thesis
    by (rule session_decrypt_sent [OF assms(1) b'(1) lt b'(3) s' dec]) (use gone dec in auto)
qed

definition toy_forged :: WireMessage where
  "toy_forged = \<lparr>wm_version = 1, wm_suite_id = 1, wm_sender_dh_pub = dh_public (toy_kp Initiator), wm_msg_num = 0,
     wm_prev_chain_len = 0, wm_pq_step_ct = None, wm_pq_target_pub_hash = None, wm_pq_next_public_key = None,
     wm_aead_nonce = replicate 12 0, wm_ciphertext = []\<rparr>"

lemma toy_open_empty: "chacha_open toy_crypto k n a [] = None"
proof -
  have "toy_tag k \<noteq> []" using length_toy_tag [of k] by (metis list.size(3) zero_neq_numeral)
  then show ?thesis by (simp add: toy_crypto_def toy_open_def toy_seal_def aead_max_def)
qed

lemma toy_forged_wf: "wm_wf toy_forged" "\<exists>w. wm_encode toy_forged = Ok w"
  by (simp_all add: toy_forged_def wm_wf_def wm_encode_def wm_records_def encode_fits)

lemma toy_forged_rejected:
  assumes "wm_encode toy_forged = Ok w"
  shows "\<exists>e b' r'. session_decrypt toy_crypto w [] (toy_sessions 1 Responder) r = (Err e, b', r')"
proof -
  let ?b = "toy_sessions 1 Responder"
  obtain mf where mf: "message_fields toy_crypto ?b (V1 toy_forged) = Ok mf" "mf_suite_id mf = 1"
      "mf_sender_dh_pub mf = dh_public (toy_kp Initiator)" "mf_msg_num mf = of_nat 0" "mf_ciphertext mf = []"
    by (simp add: toy_forged_def)
  have b: "st_suite_id ?b = 1" "st_remote_dh_pub ?b = dh_public (toy_kp Initiator)"
      "st_receiving_chain ?b = chain_at toy_crypto (send_chain_key toy_crypto (replicate 32 7) Initiator) 0"
    by (simp_all add: toy_sessions_def initial_session_def chain_at_new [of _ toy_crypto])
  have "ratchet_if_new toy_crypto mf ?b r = (Ok (), ?b, r)" using mf(3) b(2) by (simp add: ratchet_if_new_def)
  moreover obtain k b2 where "message_key_for toy_crypto mf ?b = (Ok k, b2)"
    using message_key_for_new [OF toy_hkdf_ok b(3) _ _ mf(4)] by simp
  moreover obtain e where "open_fields toy_crypto [] mf False k = Err e"
    using mf(5) by (cases "open_fields toy_crypto [] mf False k")
      (auto simp: open_fields_def aead_decrypt_def toy_open_empty split: if_splits)
  ultimately show ?thesis
    using mf(1,2) b(1) by (simp add: session_decrypt_def decode_wire_v1 [OF toy_forged_wf(1) assms] del: message_fields.simps)
qed

theorem forged_message_blocks_genuine_witness:
  "\<exists>p w w' e b' r'. run toy_crypto (toy_sessions 1) p \<and> sent p Initiator 0 = Some (w, [1, 2, 3], [9])
     \<and> session_decrypt toy_crypto w' [] (party p Responder) (sconst 0) = (Err e, b', r')
     \<and> fst (session_decrypt toy_crypto w [9] b' r') = Err MessageKeyUnavailable"
proof -
  obtain p w where p: "run toy_crypto (toy_sessions 1) p" "sent p Initiator 0 = Some (w, [1, 2, 3], [9])"
      "party p Responder = toy_sessions 1 Responder"
    using toy_run_sent by metis
  obtain w' where w': "wm_encode toy_forged = Ok w'" using toy_forged_wf(2) by blast
  obtain e b' r' where rej: "session_decrypt toy_crypto w' [] (party p (peer Initiator)) (sconst 0) = (Err e, b', r')"
    using toy_forged_rejected [OF w'] p(3) by fastforce
  have "unat (next_msg_num (st_receiving_chain (party p (peer Initiator)))) = 0"
    by (simp add: p(3) toy_sessions_def initial_session_def chain_new_def)
  from forged_message_blocks_genuine [OF toy_hkdf_ok toy_aead_ok toy_session_pair p(1,2) this toy_forged_wf(1) w' _ _ _ rej, of r']
  have fin: "fst (session_decrypt toy_crypto w [9] b' r') = Err MessageKeyUnavailable" by (simp add: toy_forged_def)
  have "session_decrypt toy_crypto w' [] (party p Responder) (sconst 0) = (Err e, b', r')" using rej by simp
  with p(1,2) fin show ?thesis by (intro exI conjI)
qed

subsection \<open>The Diffie-Hellman ratchet\<close>

text \<open>
  The root keys are in step: the root key that \<open>a\<close> derives when it receives the current public
  key of \<open>b\<close> is the one that \<open>b\<close> holds. Sessions straight out of the handshake
  hold one and the same root key instead.
\<close>

definition roots_in_step :: "crypto \<Rightarrow> SessionState \<Rightarrow> SessionState \<Rightarrow> bool" where
  "roots_in_step c a b = (case dh_root_step c (st_root_key a) (dh_secret (st_local_dh a)) (dh_public (st_local_dh b)) of
       Inl e \<Rightarrow> False | Inr recv \<Rightarrow> st_root_key b = rs_root_key recv)"


lemma apply_dh_ratchet_total:
  assumes "hkdf_ok c"
  shows "\<exists>s' r'. apply_dh_ratchet c d s r = (Ok (), s', r')"
proof -
  have "\<exists>o'. dh_root_step c rk a b = Ok o'" for rk a b
    unfolding dh_root_step_def using kdf_root_step_Ok [OF assms] by metis
  then show ?thesis
    unfolding apply_dh_ratchet_def Let_def by (metis (no_types, lifting) case_prod_beta sum.case(2))
qed


subsection \<open>Encrypted headers\<close>

unbundle bit_operations_syntax

lemma message_fields_header:
  "message_fields c s (V2 m) = Ok f \<Longrightarrow> decrypt_v2_header c s (w2_encrypted_header m) = Ok (header_of f)"
  by (auto simp: header_of_def)

text \<open>
  C36. The encrypted headers of one direction reuse the key stream. Take two version 2 sessions built from
  one handshake, with the post-quantum ratchet on or off, any run of them, and any two messages that one
  party has sent in it. Their headers, which the peer reads as \<open>H1\<close> and \<open>H2\<close>, are
  encrypted with the same key and the same all-zero counter block: the exclusive or of the two encrypted
  headers, which anybody on the network can compute, is the exclusive or of the encodings of the two
  headers, up to the length of the shorter one, and does not depend on the key.
\<close>

theorem header_keystream_reused:
  assumes "hkdf_ok c" "aead_ok c" "session_pair c rk kp sid wv mx s" "wv \<ge> WIRE_VERSION_V2" "pq_variant s s0" "run c s0 p"
    and "sent p x i = Some (w1, msg1, ad1)" "sent p x j = Some (w2, msg2, ad2)"
  shows "\<exists>e1 e2 H1 H2 h1 h2. decode_wire_message w1 = Ok (V2 e1) \<and> decode_wire_message w2 = Ok (V2 e2)
    \<and> decrypt_v2_header c (party p (peer x)) (w2_encrypted_header e1) = Ok H1
    \<and> decrypt_v2_header c (party p (peer x)) (w2_encrypted_header e2) = Ok H2
    \<and> hp_msg_num H1 = of_nat i \<and> hp_msg_num H2 = of_nat j \<and> hp_encode H1 = Ok h1 \<and> hp_encode H2 = Ok h2
    \<and> length (w2_encrypted_header e1) = length h1 \<and> length (w2_encrypted_header e2) = length h2
    \<and> map2 (XOR) (w2_encrypted_header e1) (w2_encrypted_header e2) = map2 (XOR) h1 h2"
proof -
  obtain hk where hk: "send_header_key c rk wv x = Some hk" using assms(4) by (simp add: send_header_key_def)
  have header: "\<exists>e f h. decode_wire_message w = Ok (V2 e) \<and> decrypt_v2_header c (party p (peer x)) (w2_encrypted_header e) = Ok (header_of f)
      \<and> hp_msg_num (header_of f) = of_nat n \<and> hp_encode (header_of f) = Ok h \<and> w2_encrypted_header e = encrypt_header c hk h"
    if msg: "sent p x n = Some (w, msg, ad)" for n w msg ad
  proof -
    obtain sid' plain where ok: "sent_ok c (send_chain_key c rk x) (dh_public (kp x)) (Some hk) sid' plain n (w, msg, ad)"
      and hold: "holds_header_key (Some hk) (party p (peer x))"
      using reachable_sent [OF assms(1-3,5,6) msg] hk by metis
    from ok obtain decoded f where f: "decode_wire_message w = Ok decoded" "carries c (Some hk) decoded f" "is_V2 decoded" "mf_msg_num f = of_nat n"
      unfolding sent_ok_def prod.case by blast
    from f(3) obtain e where e: "decoded = V2 e" by (cases decoded) auto
    obtain h where h: "hp_encode (header_of f) = Ok h" "w2_encrypted_header e = encrypt_header c hk h"
      using f(2) e unfolding carries_def by auto
    have "message_fields c (party p (peer x)) (V2 e) = Ok f"
      using f(2) e hold unfolding carries_def holds_header_key_def by blast
    from message_fields_header [OF this] f h e show ?thesis
      by (intro exI [of _ e] exI [of _ f] exI [of _ h]) (simp add: header_of_def)
  qed
  obtain e1 f1 h1 e2 f2 h2 where h: "decode_wire_message w1 = Ok (V2 e1)" "decode_wire_message w2 = Ok (V2 e2)"
      "decrypt_v2_header c (party p (peer x)) (w2_encrypted_header e1) = Ok (header_of f1)"
      "decrypt_v2_header c (party p (peer x)) (w2_encrypted_header e2) = Ok (header_of f2)"
      "hp_msg_num (header_of f1) = of_nat i" "hp_msg_num (header_of f2) = of_nat j"
      "hp_encode (header_of f1) = Ok h1" "hp_encode (header_of f2) = Ok h2"
      "w2_encrypted_header e1 = encrypt_header c hk h1" "w2_encrypted_header e2 = encrypt_header c hk h2"
    using header [OF assms(7)] header [OF assms(8)] by blast
  then have "length (w2_encrypted_header e1) = length h1" "length (w2_encrypted_header e2) = length h2"
      "map2 (XOR) (w2_encrypted_header e1) (w2_encrypted_header e2) = map2 (XOR) h1 h2"
    by (simp_all only: length_encrypt_header encrypt_header_xor)
  with h(1-8) show ?thesis by blast
qed

theorem header_keystream_reused_witness:
  "\<exists>p w1 w2 e1 e2 H1 H2 h1 h2. run toy_crypto (toy_sessions WIRE_VERSION_V2) p
     \<and> sent p Initiator 0 = Some (w1, [1, 2, 3], [9]) \<and> sent p Initiator 1 = Some (w2, [1, 2, 3], [9])
     \<and> decode_wire_message w1 = Ok (V2 e1) \<and> decode_wire_message w2 = Ok (V2 e2)
     \<and> hp_msg_num H1 = 0 \<and> hp_msg_num H2 = 1 \<and> hp_encode H1 = Ok h1 \<and> hp_encode H2 = Ok h2
     \<and> map2 (XOR) (w2_encrypted_header e1) (w2_encrypted_header e2) = map2 (XOR) h1 h2"
proof -
  obtain p w w' where p: "run toy_crypto (toy_sessions WIRE_VERSION_V2) p" "sent p Initiator 0 = Some (w, [1, 2, 3], [9])"
      "sent p Initiator 1 = Some (w', [1, 2, 3], [9])"
    by (rule toy_run_sent2 [of WIRE_VERSION_V2])
  from header_keystream_reused [OF toy_hkdf_ok toy_aead_ok toy_session_pair _ pq_variant_refl p] p show ?thesis
    by simp blast
qed

end
