(* ===== verification/Pq_Sig.thy ===== *)
theory Pq_Sig
  imports Kem Codec
begin

text \<open>
  \<^verbatim>\<open>pq_sig.rs\<close>: the post-quantum signature provider in its three builds and the concatenation
  of an Ed25519 and an ML-DSA-65 signature. The two libraries are the record \<open>sig_backend\<close>.
\<close>

record PqSigKeyPair =
  pqs_public_key :: bytes
  pqs_secret_key :: SecretBytes

record pq_sig_provider =
  pqsig_keypair :: "rng \<Rightarrow> PqSigKeyPair result \<times> rng"
  pqsig_sign :: "bytes \<Rightarrow> bytes \<Rightarrow> rng \<Rightarrow> bytes result \<times> rng"
  pqsig_verify :: "bytes \<Rightarrow> bytes \<Rightarrow> bytes \<Rightarrow> unit result"

record sig_backend =
  sb_available :: bool
  sb_pk_len :: usize
  sb_sk_len :: usize
  sb_sig_len :: usize
  sb_pk_ok :: "bytes \<Rightarrow> bool"
  sb_sk_ok :: "bytes \<Rightarrow> bool"
  sb_sig_ok :: "bytes \<Rightarrow> bool"
  sb_keygen :: "rng \<Rightarrow> (bytes \<times> bytes) option \<times> rng"
  sb_sign :: "bytes \<Rightarrow> bytes \<Rightarrow> rng \<Rightarrow> bytes option \<times> rng"
  sb_verify :: "bytes \<Rightarrow> bytes \<Rightarrow> bytes \<Rightarrow> bool"

definition ML_DSA_65_PK_LEN :: usize where "ML_DSA_65_PK_LEN = 1952"
definition ML_DSA_65_SK_LEN :: usize where "ML_DSA_65_SK_LEN = 4032"
definition ML_DSA_65_SIG_LEN :: usize where "ML_DSA_65_SIG_LEN = 3309"

definition MlDsa65_new :: "features \<Rightarrow> sig_backend \<Rightarrow> unit result" where
  "MlDsa65_new ft be = (case pq_build_of ft of
       OqsBuild \<Rightarrow> if sb_available be then Ok () else Err (PqSigOperation ''MlDsa65 init failed'')
     | RustBuild \<Rightarrow> Ok ()
     | DisabledBuild \<Rightarrow> Err pq_disabled)"

definition MlDsa65_keypair :: "features \<Rightarrow> sig_backend \<Rightarrow> rng \<Rightarrow> PqSigKeyPair result \<times> rng" where
  "MlDsa65_keypair ft be rng =
     (if pq_build_of ft = DisabledBuild then (Err pq_disabled, rng)
      else let (r, rng) = sb_keygen be rng in
        (and_then (ok_or r (PqSigOperation ''keypair generation failed''))
           (\<lambda>(pk, sk). Ok \<lparr>pqs_public_key = pk, pqs_secret_key = sk\<rparr>), rng))"

definition MlDsa65_sign ::
  "features \<Rightarrow> sig_backend \<Rightarrow> bytes \<Rightarrow> bytes \<Rightarrow> rng \<Rightarrow> bytes result \<times> rng" where
  "MlDsa65_sign ft be sk msg rng =
     (let run = (let (r, rng) = sb_sign be sk msg rng in
                 (ok_or r (PqSigOperation ''signing failed''), rng))
      in case pq_build_of ft of
           OqsBuild \<Rightarrow>
             if \<not> sb_sk_ok be sk
             then (Err (InvalidLength ''pq_sig.secret_key'' (sb_sk_len be) (length sk)), rng)
             else run
         | RustBuild \<Rightarrow>
             (case to_fixed_array (sb_sk_len be) ''pq_sig.secret_key'' sk of
                Inl e \<Rightarrow> (Err e, rng)
              | Inr sk \<Rightarrow>
                  if \<not> sb_sk_ok be sk
                  then (Err (PqSigOperation ''secret key deserialization failed''), rng)
                  else run)
         | DisabledBuild \<Rightarrow> (Err pq_disabled, rng))"

definition MlDsa65_verify ::
  "features \<Rightarrow> sig_backend \<Rightarrow> bytes \<Rightarrow> bytes \<Rightarrow> bytes \<Rightarrow> unit result" where
  "MlDsa65_verify ft be pk msg sig = (case pq_build_of ft of
       OqsBuild \<Rightarrow>
         if \<not> sb_pk_ok be pk then Err (InvalidLength ''pq_sig.public_key'' (sb_pk_len be) (length pk))
         else if \<not> sb_sig_ok be sig
         then Err (InvalidLength ''pq_sig.signature'' (sb_sig_len be) (length sig))
         else if sb_verify be pk msg sig then Ok () else Err SignatureVerificationFailed
     | RustBuild \<Rightarrow>
         and_then (to_fixed_array (sb_pk_len be) ''pq_sig.public_key'' pk) (\<lambda>pk.
         and_then (to_fixed_array (sb_sig_len be) ''pq_sig.signature'' sig) (\<lambda>sig.
         if \<not> sb_pk_ok be pk then Err (PqSigOperation ''public key deserialization failed'')
         else if sb_verify be pk msg sig then Ok () else Err SignatureVerificationFailed))
     | DisabledBuild \<Rightarrow> Err pq_disabled)"

definition mldsa_provider :: "features \<Rightarrow> sig_backend \<Rightarrow> pq_sig_provider" where
  "mldsa_provider ft be = \<lparr>pqsig_keypair = MlDsa65_keypair ft be,
     pqsig_sign = MlDsa65_sign ft be, pqsig_verify = MlDsa65_verify ft be\<rparr>"

record HybridSignature =
  hs_ed25519_sig :: bytes
  hs_pq_sig :: bytes

definition hs_encode :: "HybridSignature \<Rightarrow> bytes" where
  "hs_encode s = hs_ed25519_sig s @ hs_pq_sig s"

definition hs_decode :: "bytes \<Rightarrow> HybridSignature result" where
  "hs_decode bs =
     (if length bs \<le> 64 then Err (InvalidLength ''hybrid_signature'' 65 (length bs))
      else Ok \<lparr>hs_ed25519_sig = take 64 bs, hs_pq_sig = drop 64 bs\<rparr>)"

definition hs_wf :: "HybridSignature \<Rightarrow> bool" where
  "hs_wf s \<longleftrightarrow> length (hs_ed25519_sig s) = 64 \<and> hs_pq_sig s \<noteq> []"

interpretation hybrid_codec: codec "\<lambda>s. Ok (hs_encode s)" hs_decode hs_wf
  by unfold_locales (auto simp: hs_encode_def hs_decode_def hs_wf_def split: if_splits)

text \<open>A signing key and the verification key that belongs to it, for a provider.\<close>

definition pqsig_pair_ok :: "pq_sig_provider \<Rightarrow> bytes \<Rightarrow> bytes \<Rightarrow> bool" where
  "pqsig_pair_ok p pk sk \<longleftrightarrow> (\<forall>m r. \<exists>s r'. pqsig_sign p sk m r = (Ok s, r') \<and> s \<noteq> []
     \<and> pqsig_verify p pk m s = Ok ())"

definition pqsig_ok :: "pq_sig_provider \<Rightarrow> bool" where
  "pqsig_ok p \<longleftrightarrow> (\<forall>r. \<exists>kp r'. pqsig_keypair p r = (Ok kp, r')
     \<and> pqsig_pair_ok p (pqs_public_key kp) (pqs_secret_key kp))"

lemma pqsig_pair_okD:
  assumes "pqsig_pair_ok p pk sk"
  obtains s r' where "pqsig_sign p sk m r = (Ok s, r')" and "s \<noteq> []" and "pqsig_verify p pk m s = Ok ()"
  using assms unfolding pqsig_pair_ok_def by blast

definition sig_backend_ok :: "sig_backend \<Rightarrow> bool" where
  "sig_backend_ok be \<longleftrightarrow> 0 < sb_sig_len be
     \<and> (\<forall>r. \<exists>pk sk r'. sb_keygen be r = (Some (pk, sk), r')
          \<and> length pk = sb_pk_len be \<and> sb_pk_ok be pk \<and> length sk = sb_sk_len be \<and> sb_sk_ok be sk
          \<and> (\<forall>m q. \<exists>s q'. sb_sign be sk m q = (Some s, q') \<and> length s = sb_sig_len be \<and> sb_sig_ok be s
               \<and> sb_verify be pk m s))"

lemma mldsa_provider_ok:
  assumes "pq_build_of ft \<noteq> DisabledBuild" and "sig_backend_ok be"
  shows "pqsig_ok (mldsa_provider ft be)"
  unfolding pqsig_ok_def
proof
  fix r
  obtain pk sk r' where kg: "sb_keygen be r = (Some (pk, sk), r')"
    and keys: "length pk = sb_pk_len be" "sb_pk_ok be pk" "length sk = sb_sk_len be" "sb_sk_ok be sk"
    and sig: "\<forall>m q. \<exists>s q'. sb_sign be sk m q = (Some s, q') \<and> length s = sb_sig_len be
       \<and> sb_sig_ok be s \<and> sb_verify be pk m s"
    and pos: "0 < sb_sig_len be"
    using assms(2) unfolding sig_backend_ok_def by meson
  have "\<exists>s q'. pqsig_sign (mldsa_provider ft be) sk m q = (Ok s, q') \<and> s \<noteq> []
     \<and> pqsig_verify (mldsa_provider ft be) pk m s = Ok ()" for m q
  proof -
    obtain s q' where "sb_sign be sk m q = (Some s, q')" "length s = sb_sig_len be" "sb_sig_ok be s"
        "sb_verify be pk m s"
      using sig by meson
    moreover have "s \<noteq> []" using calculation pos by auto
    ultimately show ?thesis using assms(1) keys
      by (cases "pq_build_of ft")
         (simp_all add: mldsa_provider_def MlDsa65_sign_def MlDsa65_verify_def to_fixed_array_def)
  qed
  with kg assms(1) show "\<exists>kp r'. pqsig_keypair (mldsa_provider ft be) r = (Ok kp, r')
      \<and> pqsig_pair_ok (mldsa_provider ft be) (pqs_public_key kp) (pqs_secret_key kp)"
    by (auto simp: mldsa_provider_def MlDsa65_keypair_def pqsig_pair_ok_def)
qed

definition toy_sig_backend :: sig_backend where
  "toy_sig_backend = \<lparr>sb_available = True, sb_pk_len = 32, sb_sk_len = 32, sb_sig_len = 32,
     sb_pk_ok = (\<lambda>k. length k = 32), sb_sk_ok = (\<lambda>k. length k = 32), sb_sig_ok = (\<lambda>s. length s = 32),
     sb_keygen = (\<lambda>r. (Some (stake 32 r, stake 32 r), sdrop 32 r)),
     sb_sign = (\<lambda>sk m r. (Some (take 32 (sk @ m @ replicate 32 0)), r)),
     sb_verify = (\<lambda>pk m s. s = take 32 (pk @ m @ replicate 32 0))\<rparr>"

definition toy_pqsig :: pq_sig_provider where
  "toy_pqsig = mldsa_provider toy_features toy_sig_backend"

lemma toy_pqsig_ok [simp]: "pqsig_ok toy_pqsig"
  unfolding toy_pqsig_def
  by (rule mldsa_provider_ok) (auto simp: sig_backend_ok_def toy_sig_backend_def pq_build_of_def toy_features_def)

lemma toy_pqsig_pair_ok [simp]: "length k = 32 \<Longrightarrow> pqsig_pair_ok toy_pqsig k k"
  by (auto simp: pqsig_pair_ok_def toy_pqsig_def mldsa_provider_def MlDsa65_sign_def MlDsa65_verify_def
      pq_build_of_def toy_features_def toy_sig_backend_def)

end
