(* ===== verification/Handshake.thy ===== *)
theory Handshake
  imports Wire Keys Kem Pq_Sig
begin

text \<open>
  \<^verbatim>\<open>handshake.rs\<close> and \<^verbatim>\<open>ad.rs\<close>: the initial message and its codec, the signed prekey
  messages, the validation of a prekey bundle, and the two halves of the key agreement. The
  signature verifier is a function argument, as it is a type parameter of the source. The
  generator passed by the caller and the operating system's generator, which the KEM uses, are
  two separate streams.
\<close>

definition INFO_SK :: bytes where "INFO_SK = str_bytes ''pqmsg-pqxdh-v1''"

definition H_AD_TAG_PROTOCOL_VERSION :: u16 where "H_AD_TAG_PROTOCOL_VERSION = critical_type 0x0001"
definition H_AD_TAG_SUITE_ID :: u16 where "H_AD_TAG_SUITE_ID = critical_type 0x0002"
definition H_AD_TAG_INITIATOR_IDENTITY_KEY :: u16 where "H_AD_TAG_INITIATOR_IDENTITY_KEY = critical_type 0x0003"
definition H_AD_TAG_RESPONDER_IDENTITY_KEY :: u16 where "H_AD_TAG_RESPONDER_IDENTITY_KEY = critical_type 0x0004"
definition H_AD_TAG_INITIATOR_ID :: u16 where "H_AD_TAG_INITIATOR_ID = critical_type 0x0005"
definition H_AD_TAG_RESPONDER_ID :: u16 where "H_AD_TAG_RESPONDER_ID = critical_type 0x0006"
definition H_AD_TAG_INITIATOR_PQ_RATCHET_KEY :: u16 where "H_AD_TAG_INITIATOR_PQ_RATCHET_KEY = critical_type 0x0007"
definition MSG_TAG_PROTOCOL_VERSION :: u16 where "MSG_TAG_PROTOCOL_VERSION = critical_type 0x0101"
definition MSG_TAG_SUITE_ID :: u16 where "MSG_TAG_SUITE_ID = critical_type 0x0109"
definition MSG_TAG_SENDER_ID :: u16 where "MSG_TAG_SENDER_ID = critical_type 0x0102"
definition MSG_TAG_RECIPIENT_ID :: u16 where "MSG_TAG_RECIPIENT_ID = critical_type 0x0103"
definition MSG_TAG_IK_A_PUB :: u16 where "MSG_TAG_IK_A_PUB = critical_type 0x0104"
definition MSG_TAG_EK_A_PUB :: u16 where "MSG_TAG_EK_A_PUB = critical_type 0x0105"
definition MSG_TAG_PQ_CT :: u16 where "MSG_TAG_PQ_CT = critical_type 0x0106"
definition MSG_TAG_NONCE :: u16 where "MSG_TAG_NONCE = critical_type 0x0107"
definition MSG_TAG_CIPHERTEXT :: u16 where "MSG_TAG_CIPHERTEXT = critical_type 0x0108"
definition MSG_TAG_OTPK_ID :: u16 where "MSG_TAG_OTPK_ID = critical_type 0x010A"
definition MSG_TAG_PQ_RATCHET_PUB_A :: u16 where "MSG_TAG_PQ_RATCHET_PUB_A = critical_type 0x010B"
definition SIG_TAG_PROTOCOL_VERSION :: u16 where "SIG_TAG_PROTOCOL_VERSION = critical_type 0x0201"
definition SIG_TAG_LABEL :: u16 where "SIG_TAG_LABEL = critical_type 0x0202"
definition SIG_TAG_KEY_MATERIAL :: u16 where "SIG_TAG_KEY_MATERIAL = critical_type 0x0203"
definition CONTEXT_VERSION :: u16 where "CONTEXT_VERSION = 1"
definition TAG_CONTEXT_VERSION :: u16 where "TAG_CONTEXT_VERSION = critical_type 0x1201"
definition TAG_SENDER_ID :: u16 where "TAG_SENDER_ID = critical_type 0x1202"
definition TAG_RECIPIENT_ID :: u16 where "TAG_RECIPIENT_ID = critical_type 0x1203"

lemma handshake_tags [tag_simps]:
  "H_AD_TAG_PROTOCOL_VERSION = 0x8001" "H_AD_TAG_SUITE_ID = 0x8002" "H_AD_TAG_INITIATOR_IDENTITY_KEY = 0x8003"
  "H_AD_TAG_RESPONDER_IDENTITY_KEY = 0x8004" "H_AD_TAG_INITIATOR_ID = 0x8005" "H_AD_TAG_RESPONDER_ID = 0x8006"
  "H_AD_TAG_INITIATOR_PQ_RATCHET_KEY = 0x8007"
  "MSG_TAG_PROTOCOL_VERSION = 0x8101" "MSG_TAG_SUITE_ID = 0x8109" "MSG_TAG_SENDER_ID = 0x8102"
  "MSG_TAG_RECIPIENT_ID = 0x8103" "MSG_TAG_IK_A_PUB = 0x8104" "MSG_TAG_EK_A_PUB = 0x8105" "MSG_TAG_PQ_CT = 0x8106"
  "MSG_TAG_NONCE = 0x8107" "MSG_TAG_CIPHERTEXT = 0x8108" "MSG_TAG_OTPK_ID = 0x810A" "MSG_TAG_PQ_RATCHET_PUB_A = 0x810B"
  "SIG_TAG_PROTOCOL_VERSION = 0x8201" "SIG_TAG_LABEL = 0x8202" "SIG_TAG_KEY_MATERIAL = 0x8203"
  "TAG_CONTEXT_VERSION = 0x9201" "TAG_SENDER_ID = 0x9202" "TAG_RECIPIENT_ID = 0x9203"
  by (simp_all add: H_AD_TAG_PROTOCOL_VERSION_def H_AD_TAG_SUITE_ID_def H_AD_TAG_INITIATOR_IDENTITY_KEY_def
      H_AD_TAG_RESPONDER_IDENTITY_KEY_def H_AD_TAG_INITIATOR_ID_def H_AD_TAG_RESPONDER_ID_def
      H_AD_TAG_INITIATOR_PQ_RATCHET_KEY_def MSG_TAG_PROTOCOL_VERSION_def MSG_TAG_SUITE_ID_def MSG_TAG_SENDER_ID_def
      MSG_TAG_RECIPIENT_ID_def MSG_TAG_IK_A_PUB_def MSG_TAG_EK_A_PUB_def MSG_TAG_PQ_CT_def MSG_TAG_NONCE_def
      MSG_TAG_CIPHERTEXT_def MSG_TAG_OTPK_ID_def MSG_TAG_PQ_RATCHET_PUB_A_def SIG_TAG_PROTOCOL_VERSION_def
      SIG_TAG_LABEL_def SIG_TAG_KEY_MATERIAL_def TAG_CONTEXT_VERSION_def TAG_SENDER_ID_def TAG_RECIPIENT_ID_def
      critical_type_def CRITICAL_BIT_def)

subsection \<open>The initial message\<close>

record InitialMessage =
  im_protocol_version :: u16
  im_suite_id :: u16
  im_sender_id :: rstr
  im_recipient_id :: rstr
  im_ik_a_pub :: bytes
  im_ek_a_pub :: bytes
  im_pq_ct :: bytes
  im_pq_ratchet_pub_a :: bytes
  im_nonce :: bytes
  im_ciphertext :: bytes
  im_otpk_id :: "rstr option"

definition im_records :: "InitialMessage \<Rightarrow> TlvRecord list" where
  "im_records m =
     [tlv MSG_TAG_PROTOCOL_VERSION (u16_to_be_bytes (im_protocol_version m)),
      tlv MSG_TAG_SUITE_ID (u16_to_be_bytes (im_suite_id m)),
      tlv MSG_TAG_SENDER_ID (im_sender_id m),
      tlv MSG_TAG_RECIPIENT_ID (im_recipient_id m),
      tlv MSG_TAG_IK_A_PUB (im_ik_a_pub m),
      tlv MSG_TAG_EK_A_PUB (im_ek_a_pub m),
      tlv MSG_TAG_PQ_CT (im_pq_ct m),
      tlv MSG_TAG_PQ_RATCHET_PUB_A (im_pq_ratchet_pub_a m),
      tlv MSG_TAG_NONCE (im_nonce m),
      tlv MSG_TAG_CIPHERTEXT (im_ciphertext m)]
     @ push_opt MSG_TAG_OTPK_ID (im_otpk_id m)"

definition im_encode :: "InitialMessage \<Rightarrow> bytes result" where
  "im_encode m = encode (im_records m)"

definition im_known_types :: "u16 list" where
  "im_known_types = [MSG_TAG_PROTOCOL_VERSION, MSG_TAG_SUITE_ID, MSG_TAG_SENDER_ID, MSG_TAG_RECIPIENT_ID,
     MSG_TAG_IK_A_PUB, MSG_TAG_EK_A_PUB, MSG_TAG_PQ_CT, MSG_TAG_PQ_RATCHET_PUB_A, MSG_TAG_NONCE,
     MSG_TAG_CIPHERTEXT, MSG_TAG_OTPK_ID]"

definition parse_u16_be :: "bytes \<Rightarrow> string \<Rightarrow> u16 result" where
  "parse_u16_be input fld =
     (if length input \<noteq> 2 then Err (InvalidLength fld 2 (length input))
      else Ok (u16_from_be_bytes [input ! 0, input ! 1]))"

definition parse_utf8 :: "bytes \<Rightarrow> string \<Rightarrow> rstr result" where
  "parse_utf8 input fld = from_utf8 input (InvalidUtf8 fld)"

definition im_from_map :: "(u16 \<rightharpoonup> bytes) \<Rightarrow> InitialMessage result" where
  "im_from_map m =
     and_then (require_from_map m MSG_TAG_PROTOCOL_VERSION ''protocol_version'') (\<lambda>v.
     and_then (parse_u16_be v ''protocol_version'') (\<lambda>version.
     and_then (require_from_map m MSG_TAG_SUITE_ID ''suite_id'') (\<lambda>v.
     and_then (parse_u16_be v ''suite_id'') (\<lambda>sid.
     and_then (require_from_map m MSG_TAG_SENDER_ID ''sender_id'') (\<lambda>v.
     and_then (parse_utf8 v ''sender_id'') (\<lambda>sender_id.
     and_then (require_from_map m MSG_TAG_RECIPIENT_ID ''recipient_id'') (\<lambda>v.
     and_then (parse_utf8 v ''recipient_id'') (\<lambda>recipient_id.
     and_then (require_from_map m MSG_TAG_IK_A_PUB ''ik_a_pub'') (\<lambda>v.
     and_then (parse_32 v ''ik_a_pub'') (\<lambda>ik_a_pub.
     and_then (require_from_map m MSG_TAG_EK_A_PUB ''ek_a_pub'') (\<lambda>v.
     and_then (parse_32 v ''ek_a_pub'') (\<lambda>ek_a_pub.
     and_then (require_from_map m MSG_TAG_PQ_CT ''pq_ct'') (\<lambda>pq_ct.
     and_then (require_from_map m MSG_TAG_PQ_RATCHET_PUB_A ''pq_ratchet_pub_a'') (\<lambda>pq_ratchet_pub_a.
     and_then (require_from_map m MSG_TAG_NONCE ''nonce'') (\<lambda>v.
     and_then (parse_12 v ''nonce'') (\<lambda>nonce.
     and_then (require_from_map m MSG_TAG_CIPHERTEXT ''ciphertext'') (\<lambda>ciphertext.
     and_then (transpose_opt (map_option (\<lambda>v. parse_utf8 v ''otpk_id'') (m MSG_TAG_OTPK_ID))) (\<lambda>otpk_id.
     Ok \<lparr>im_protocol_version = version, im_suite_id = sid, im_sender_id = sender_id,
         im_recipient_id = recipient_id, im_ik_a_pub = ik_a_pub, im_ek_a_pub = ek_a_pub,
         im_pq_ct = pq_ct, im_pq_ratchet_pub_a = pq_ratchet_pub_a, im_nonce = nonce,
         im_ciphertext = ciphertext, im_otpk_id = otpk_id\<rparr>))))))))))))))))))"

definition im_decode :: "bytes \<Rightarrow> InitialMessage result" where
  "im_decode input =
     and_then (decode_strict input im_known_types) (\<lambda>records. im_from_map (build_record_map records))"

definition im_wf :: "InitialMessage \<Rightarrow> bool" where
  "im_wf m \<longleftrightarrow> length (im_ik_a_pub m) = 32 \<and> length (im_ek_a_pub m) = 32 \<and> length (im_nonce m) = 12
     \<and> valid_utf8 (im_sender_id m) \<and> valid_utf8 (im_recipient_id m)
     \<and> (\<forall>v \<in> set_option (im_otpk_id m). valid_utf8 v \<and> length v \<le> 65535)
     \<and> length (im_sender_id m) \<le> 65535 \<and> length (im_recipient_id m) \<le> 65535
     \<and> length (im_pq_ct m) \<le> 65535 \<and> length (im_pq_ratchet_pub_a m) \<le> 65535
     \<and> length (im_ciphertext m) \<le> 65535"

lemma parse_u16_be_eq: "parse_u16_be = parse_u16"
  by (intro ext) (simp add: parse_u16_be_def parse_u16_def)

lemma parse_utf8_eq_Ok [simp]: "parse_utf8 bs f = Ok s \<longleftrightarrow> valid_utf8 bs \<and> s = bs"
  by (simp add: parse_utf8_def)

lemma im_records_distinct: "distinct (map rec_ty (im_records m))"
  by (cases "im_otpk_id m") (simp_all add: im_records_def tag_simps)

lemma im_records_known: "rec_ty ` set (im_records m) \<subseteq> set im_known_types"
  by (cases "im_otpk_id m") (simp_all add: im_records_def im_known_types_def)

lemma parse_utf8_valid [simp]: "valid_utf8 bs \<Longrightarrow> parse_utf8 bs f = Ok bs"
  by simp

lemma im_from_map_records: "im_wf m \<Longrightarrow> im_from_map (build_record_map (im_records m)) = Ok m"
  unfolding im_from_map_def build_record_map_find [OF im_records_distinct] require_from_map_def
  by (cases "im_otpk_id m") (simp_all add: im_records_def tag_simps im_wf_def parse_u16_be_eq del: parse_utf8_eq_Ok)

lemma im_from_map_lengths:
  assumes "im_from_map m = Ok x" and "\<And>t v. m t = Some v \<Longrightarrow> length v \<le> 65535"
  shows "im_wf x"
  using assms by (auto simp: im_from_map_def im_wf_def transpose_opt_eq_Ok)

interpretation initial_codec: codec im_encode im_decode im_wf
proof unfold_locales
  show "is_ok (im_encode m)" if "im_wf m" for m
    using that by (simp add: im_encode_def encode_fits im_records_def im_wf_def)
  show "im_decode bs = Ok m" if "im_wf m" "im_encode m = Ok bs" for m bs
    using that decode_strict_map [OF _ im_records_distinct im_records_known, of m bs im_from_map]
    by (simp add: im_decode_def im_encode_def im_from_map_records)
  show "im_wf m" if "im_decode bs = Ok m" for m bs
    using that im_from_map_lengths decode_strict_fits unfolding im_decode_def by blast
qed

subsection \<open>Signed prekeys and bundle validation\<close>

type_synonym signature_verifier = "bytes \<Rightarrow> bytes \<Rightarrow> bytes \<Rightarrow> unit result"

definition sig_records :: "u16 \<Rightarrow> bytes \<Rightarrow> bytes \<Rightarrow> TlvRecord list" where
  "sig_records protocol_version label key_material =
     [tlv SIG_TAG_PROTOCOL_VERSION (u16_to_be_bytes protocol_version),
      tlv SIG_TAG_LABEL label, tlv SIG_TAG_KEY_MATERIAL key_material]"

definition signature_message :: "u16 \<Rightarrow> bytes \<Rightarrow> bytes \<Rightarrow> bytes result" where
  "signature_message protocol_version label key_material = encode (sig_records protocol_version label key_material)"

definition signed_prekey_signature_message :: "u16 \<Rightarrow> bytes \<Rightarrow> bytes result" where
  "signed_prekey_signature_message v signed_prekey = signature_message v (str_bytes ''SPK'') signed_prekey"

definition pq_signed_prekey_signature_message :: "u16 \<Rightarrow> bytes \<Rightarrow> bytes result" where
  "pq_signed_prekey_signature_message v pq_signed_prekey = signature_message v (str_bytes ''PQSPK'') pq_signed_prekey"

definition validate_prekey_bundle_signatures :: "PreKeyBundle \<Rightarrow> signature_verifier \<Rightarrow> unit result" where
  "validate_prekey_bundle_signatures bundle verify =
     and_then (signed_prekey_signature_message (pb_protocol_version bundle) (pb_signed_prekey bundle)) (\<lambda>spk_message.
     and_then (verify (pb_signature_public_key bundle) spk_message (pb_spk_signature bundle)) (\<lambda>_.
     and_then (pq_signed_prekey_signature_message (pb_protocol_version bundle) (pb_pq_signed_prekey bundle)) (\<lambda>pqspk_message.
     and_then (verify (pb_signature_public_key bundle) pqspk_message (pb_pqspk_signature bundle)) (\<lambda>_.
     Ok ()))))"

definition validate_pq_prekey_bundle_signatures :: "PreKeyBundle \<Rightarrow> pq_sig_provider \<Rightarrow> unit result" where
  "validate_pq_prekey_bundle_signatures bundle pq_verifier =
     and_then (ok_or (pb_pq_sig_public_key bundle) (MissingField ''prekey_bundle.pq_sig_public_key'')) (\<lambda>pq_pk.
     and_then (ok_or (pb_pq_spk_signature bundle) (MissingField ''prekey_bundle.pq_spk_signature'')) (\<lambda>pq_spk_sig.
     and_then (ok_or (pb_pq_pqspk_signature bundle) (MissingField ''prekey_bundle.pq_pqspk_signature'')) (\<lambda>pq_pqspk_sig.
     and_then (signed_prekey_signature_message (pb_protocol_version bundle) (pb_signed_prekey bundle)) (\<lambda>spk_message.
     and_then (pqsig_verify pq_verifier pq_pk spk_message pq_spk_sig) (\<lambda>_.
     and_then (pq_signed_prekey_signature_message (pb_protocol_version bundle) (pb_pq_signed_prekey bundle)) (\<lambda>pqspk_message.
     and_then (pqsig_verify pq_verifier pq_pk pqspk_message pq_pqspk_sig) (\<lambda>_.
     Ok ())))))))"

definition validate_hybrid_prekey_bundle_signatures ::
  "PreKeyBundle \<Rightarrow> signature_verifier \<Rightarrow> pq_sig_provider \<Rightarrow> unit result" where
  "validate_hybrid_prekey_bundle_signatures bundle verify pq_verifier =
     and_then (validate_prekey_bundle_signatures bundle verify) (\<lambda>_.
     and_then (validate_pq_prekey_bundle_signatures bundle pq_verifier) (\<lambda>_. Ok ()))"

subsection \<open>Associated data\<close>

definition had_records :: "u16 \<Rightarrow> u16 \<Rightarrow> bytes \<Rightarrow> bytes \<Rightarrow> rstr \<Rightarrow> rstr \<Rightarrow> bytes \<Rightarrow> TlvRecord list" where
  "had_records protocol_version sid initiator_identity_key responder_identity_key initiator_id responder_id
      initiator_pq_ratchet_key =
     [tlv H_AD_TAG_PROTOCOL_VERSION (u16_to_be_bytes protocol_version),
      tlv H_AD_TAG_SUITE_ID (u16_to_be_bytes sid),
      tlv H_AD_TAG_INITIATOR_IDENTITY_KEY initiator_identity_key,
      tlv H_AD_TAG_RESPONDER_IDENTITY_KEY responder_identity_key,
      tlv H_AD_TAG_INITIATOR_ID initiator_id,
      tlv H_AD_TAG_RESPONDER_ID responder_id,
      tlv H_AD_TAG_INITIATOR_PQ_RATCHET_KEY initiator_pq_ratchet_key]"

definition handshake_associated_data ::
  "u16 \<Rightarrow> u16 \<Rightarrow> bytes \<Rightarrow> bytes \<Rightarrow> rstr \<Rightarrow> rstr \<Rightarrow> bytes \<Rightarrow> bytes result" where
  "handshake_associated_data v sid ik_a ik_b id_a id_b pq = encode (had_records v sid ik_a ik_b id_a id_b pq)"

definition conversation_associated_data :: "rstr \<Rightarrow> rstr \<Rightarrow> bytes result" where
  "conversation_associated_data sender_user_id recipient_user_id =
     encode [tlv TAG_CONTEXT_VERSION (u16_to_be_bytes CONTEXT_VERSION),
             tlv TAG_SENDER_ID sender_user_id, tlv TAG_RECIPIENT_ID recipient_user_id]"

subsection \<open>Key agreement\<close>

record InitiatorOutput =
  io_initial_message :: InitialMessage
  io_session_key :: bytes

record ResponderOutput =
  ro_plaintext :: bytes
  ro_session_key :: bytes

definition handshake_ikm :: "bytes \<Rightarrow> bytes \<Rightarrow> bytes \<Rightarrow> bytes option \<Rightarrow> bytes \<Rightarrow> bytes" where
  "handshake_ikm dh1 dh2 dh3 dh4_opt ss =
     dh1 @ dh2 @ dh3 @ (case dh4_opt of Some dh4 \<Rightarrow> dh4 | None \<Rightarrow> []) @ ss"

definition alice_initiate ::
  "crypto \<Rightarrow> signature_verifier \<Rightarrow> kem_provider \<Rightarrow> rstr \<Rightarrow> rstr \<Rightarrow> IdentityKeyPair \<Rightarrow> bytes \<Rightarrow> PreKeyBundle \<Rightarrow> bytes
     \<Rightarrow> rng \<Rightarrow> rng \<Rightarrow> InitiatorOutput result \<times> rng \<times> rng" where
  "alice_initiate c verify kem alice_id bob_id alice_identity alice_pq_ratchet_public_key bob_bundle payload rng os =
     (if pb_protocol_version bob_bundle \<noteq> PROTOCOL_VERSION_V1
      then (Err (UnsupportedAlgorithm ''protocol.version''), rng, os)
      else
     (case and_then (suite_id (pb_suite bob_bundle)) (\<lambda>sid.
           and_then (validate_prekey_bundle_signatures bob_bundle verify) (\<lambda>_.
           and_then (ik_require_secret_key alice_identity) (\<lambda>alice_ik_secret. Ok (sid, alice_ik_secret)))) of
        Inl e \<Rightarrow> (Err e, rng, os)
      | Inr (sid, alice_ik_secret) \<Rightarrow>
     (case generate_keypair c rng of (alice_ek, rng) \<Rightarrow>
     (case kem_encapsulate kem (pb_pq_signed_prekey bob_bundle) os of
        (Inl e, os) \<Rightarrow> (Err e, rng, os)
      | (Inr kem_encapsulation, os) \<Rightarrow>
      let dh1 = diffie_hellman c alice_ik_secret (pb_signed_prekey bob_bundle);
          dh2 = diffie_hellman c (dh_secret alice_ek) (pb_identity_key bob_bundle);
          dh3 = diffie_hellman c (dh_secret alice_ek) (pb_signed_prekey bob_bundle);
          dh4_opt = map_option (diffie_hellman c (dh_secret alice_ek)) (pb_one_time_prekey bob_bundle);
          ikm = handshake_ikm dh1 dh2 dh3 dh4_opt (enc_shared_secret kem_encapsulation)
      in
     (case and_then (hkdf_sha256_32 c ikm None INFO_SK) (\<lambda>session_key.
           and_then (handshake_associated_data (pb_protocol_version bob_bundle) sid
              (ik_public_key alice_identity) (pb_identity_key bob_bundle) alice_id bob_id
              alice_pq_ratchet_public_key) (\<lambda>ad. Ok (session_key, ad))) of
        Inl e \<Rightarrow> (Err e, rng, os)
      | Inr (session_key, ad) \<Rightarrow>
     (case encrypt_with_rng c session_key payload ad rng of
        (Inl e, rng) \<Rightarrow> (Err e, rng, os)
      | (Inr envelope, rng) \<Rightarrow>
          (Ok \<lparr>io_initial_message =
                \<lparr>im_protocol_version = pb_protocol_version bob_bundle, im_suite_id = sid,
                 im_sender_id = alice_id, im_recipient_id = bob_id,
                 im_ik_a_pub = ik_public_key alice_identity, im_ek_a_pub = dh_public alice_ek,
                 im_pq_ct = enc_ciphertext kem_encapsulation,
                 im_pq_ratchet_pub_a = alice_pq_ratchet_public_key,
                 im_nonce = env_nonce envelope, im_ciphertext = env_ciphertext envelope,
                 im_otpk_id = map_option (\<lambda>_. pb_owner_id bob_bundle) (pb_one_time_prekey bob_bundle)\<rparr>,
               io_session_key = session_key\<rparr>, rng, os)))))))"

definition bob_receive ::
  "crypto \<Rightarrow> kem_provider \<Rightarrow> IdentityKeyPair \<Rightarrow> OneTimePreKey \<Rightarrow> KEMPreKey \<Rightarrow> OneTimePreKey option \<Rightarrow> InitialMessage
     \<Rightarrow> ResponderOutput result" where
  "bob_receive c kem bob_identity bob_signed_prekey bob_pq_signed_prekey bob_one_time_prekey m =
     (if im_protocol_version m \<noteq> PROTOCOL_VERSION_V1 then Err (UnsupportedAlgorithm ''protocol.version'')
      else
     and_then (from_suite_id (im_suite_id m)) (\<lambda>_.
     and_then (ik_require_secret_key bob_identity) (\<lambda>bob_identity_secret.
     and_then (otpk_require_secret_key bob_signed_prekey) (\<lambda>bob_spk_secret.
     and_then (kem_decapsulate kem (kpk_secret_key bob_pq_signed_prekey) (im_pq_ct m)) (\<lambda>ss_pq.
     let dh1 = diffie_hellman c bob_spk_secret (im_ik_a_pub m);
         dh2 = diffie_hellman c bob_identity_secret (im_ek_a_pub m);
         dh3 = diffie_hellman c bob_spk_secret (im_ek_a_pub m)
     in
     and_then (case bob_one_time_prekey of
         None \<Rightarrow> Ok None
       | Some otpk \<Rightarrow> and_then (otpk_require_secret_key otpk) (\<lambda>otpk_secret.
           Ok (Some (diffie_hellman c otpk_secret (im_ek_a_pub m))))) (\<lambda>dh4_opt.
     and_then (hkdf_sha256_32 c (handshake_ikm dh1 dh2 dh3 dh4_opt ss_pq) None INFO_SK) (\<lambda>session_key.
     and_then (handshake_associated_data (im_protocol_version m) (im_suite_id m) (im_ik_a_pub m)
        (ik_public_key bob_identity) (im_sender_id m) (im_recipient_id m) (im_pq_ratchet_pub_a m)) (\<lambda>ad.
     and_then (aead_decrypt c session_key \<lparr>env_nonce = im_nonce m, env_ciphertext = im_ciphertext m,
        env_aad = ad\<rparr>) (\<lambda>plaintext.
     Ok \<lparr>ro_plaintext = plaintext, ro_session_key = session_key\<rparr>)))))))))"

subsection \<open>Lemmas\<close>

lemma signature_message_inject:
  "signature_message v l k = Ok m \<Longrightarrow> signature_message v' l' k' = Ok m \<Longrightarrow> v = v' \<and> l = l' \<and> k = k'"
  using encode_inject [of "sig_records v l k" m "sig_records v' l' k'"]
  by (simp add: signature_message_def sig_records_def)

lemma handshake_ad_inject:
  assumes "handshake_associated_data v sid ika ikb ida idb pq = Ok m"
    "handshake_associated_data v' sid' ika' ikb' ida' idb' pq' = Ok m"
  shows "v = v' \<and> sid = sid' \<and> ika = ika' \<and> ikb = ikb' \<and> ida = ida' \<and> idb = idb' \<and> pq = pq'"
  using encode_inject [of "had_records v sid ika ikb ida idb pq" m "had_records v' sid' ika' ikb' ida' idb' pq'"] assms
  by (simp add: handshake_associated_data_def had_records_def)

lemma handshake_ad_total:
  assumes "length ika = 32" "length ikb = 32" "length ida \<le> 65535" "length idb \<le> 65535" "length pq \<le> 65535"
  obtains ad where "handshake_associated_data v sid ika ikb ida idb pq = Ok ad"
  using assms that by (simp add: handshake_associated_data_def had_records_def encode_fits)

definition bundle_matches ::
  "crypto \<Rightarrow> PreKeyBundle \<Rightarrow> IdentityKeyPair \<Rightarrow> OneTimePreKey \<Rightarrow> KEMPreKey \<Rightarrow> OneTimePreKey option \<Rightarrow> bool" where
  "bundle_matches c bundle bob spk pqspk otpk \<longleftrightarrow>
     pb_protocol_version bundle = PROTOCOL_VERSION_V1
     \<and> pb_identity_key bundle = ik_public_key bob \<and> pb_signed_prekey bundle = otpk_public_key spk
     \<and> pb_pq_signed_prekey bundle = kpk_public_key pqspk
     \<and> pb_one_time_prekey bundle = map_option otpk_public_key otpk
     \<and> ik_ok c bob \<and> otpk_ok c spk \<and> (case otpk of None \<Rightarrow> True | Some k \<Rightarrow> otpk_ok c k)"

lemma dh_commute_keys:
  assumes "dh_ok c" "dh_pair_ok c \<lparr>dh_public = pa, dh_secret = sa\<rparr>" "dh_pair_ok c \<lparr>dh_public = pb, dh_secret = sb\<rparr>"
  shows "diffie_hellman c sa pb = diffie_hellman c sb pa"
  using diffie_hellman_commute [OF assms] by simp

text \<open>The inputs of the key derivation agree on both sides.\<close>

lemma handshake_ikm_agree:
  assumes "dh_ok c" "ik_ok c alice" "bundle_matches c bundle bob spk pqspk otpk" "dh_pair_ok c ek"
  shows "handshake_ikm (diffie_hellman c (ik_secret_key alice) (pb_signed_prekey bundle))
      (diffie_hellman c (dh_secret ek) (pb_identity_key bundle))
      (diffie_hellman c (dh_secret ek) (pb_signed_prekey bundle))
      (map_option (diffie_hellman c (dh_secret ek)) (pb_one_time_prekey bundle)) ss
    = handshake_ikm (diffie_hellman c (otpk_secret_key spk) (ik_public_key alice))
      (diffie_hellman c (ik_secret_key bob) (dh_public ek))
      (diffie_hellman c (otpk_secret_key spk) (dh_public ek))
      (map_option (\<lambda>k. diffie_hellman c (otpk_secret_key k) (dh_public ek)) otpk) ss"
proof -
  have ek: "dh_pair_ok c \<lparr>dh_public = dh_public ek, dh_secret = dh_secret ek\<rparr>"
    using assms(4) by (cases ek) (simp only: DhKeyPair.select_convs)
  note com = dh_commute_keys [OF assms(1)]
  have "diffie_hellman c (ik_secret_key alice) (otpk_public_key spk) = diffie_hellman c (otpk_secret_key spk) (ik_public_key alice)"
      "diffie_hellman c (dh_secret ek) (ik_public_key bob) = diffie_hellman c (ik_secret_key bob) (dh_public ek)"
      "diffie_hellman c (dh_secret ek) (otpk_public_key spk) = diffie_hellman c (otpk_secret_key spk) (dh_public ek)"
    using assms(2,3) ek com unfolding bundle_matches_def ik_ok_def otpk_ok_def by blast+
  moreover have "map_option (diffie_hellman c (dh_secret ek)) (map_option otpk_public_key otpk)
      = map_option (\<lambda>k. diffie_hellman c (otpk_secret_key k) (dh_public ek)) otpk"
    using assms(3) ek com unfolding bundle_matches_def otpk_ok_def by (cases otpk) auto
  ultimately show ?thesis using assms(3) by (simp add: bundle_matches_def handshake_ikm_def)
qed

lemma alice_initiate_spec:
  assumes "dh_ok c" "hkdf_ok c" "aead_ok c" "ik_ok c alice" "bundle_matches c bundle bob spk pqspk otpk"
    "kem_pair_ok kem (kpk_public_key pqspk) (kpk_secret_key pqspk)"
    "validate_prekey_bundle_signatures bundle verify = Ok ()" "length payload < aead_max"
    "length ida \<le> 65535" "length idb \<le> 65535" "length pqr \<le> 65535"
  obtains sid and ek :: DhKeyPair and e :: KemEncapsulation and key ad ct rng' os' where
    "alice_initiate c verify kem ida idb alice pqr bundle payload rng os =
       (Ok \<lparr>io_initial_message = \<lparr>im_protocol_version = PROTOCOL_VERSION_V1, im_suite_id = sid,
          im_sender_id = ida, im_recipient_id = idb, im_ik_a_pub = ik_public_key alice, im_ek_a_pub = dh_public ek,
          im_pq_ct = enc_ciphertext e, im_pq_ratchet_pub_a = pqr,
          im_nonce = stake 12 (snd (generate_keypair c rng)), im_ciphertext = ct,
          im_otpk_id = map_option (\<lambda>_. pb_owner_id bundle) (pb_one_time_prekey bundle)\<rparr>, io_session_key = key\<rparr>, rng', os')"
    "is_ok (from_suite_id sid)" "dh_pair_ok c ek" "length (enc_ciphertext e) \<le> 65535"
    "kem_decapsulate kem (kpk_secret_key pqspk) (enc_ciphertext e) = Ok (enc_shared_secret e)"
    "hkdf_sha256_32 c (handshake_ikm (diffie_hellman c (ik_secret_key alice) (pb_signed_prekey bundle))
      (diffie_hellman c (dh_secret ek) (pb_identity_key bundle))
      (diffie_hellman c (dh_secret ek) (pb_signed_prekey bundle))
      (map_option (diffie_hellman c (dh_secret ek)) (pb_one_time_prekey bundle)) (enc_shared_secret e)) None INFO_SK = Ok key"
    "handshake_associated_data PROTOCOL_VERSION_V1 sid (ik_public_key alice) (ik_public_key bob) ida idb pqr = Ok ad"
    "aead_decrypt c key \<lparr>env_nonce = stake 12 (snd (generate_keypair c rng)), env_ciphertext = ct, env_aad = ad\<rparr> = Ok payload"
    "length ct = length payload + 16"
proof -
  have b: "pb_protocol_version bundle = PROTOCOL_VERSION_V1" "pb_identity_key bundle = ik_public_key bob"
      "pb_pq_signed_prekey bundle = kpk_public_key pqspk" "ik_ok c bob"
    using assms(5) by (simp_all add: bundle_matches_def)
  obtain sid where sid: "suite_id (pb_suite bundle) = Ok sid" "is_ok (from_suite_id sid)"
    using suite_id_Ok [of "pb_suite bundle"] by (auto simp: from_suite_id_Ok_iff)
  obtain ek r1 where ek: "generate_keypair c rng = (ek, r1)" by fastforce
  obtain e os' where e: "kem_encapsulate kem (kpk_public_key pqspk) os = (Ok e, os')" "length (enc_ciphertext e) \<le> 65535"
      "kem_decapsulate kem (kpk_secret_key pqspk) (enc_ciphertext e) = Ok (enc_shared_secret e)"
    using kem_pair_okD [OF assms(6)] by metis
  obtain key where key: "hkdf_sha256_32 c (handshake_ikm (diffie_hellman c (ik_secret_key alice) (pb_signed_prekey bundle))
      (diffie_hellman c (dh_secret ek) (pb_identity_key bundle))
      (diffie_hellman c (dh_secret ek) (pb_signed_prekey bundle))
      (map_option (diffie_hellman c (dh_secret ek)) (pb_one_time_prekey bundle)) (enc_shared_secret e)) None INFO_SK = Ok key"
      "length key = 32"
    using hkdf_sha256_32_Ok [OF assms(2)] by metis
  have "length (ik_public_key alice) = 32" "length (ik_public_key bob) = 32"
    using assms(4) b(4) unfolding ik_ok_def dh_pair_ok_def DhKeyPair.select_convs by blast+
  then obtain ad where ad: "handshake_associated_data PROTOCOL_VERSION_V1 sid (ik_public_key alice) (ik_public_key bob) ida idb pqr = Ok ad"
    using handshake_ad_total assms(9-11) by metis
  obtain ct where ct: "aead_encrypt c key payload ad (stake 12 r1) = Ok \<lparr>env_nonce = stake 12 r1, env_ciphertext = ct, env_aad = ad\<rparr>"
      "length ct = length payload + 16"
      "aead_decrypt c key \<lparr>env_nonce = stake 12 r1, env_ciphertext = ct, env_aad = ad\<rparr> = Ok payload"
    using aead_encrypt_Ok [OF assms(3) key(2) _ assms(8), of "stake 12 r1" ad] by auto
  have "encrypt_with_rng c key payload ad r1 = (Ok \<lparr>env_nonce = stake 12 r1, env_ciphertext = ct, env_aad = ad\<rparr>, sdrop 12 r1)"
    using ct(1) by (simp add: encrypt_with_rng_def fill_bytes_def)
  with sid ek e key ad b assms(7) ik_require_ok [OF assms(4)] ct generate_keypair_ok [OF assms(1) ek]
  show thesis by (intro that [of sid ek e ct key "sdrop 12 r1" os' ad]) (simp_all add: alice_initiate_def)
qed

text \<open>
  C2. The handshake agrees. If a bundle carries the public halves of the responder's keys and its
  signatures verify, the initiator produces an initial message, and the responder who reads that
  message with the secret halves, one-time prekey included when the bundle had one, obtains the
  payload and the same session key.
\<close>

theorem handshake_agreement:
  assumes "dh_ok c" "hkdf_ok c" "aead_ok c" "ik_ok c alice" "bundle_matches c bundle bob spk pqspk otpk"
    "kem_pair_ok kem (kpk_public_key pqspk) (kpk_secret_key pqspk)"
    "validate_prekey_bundle_signatures bundle verify = Ok ()" "length payload < aead_max"
    "length ida \<le> 65535" "length idb \<le> 65535" "length pqr \<le> 65535"
  shows "\<exists>out rng' os'. alice_initiate c verify kem ida idb alice pqr bundle payload rng os = (Ok out, rng', os')
    \<and> bob_receive c kem bob spk pqspk otpk (io_initial_message out)
        = Ok \<lparr>ro_plaintext = payload, ro_session_key = io_session_key out\<rparr>"
proof (rule alice_initiate_spec [OF assms, of rng os])
  fix sid key ad ct rng' os' and ek :: DhKeyPair and e :: KemEncapsulation
  let ?m = "\<lparr>im_protocol_version = PROTOCOL_VERSION_V1, im_suite_id = sid,
          im_sender_id = ida, im_recipient_id = idb, im_ik_a_pub = ik_public_key alice, im_ek_a_pub = dh_public ek,
          im_pq_ct = enc_ciphertext e, im_pq_ratchet_pub_a = pqr,
          im_nonce = stake 12 (snd (generate_keypair c rng)), im_ciphertext = ct,
          im_otpk_id = map_option (\<lambda>_. pb_owner_id bundle) (pb_one_time_prekey bundle)\<rparr>"
  assume a: "alice_initiate c verify kem ida idb alice pqr bundle payload rng os
      = (Ok \<lparr>io_initial_message = ?m, io_session_key = key\<rparr>, rng', os')"
    and sid: "is_ok (from_suite_id sid)" and ek: "dh_pair_ok c ek"
    and kem: "kem_decapsulate kem (kpk_secret_key pqspk) (enc_ciphertext e) = Ok (enc_shared_secret e)"
    and key: "hkdf_sha256_32 c (handshake_ikm (diffie_hellman c (ik_secret_key alice) (pb_signed_prekey bundle))
      (diffie_hellman c (dh_secret ek) (pb_identity_key bundle))
      (diffie_hellman c (dh_secret ek) (pb_signed_prekey bundle))
      (map_option (diffie_hellman c (dh_secret ek)) (pb_one_time_prekey bundle)) (enc_shared_secret e)) None INFO_SK = Ok key"
    and ad: "handshake_associated_data PROTOCOL_VERSION_V1 sid (ik_public_key alice) (ik_public_key bob) ida idb pqr = Ok ad"
    and dec: "aead_decrypt c key \<lparr>env_nonce = stake 12 (snd (generate_keypair c rng)), env_ciphertext = ct, env_aad = ad\<rparr> = Ok payload"
  have b: "ik_ok c bob" "otpk_ok c spk" "case otpk of None \<Rightarrow> True | Some k \<Rightarrow> otpk_ok c k"
    using assms(5) by (simp_all add: bundle_matches_def)
  obtain su where "from_suite_id sid = Ok su" using sid by (auto simp: is_ok_iff)
  then have "bob_receive c kem bob spk pqspk otpk ?m = Ok \<lparr>ro_plaintext = payload, ro_session_key = key\<rparr>"
    using kem key [unfolded handshake_ikm_agree [OF assms(1,4,5) ek]] ad dec ik_require_ok [OF b(1)]
      otpk_require_ok [OF b(2)] b(3)
    by (cases otpk) (simp_all add: bob_receive_def otpk_require_ok)
  with a show ?thesis by auto
qed

text \<open>A responder over the concrete primitives, used by the witnesses.\<close>

definition toy_identity :: "u8 \<Rightarrow> IdentityKeyPair" where
  "toy_identity b = \<lparr>ik_key_id = [], ik_public_key = replicate 32 b, ik_secret_key = replicate 32 b,
     ik_pq_sig_public_key = None, ik_pq_sig_secret_key = None\<rparr>"

definition toy_prekey :: "u8 \<Rightarrow> OneTimePreKey" where
  "toy_prekey b = \<lparr>otpk_key_id = [b], otpk_public_key = replicate 32 b, otpk_secret_key = replicate 32 b\<rparr>"

definition toy_pq_prekey :: KEMPreKey where
  "toy_pq_prekey = \<lparr>kpk_key_id = [], kpk_public_key = replicate 32 5, kpk_secret_key = replicate 32 5\<rparr>"

definition toy_bundle :: PreKeyBundle where
  "toy_bundle = (pb_new [66] (replicate 32 2) (replicate 32 3) (replicate 32 5) [] [] [])
     \<lparr>pb_one_time_prekey := Some (replicate 32 4)\<rparr>"

lemma toy_identity_ok [simp]: "ik_ok toy_crypto (toy_identity b)"
  by (simp add: ik_ok_def toy_identity_def dh_pair_ok_def toy_crypto_def)

lemma toy_prekey_ok [simp]: "otpk_ok toy_crypto (toy_prekey b)"
  by (simp add: otpk_ok_def toy_prekey_def dh_pair_ok_def toy_crypto_def)

lemma toy_bundle_matches [simp]:
  "bundle_matches toy_crypto toy_bundle (toy_identity 2) (toy_prekey 3) toy_pq_prekey (Some (toy_prekey 4))"
  by (simp add: bundle_matches_def) (simp add: toy_bundle_def toy_identity_def toy_prekey_def toy_pq_prekey_def pb_new_def)

lemma toy_pq_prekey_ok [simp]: "kem_pair_ok toy_kem (kpk_public_key toy_pq_prekey) (kpk_secret_key toy_pq_prekey)"
  by (simp add: toy_pq_prekey_def)

lemma toy_bundle_valid [simp]: "validate_prekey_bundle_signatures toy_bundle (\<lambda>_ _ _. Ok ()) = Ok ()"
  by (simp add: validate_prekey_bundle_signatures_def signed_prekey_signature_message_def signature_message_def
      pq_signed_prekey_signature_message_def sig_records_def encode_fits toy_bundle_def pb_new_def str_bytes_def)

theorem handshake_agreement_witness:
  "\<exists>out rng' os'. alice_initiate toy_crypto (\<lambda>_ _ _. Ok ()) toy_kem [65] [66] (toy_identity 1) [7] toy_bundle [1, 2]
       (sconst 0) (sconst 0) = (Ok out, rng', os')
    \<and> bob_receive toy_crypto toy_kem (toy_identity 2) (toy_prekey 3) toy_pq_prekey (Some (toy_prekey 4))
        (io_initial_message out) = Ok \<lparr>ro_plaintext = [1, 2], ro_session_key = io_session_key out\<rparr>"
  by (rule handshake_agreement) (simp_all add: aead_max_def)

text \<open>
  C14. The initiator uses authenticated prekeys only. Whenever it produces an initial message, the
  bundle is of protocol version 1 and both prekeys carry a signature that the verifier accepted,
  under the bundle's signing key, for the message that names the role (``SPK'', ``PQSPK'') and the
  prekey; in every other case it returns an error and draws nothing from either random source.
\<close>

theorem prekeys_authenticated:
  "(\<exists>m1 m2. signed_prekey_signature_message PROTOCOL_VERSION_V1 (pb_signed_prekey bundle) = Ok m1
      \<and> verify (pb_signature_public_key bundle) m1 (pb_spk_signature bundle) = Ok ()
      \<and> pq_signed_prekey_signature_message PROTOCOL_VERSION_V1 (pb_pq_signed_prekey bundle) = Ok m2
      \<and> verify (pb_signature_public_key bundle) m2 (pb_pqspk_signature bundle) = Ok ()
      \<and> pb_protocol_version bundle = PROTOCOL_VERSION_V1)
   \<or> (\<exists>e. alice_initiate c verify kem ida idb alice pqr bundle payload rng os = (Err e, rng, os))"
proof (cases "pb_protocol_version bundle = PROTOCOL_VERSION_V1")
  case True
  obtain sid where sid: "suite_id (pb_suite bundle) = Ok sid" using suite_id_Ok by blast
  show ?thesis
  proof (cases "validate_prekey_bundle_signatures bundle verify")
    case (Inl e)
    then show ?thesis using True sid by (simp add: alice_initiate_def)
  next
    case (Inr u)
    then show ?thesis using True by (auto simp: validate_prekey_bundle_signatures_def)
  qed
qed (simp add: alice_initiate_def)

text \<open>
  C34. Prekey signatures cannot be moved. A message signed for a Diffie-Hellman prekey is not the
  message of any post-quantum prekey, in any protocol version, and it determines the version and
  the prekey.
\<close>

theorem prekey_signature_separation:
  assumes "signed_prekey_signature_message v k = Ok m"
  shows "pq_signed_prekey_signature_message v' k' \<noteq> Ok m
    \<and> (signed_prekey_signature_message v' k' = Ok m \<longleftrightarrow> v' = v \<and> k' = k)"
proof
  show "pq_signed_prekey_signature_message v' k' \<noteq> Ok m"
    using assms signature_message_inject [of v "str_bytes ''SPK''" k m v' "str_bytes ''PQSPK''" k']
    by (auto simp: signed_prekey_signature_message_def pq_signed_prekey_signature_message_def str_bytes_def)
  show "signed_prekey_signature_message v' k' = Ok m \<longleftrightarrow> v' = v \<and> k' = k"
    using assms signature_message_inject unfolding signed_prekey_signature_message_def by blast
qed

theorem prekey_signature_separation_witness:
  "\<exists>m. signed_prekey_signature_message 1 [1] = Ok m \<and> pq_signed_prekey_signature_message 1 [1] \<noteq> Ok m"
proof -
  obtain m where m: "signed_prekey_signature_message 1 [1] = Ok m"
    by (simp add: signed_prekey_signature_message_def signature_message_def sig_records_def encode_fits str_bytes_def)
  with prekey_signature_separation [OF m] show ?thesis by blast
qed

text \<open>
  C35. The handshake's associated data is unambiguous: two handshakes authenticate the same bytes only
  if they agree on the protocol version, the suite, both identity keys, both user ids and the
  initiator's post-quantum ratchet key. The conversation's associated data determines the two ids.
\<close>

theorem associated_data_unambiguous:
  assumes "handshake_associated_data v sid ika ikb ida idb pq = Ok m"
    and "conversation_associated_data s r = Ok n"
  shows "(handshake_associated_data v' sid' ika' ikb' ida' idb' pq' = Ok m \<longleftrightarrow>
      (v', sid', ika', ikb', ida', idb', pq') = (v, sid, ika, ikb, ida, idb, pq))
    \<and> (conversation_associated_data s' r' = Ok n \<longleftrightarrow> (s', r') = (s, r))"
proof
  show "handshake_associated_data v' sid' ika' ikb' ida' idb' pq' = Ok m \<longleftrightarrow>
      (v', sid', ika', ikb', ida', idb', pq') = (v, sid, ika, ikb, ida, idb, pq)"
    using handshake_ad_inject [OF assms(1)] assms(1) by blast
  show "conversation_associated_data s' r' = Ok n \<longleftrightarrow> (s', r') = (s, r)"
    using assms(2) encode_inject [OF assms(2) [unfolded conversation_associated_data_def], of
      "[tlv TAG_CONTEXT_VERSION (u16_to_be_bytes CONTEXT_VERSION), tlv TAG_SENDER_ID s', tlv TAG_RECIPIENT_ID r']"]
    by (auto simp: conversation_associated_data_def)
qed

theorem associated_data_unambiguous_witness:
  "\<exists>m n. handshake_associated_data 1 1 [1] [2] [3] [4] [5] = Ok m \<and> conversation_associated_data [1] [2] = Ok n
     \<and> handshake_associated_data 1 1 [1] [2] [3, 4] [] [5] \<noteq> Ok m \<and> conversation_associated_data [] [1, 2] \<noteq> Ok n"
proof -
  obtain m where m: "handshake_associated_data 1 1 [1] [2] [3] [4] [5] = Ok m"
    by (simp add: handshake_associated_data_def had_records_def encode_fits)
  obtain n where n: "conversation_associated_data [1] [2] = Ok n"
    by (simp add: conversation_associated_data_def encode_fits)
  have "handshake_associated_data 1 1 [1] [2] [3, 4] [] [5] \<noteq> Ok m \<and> conversation_associated_data [] [1, 2] \<noteq> Ok n"
    using associated_data_unambiguous [OF m n, of 1 1 "[1]" "[2]" "[3, 4]" "[]" "[5]" "[]" "[1, 2]"] by simp
  with m n show ?thesis by blast
qed

end
