(* ===== verification/Transparency.thy ===== *)
theory Transparency
  imports Crypto Rust_Str "HOL-Library.Sublist"
begin

text \<open>
  \<^verbatim>\<open>key_transparency.rs\<close>: the Merkle log of identity keys. The theory has the leaf and node
  hashes, the signed tree head, the tree root, the builders of inclusion and consistency proofs that
  the server runs and the verifiers that the clients run.

  Sizes and indices are natural numbers: the code only decrements positive ones, halves them and
  tests their bits. The loops over levels are recursive functions on the shrinking level, with the
  same order of pushes. \<open>bit_len n\<close> is \<^verbatim>\<open>usize::BITS - n.leading_zeros()\<close>.
\<close>

unbundle bit_operations_syntax

definition LEAF_PREFIX :: u8 where "LEAF_PREFIX = 0x00"
definition NODE_PREFIX :: u8 where "NODE_PREFIX = 0x01"

subsection \<open>Leaves, nodes and tree heads\<close>

record TransparencyLeaf =
  lf_user_id :: rstr
  lf_version :: u64
  lf_identity_x25519_pub :: bytes
  lf_identity_sig_pub :: bytes
  lf_identity_pq_sig_pub :: "bytes option"
  lf_timestamp :: u64

text \<open>\<^verbatim>\<open>bytes.len() as u32\<close> truncates.\<close>

definition update_len_prefixed :: "bytes \<Rightarrow> bytes" where
  "update_len_prefixed bs = u32_to_be_bytes (of_nat (length bs)) @ bs"

definition leaf_input :: "TransparencyLeaf \<Rightarrow> bytes" where
  "leaf_input l =
     [LEAF_PREFIX] @ update_len_prefixed (lf_user_id l) @ u64_to_be_bytes (lf_version l)
     @ lf_identity_x25519_pub l @ update_len_prefixed (lf_identity_sig_pub l)
     @ (case lf_identity_pq_sig_pub l of Some v \<Rightarrow> [0x01] @ update_len_prefixed v | None \<Rightarrow> [0x00])
     @ u64_to_be_bytes (lf_timestamp l)"

definition leaf_hash :: "crypto \<Rightarrow> TransparencyLeaf \<Rightarrow> bytes" where
  "leaf_hash c l = sha256 c (leaf_input l)"

definition node_input :: "bytes \<Rightarrow> bytes \<Rightarrow> bytes" where
  "node_input left right = [NODE_PREFIX] @ left @ right"

definition hash_node :: "crypto \<Rightarrow> bytes \<Rightarrow> bytes \<Rightarrow> bytes" where
  "hash_node c left right = sha256 c (node_input left right)"

record SignedTreeHead =
  sth_epoch :: u64
  sth_tree_size :: u64
  sth_root_hash :: bytes
  sth_signature :: bytes

definition signing_body :: "SignedTreeHead \<Rightarrow> bytes" where
  "signing_body sth = u64_to_be_bytes (sth_epoch sth) @ u64_to_be_bytes (sth_tree_size sth) @ sth_root_hash sth"

definition sth_verify :: "crypto \<Rightarrow> SignedTreeHead \<Rightarrow> bytes \<Rightarrow> unit result" where
  "sth_verify c sth server_pub_key =
     (if \<not> ed25519_sig_ok c (sth_signature sth) then Err SignatureVerificationFailed
      else if ed25519_verify c server_pub_key (signing_body sth) (sth_signature sth) then Ok ()
      else Err SignatureVerificationFailed)"

subsection \<open>Inclusion proofs\<close>

record InclusionProof =
  ip_leaf_index :: u64
  ip_path :: "(bytes \<times> bool) list"

definition path_step :: "crypto \<Rightarrow> bytes \<Rightarrow> bytes \<times> bool \<Rightarrow> bytes" where
  "path_step c current s =
     (case s of (sibling, is_left) \<Rightarrow>
        if is_left then hash_node c sibling current else hash_node c current sibling)"

definition verify_inclusion_proof ::
  "crypto \<Rightarrow> bytes \<Rightarrow> InclusionProof \<Rightarrow> SignedTreeHead \<Rightarrow> bytes \<Rightarrow> unit result" where
  "verify_inclusion_proof c lh proof sth server_pub_key =
     and_then (sth_verify c sth server_pub_key) (\<lambda>_.
     if foldl (path_step c) lh (ip_path proof) \<noteq> sth_root_hash sth
     then Err (PolicyViolation ''key_transparency.inclusion_proof_invalid'')
     else Ok ())"

fun next_level :: "crypto \<Rightarrow> bytes list \<Rightarrow> bytes list" where
  "next_level c (a # b # hs) = hash_node c a b # next_level c hs"
| "next_level c [a] = [a]"
| "next_level c [] = []"

lemma length_next_level [simp]: "length (next_level c hs) = (length hs + 1) div 2"
  by (induction c hs rule: next_level.induct) auto

function root_loop :: "crypto \<Rightarrow> bytes list \<Rightarrow> bytes" where
  "root_loop c level = (if length level > 1 then root_loop c (next_level c level) else level ! 0)"
  by auto
termination by (relation "measure (length \<circ> snd)") auto

declare root_loop.simps [simp del]

definition build_tree_root :: "crypto \<Rightarrow> bytes list \<Rightarrow> bytes option" where
  "build_tree_root c leaf_hashes = (if leaf_hashes = [] then None else Some (root_loop c leaf_hashes))"

function inclusion_loop :: "crypto \<Rightarrow> bytes list \<Rightarrow> usize \<Rightarrow> (bytes \<times> bool) list \<Rightarrow> (bytes \<times> bool) list" where
  "inclusion_loop c level idx path =
     (if length level > 1 then
        let sibling_idx = idx XOR 1;
            path = (if sibling_idx < length level then path @ [(level ! sibling_idx, sibling_idx < idx)] else path)
        in inclusion_loop c (next_level c level) (idx div 2) path
      else path)"
  by auto
termination by (relation "measure (length \<circ> fst \<circ> snd)") auto

declare inclusion_loop.simps [simp del]

definition build_inclusion_proof :: "crypto \<Rightarrow> bytes list \<Rightarrow> usize \<Rightarrow> InclusionProof option" where
  "build_inclusion_proof c leaf_hashes leaf_index =
     (if leaf_index \<ge> length leaf_hashes \<or> leaf_hashes = [] then None
      else Some \<lparr>ip_leaf_index = of_nat leaf_index, ip_path = inclusion_loop c leaf_hashes leaf_index []\<rparr>)"

subsection \<open>Consistency proofs\<close>

record ConsistencyProof =
  cp_old_size :: u64
  cp_new_size :: u64
  cp_proof_hashes :: "bytes list"

fun count_ones :: "nat \<Rightarrow> nat" where
  "count_ones n = (if n = 0 then 0 else n mod 2 + count_ones (n div 2))"

definition is_power_of_two :: "nat \<Rightarrow> bool" where
  "is_power_of_two n \<longleftrightarrow> count_ones n = 1"

function strip_ones :: "nat \<Rightarrow> nat \<Rightarrow> nat \<times> nat" where
  "strip_ones fn_idx sn_idx = (if odd fn_idx then strip_ones (fn_idx div 2) (sn_idx div 2) else (fn_idx, sn_idx))"
  by auto
termination by (relation "measure fst") (auto dest: odd_pos)

fun strip_zeros :: "nat \<Rightarrow> nat \<Rightarrow> nat \<times> nat" where
  "strip_zeros fn_idx sn_idx =
     (if fn_idx \<noteq> 0 \<and> even fn_idx then strip_zeros (fn_idx div 2) (sn_idx div 2) else (fn_idx, sn_idx))"

declare count_ones.simps [simp del] strip_ones.simps [simp del] strip_zeros.simps [simp del]

abbreviation invalid_consistency_params :: CoreError where
  "invalid_consistency_params \<equiv> PolicyViolation ''key_transparency.invalid_consistency_params''"

fun eval_loop :: "crypto \<Rightarrow> nat \<Rightarrow> nat \<Rightarrow> bytes \<Rightarrow> bytes \<Rightarrow> bytes list \<Rightarrow> (bytes \<times> bytes) result" where
  "eval_loop c fn_idx sn_idx old_node new_node [] =
     (if sn_idx \<noteq> 0 then Err invalid_consistency_params else Ok (old_node, new_node))"
| "eval_loop c fn_idx sn_idx old_node new_node (hash # hs) =
     (if sn_idx = 0 then Err invalid_consistency_params
      else if odd fn_idx \<or> fn_idx = sn_idx then
        (case strip_zeros fn_idx sn_idx of (fn_idx, sn_idx) \<Rightarrow>
           eval_loop c (fn_idx div 2) (sn_idx div 2) (hash_node c hash old_node) (hash_node c hash new_node) hs)
      else eval_loop c (fn_idx div 2) (sn_idx div 2) old_node (hash_node c new_node hash) hs)"

definition evaluate_consistency_proof ::
  "crypto \<Rightarrow> nat \<Rightarrow> nat \<Rightarrow> bytes \<Rightarrow> bytes list \<Rightarrow> (bytes \<times> bytes) result" where
  "evaluate_consistency_proof c old_size new_size old_root_hash proof_hashes =
     (if old_size = 0 \<or> old_size > new_size then Err invalid_consistency_params
      else if old_size = new_size then Err invalid_consistency_params
      else if proof_hashes = [] then Err invalid_consistency_params
      else case strip_ones (old_size - 1) (new_size - 1) of (fn_idx, sn_idx) \<Rightarrow>
        if is_power_of_two old_size
        then eval_loop c fn_idx sn_idx old_root_hash old_root_hash proof_hashes
        else eval_loop c fn_idx sn_idx (proof_hashes ! 0) (proof_hashes ! 0) (drop 1 proof_hashes))"

definition verify_consistency_proof ::
  "crypto \<Rightarrow> SignedTreeHead \<Rightarrow> SignedTreeHead \<Rightarrow> ConsistencyProof \<Rightarrow> bytes \<Rightarrow> unit result" where
  "verify_consistency_proof c old_sth new_sth proof server_pub_key =
     and_then (sth_verify c old_sth server_pub_key) (\<lambda>_.
     and_then (sth_verify c new_sth server_pub_key) (\<lambda>_.
     if sth_epoch new_sth < sth_epoch old_sth
     then Err (PolicyViolation ''key_transparency.epoch_regression'')
     else if sth_tree_size new_sth < sth_tree_size old_sth
     then Err (PolicyViolation ''key_transparency.tree_shrunk'')
     else if cp_old_size proof \<noteq> sth_tree_size old_sth \<or> cp_new_size proof \<noteq> sth_tree_size new_sth
     then Err (PolicyViolation ''key_transparency.proof_size_mismatch'')
     else if sth_tree_size old_sth = sth_tree_size new_sth
     then (if sth_root_hash old_sth \<noteq> sth_root_hash new_sth
           then Err (PolicyViolation ''key_transparency.root_hash_mismatch'') else Ok ())
     else and_then (evaluate_consistency_proof c (unat (sth_tree_size old_sth)) (unat (sth_tree_size new_sth))
            (sth_root_hash old_sth) (cp_proof_hashes proof)) (\<lambda>(old_root, new_root).
       if old_root \<noteq> sth_root_hash old_sth
       then Err (PolicyViolation ''key_transparency.old_root_mismatch'')
       else if new_root \<noteq> sth_root_hash new_sth
       then Err (PolicyViolation ''key_transparency.new_root_mismatch'')
       else Ok ())))"

fun bit_len :: "nat \<Rightarrow> nat" where
  "bit_len n = (if n = 0 then 0 else 1 + bit_len (n div 2))"

definition largest_power_of_two_less_than :: "usize \<Rightarrow> usize" where
  "largest_power_of_two_less_than n = 2 ^ (bit_len n - 2)"

declare bit_len.simps [simp del]

lemma bit_len_bounds: "n > 0 \<Longrightarrow> 2 ^ (bit_len n - 1) \<le> n \<and> n < 2 ^ bit_len n"
proof (induction n rule: bit_len.induct)
  case (1 n)
  show ?case
  proof (cases "n = 1")
    case True
    then show ?thesis by (simp add: bit_len.simps)
  next
    case False
    with "1.prems" have "n div 2 > 0" by simp
    with "1.IH" "1.prems" have "2 ^ (bit_len (n div 2) - 1) \<le> n div 2" "n div 2 < 2 ^ bit_len (n div 2)" by auto
    moreover have "bit_len n = Suc (bit_len (n div 2))" "bit_len (n div 2) \<noteq> 0"
      using "1.prems" \<open>n div 2 > 0\<close> by (simp_all add: bit_len.simps)
    ultimately show ?thesis by (cases "bit_len (n div 2)") auto
  qed
qed

lemma largest_power_bounds:
  assumes "n > 1"
  shows "0 < largest_power_of_two_less_than n \<and> largest_power_of_two_less_than n < n"
proof -
  have "2 ^ (bit_len n - 2) < (2::nat) ^ (bit_len n - 1)"
    using bit_len_bounds [of n] assms by (cases "bit_len n"; cases "bit_len n - 1") auto
  also have "\<dots> \<le> n" using bit_len_bounds [of n] assms by simp
  finally show ?thesis by (simp add: largest_power_of_two_less_than_def)
qed

function build_consistency_proof_inner ::
  "crypto \<Rightarrow> bytes list \<Rightarrow> usize \<Rightarrow> bool \<Rightarrow> bytes list \<Rightarrow> bytes list option" where
  "build_consistency_proof_inner c leaf_hashes old_size is_known_subtree proof_hashes =
     (let new_size = length leaf_hashes in
      if old_size = 0 \<or> old_size > new_size \<or> new_size = 0 then None
      else if old_size = new_size then
        (if \<not> is_known_subtree then
           (case build_tree_root c leaf_hashes of None \<Rightarrow> None | Some r \<Rightarrow> Some (proof_hashes @ [r]))
         else Some proof_hashes)
      else
        let split = largest_power_of_two_less_than new_size in
        if old_size \<le> split then
          (case build_consistency_proof_inner c (take split leaf_hashes) old_size is_known_subtree proof_hashes of
             None \<Rightarrow> None
           | Some proof_hashes \<Rightarrow> (case build_tree_root c (drop split leaf_hashes) of
               None \<Rightarrow> None | Some r \<Rightarrow> Some (proof_hashes @ [r])))
        else
          (case build_consistency_proof_inner c (drop split leaf_hashes) (old_size - split) False proof_hashes of
             None \<Rightarrow> None
           | Some proof_hashes \<Rightarrow> (case build_tree_root c (take split leaf_hashes) of
               None \<Rightarrow> None | Some r \<Rightarrow> Some (proof_hashes @ [r]))))"
  by auto
termination
proof (relation "measure (length \<circ> fst \<circ> snd)", goal_cases)
  case (2 c hs m b ps n k)
  then show ?case using largest_power_bounds [of n] by simp
next
  case (3 c hs m b ps n k)
  then show ?case using largest_power_bounds [of n] by simp
qed simp

definition build_consistency_proof :: "crypto \<Rightarrow> bytes list \<Rightarrow> usize \<Rightarrow> ConsistencyProof option" where
  "build_consistency_proof c leaf_hashes old_size =
     (let new_size = length leaf_hashes in
      if old_size = 0 \<or> old_size > new_size \<or> new_size = 0 then None
      else if old_size = new_size
      then Some \<lparr>cp_old_size = of_nat old_size, cp_new_size = of_nat new_size, cp_proof_hashes = []\<rparr>
      else (case build_consistency_proof_inner c leaf_hashes old_size True [] of
          None \<Rightarrow> None
        | Some proof_hashes \<Rightarrow>
            Some \<lparr>cp_old_size = of_nat old_size, cp_new_size = of_nat new_size, cp_proof_hashes = proof_hashes\<rparr>))"

declare build_consistency_proof_inner.simps [simp del]

subsection \<open>The server's tree head\<close>

text \<open>What the proof handler of the server computes from the leaf hashes of the log and the last event id.\<close>

definition server_tree_head :: "crypto \<Rightarrow> bytes \<Rightarrow> bytes list \<Rightarrow> u64 \<Rightarrow> SignedTreeHead option" where
  "server_tree_head c signing_key leaf_hashes last_event_id =
     (case build_tree_root c leaf_hashes of
        None \<Rightarrow> None
      | Some root_hash \<Rightarrow>
          let tree_size = of_nat (length leaf_hashes);
              sth = \<lparr>sth_epoch = max last_event_id tree_size, sth_tree_size = tree_size,
                     sth_root_hash = root_hash, sth_signature = []\<rparr>
          in Some (sth\<lparr>sth_signature := ed25519_sign c signing_key (signing_body sth)\<rparr>))"

end
