(* ===== verification/Transparency_Thms.thy ===== *)
theory Transparency_Thms
  imports Transparency
begin

text \<open>
  Properties of the key transparency log. The tree root is the recursive Merkle tree hash of RFC 6962
  (\<open>mth\<close>). Proofs over the bottom-up code are by induction on the level: \<open>next_level\<close> of two lists,
  what the evaluation of a proof does on one level (\<open>eval_loop\<close>), and the path \<open>level_path\<close> a
  correct prover reads off the levels.
\<close>

subsection \<open>Levels\<close>

lemma next_level_append:
  "even (length xs) \<Longrightarrow> next_level c (xs @ ys) = next_level c xs @ next_level c ys"
  by (induction c xs rule: next_level.induct) auto

lemma next_level_nth:
  "2 * i + 1 < length hs \<Longrightarrow> next_level c hs ! i = hash_node c (hs ! (2 * i)) (hs ! (2 * i + 1))"
proof (induction c hs arbitrary: i rule: next_level.induct)
  case (1 c a b hs)
  then show ?case by (cases i) auto
qed auto

lemma next_level_last: "length hs = 2 * i + 1 \<Longrightarrow> next_level c hs ! i = hs ! (2 * i)"
proof (induction c hs arbitrary: i rule: next_level.induct)
  case (1 c a b hs)
  then show ?case by (cases i) auto
qed auto

lemma next_level_eq_Nil [simp]: "next_level c hs = [] \<longleftrightarrow> hs = []"
  by (cases hs; cases "tl hs") auto

lemma root_loop_single [simp]: "root_loop c [h] = h"
  by (simp add: root_loop.simps)

lemma root_loop_next: "length hs > 1 \<Longrightarrow> root_loop c hs = root_loop c (next_level c hs)"
  by (subst root_loop.simps) simp

lemma root_loop_next': "hs \<noteq> [] \<Longrightarrow> root_loop c (next_level c hs) = root_loop c hs"
proof (cases "length hs > 1")
  case False
  moreover assume "hs \<noteq> []"
  ultimately obtain h where "hs = [h]" by (cases hs) auto
  then show ?thesis by simp
qed (simp only: root_loop_next [symmetric])

subsection \<open>The recursive tree hash\<close>

definition rfc_split :: "nat \<Rightarrow> nat" where
  "rfc_split n = 2 ^ (bit_len (n - 1) - 1)"

lemma rfc_split_bounds:
  assumes "n > 1"
  shows "0 < rfc_split n \<and> rfc_split n < n \<and> n \<le> 2 * rfc_split n"
proof -
  have "bit_len (n - 1) \<noteq> 0" using assms by (simp add: bit_len.simps)
  then have "2 * 2 ^ (bit_len (n - 1) - 1) = (2 :: nat) ^ bit_len (n - 1)" by (cases "bit_len (n - 1)") auto
  with bit_len_bounds [of "n - 1"] assms show ?thesis unfolding rfc_split_def by linarith
qed

lemma rfc_split_2 [simp]: "rfc_split 2 = 1"
  using rfc_split_bounds [of 2] by linarith

function mth :: "crypto \<Rightarrow> bytes list \<Rightarrow> bytes" where
  "mth c hs = (if length hs \<le> 1 then hs ! 0
     else hash_node c (mth c (take (rfc_split (length hs)) hs)) (mth c (drop (rfc_split (length hs)) hs)))"
  by auto
termination
proof (relation "measure (length \<circ> snd)", goal_cases)
  case (2 c hs)
  then show ?case using rfc_split_bounds [of "length hs"] by simp
next
  case (3 c hs)
  then show ?case using rfc_split_bounds [of "length hs"] by auto
qed simp

declare mth.simps [simp del]

lemma mth_single [simp]: "mth c [h] = h"
  by (simp add: mth.simps)

lemma rfc_split_half: "n > 2 \<Longrightarrow> rfc_split n = 2 * rfc_split ((n + 1) div 2)"
proof -
  assume n: "n > 2"
  have "bit_len (n - 1) = Suc (bit_len ((n - 1) div 2))" "bit_len ((n - 1) div 2) \<noteq> 0"
    using n by (subst bit_len.simps, simp)+
  moreover have "(n + 1) div 2 - 1 = (n - 1) div 2" using n by simp
  ultimately show ?thesis unfolding rfc_split_def by (cases "bit_len ((n - 1) div 2)") auto
qed

lemma mth_split:
  "length hs > 1 \<Longrightarrow> mth c hs = hash_node c (mth c (take (rfc_split (length hs)) hs)) (mth c (drop (rfc_split (length hs)) hs))"
  by (subst mth.simps) simp

lemma mth_append:
  "xs \<noteq> [] \<Longrightarrow> ys \<noteq> [] \<Longrightarrow> rfc_split (length xs + length ys) = length xs \<Longrightarrow>
    mth c (xs @ ys) = hash_node c (mth c xs) (mth c ys)"
  using mth_split [of "xs @ ys" c] by (cases xs; cases ys) simp_all

lemma mth_next_level_step:
  assumes n: "length hs > 2" and IH: "\<And>xs. length xs < length hs \<Longrightarrow> xs \<noteq> [] \<Longrightarrow> mth c (next_level c xs) = mth c xs"
  shows "mth c (next_level c hs) = mth c hs"
proof -
  define k where "k = rfc_split ((length hs + 1) div 2)"
  define xs ys where "xs = take (2 * k) hs" and "ys = drop (2 * k) hs"
  have k: "rfc_split (length hs) = 2 * k" using rfc_split_half n by (simp add: k_def)
  then have "0 < k" "2 * k < length hs" using rfc_split_bounds [of "length hs"] n by auto
  then have xy: "hs = xs @ ys" "length xs = 2 * k" "xs \<noteq> []" "ys \<noteq> []" "length xs < length hs" "length ys < length hs"
    by (auto simp: xs_def ys_def min_def)
  have "next_level c hs = next_level c xs @ next_level c ys" using xy next_level_append by simp
  moreover have "length (next_level c xs) = k" using xy by simp
  moreover have "rfc_split (length (next_level c hs)) = k" by (simp add: k_def)
  ultimately have "mth c (next_level c hs) = hash_node c (mth c (next_level c xs)) (mth c (next_level c ys))"
    using mth_append [of "next_level c xs" "next_level c ys" c] xy by (metis length_append next_level_eq_Nil)
  also have "\<dots> = hash_node c (mth c xs) (mth c ys)" using IH xy by simp
  also have "\<dots> = mth c hs" using mth_append [of xs ys c] xy k by (metis length_append)
  finally show ?thesis .
qed

lemma list_two_cases:
  assumes "hs \<noteq> []"
  obtains a where "hs = [a]" | a b where "hs = [a, b]" | "length hs > 2"
proof (cases hs)
  case (Cons a xs)
  with that show thesis by (cases xs; cases "tl xs") simp_all
qed (use assms in simp)

lemma mth_next_level: "hs \<noteq> [] \<Longrightarrow> mth c (next_level c hs) = mth c hs"
proof (induction "length hs" arbitrary: hs rule: less_induct)
  case less
  from less.prems show ?case
  proof (cases rule: list_two_cases)
    case (2 a b)
    then show ?thesis using mth_append [of "[a]" "[b]" c] by (simp add: numeral_2_eq_2 [symmetric])
  next
    case 3
    then show ?thesis by (rule mth_next_level_step) (rule less.hyps)
  qed simp
qed

lemma root_loop_mth: "hs \<noteq> [] \<Longrightarrow> root_loop c hs = mth c hs"
proof (induction c hs rule: root_loop.induct)
  case (1 c hs)
  show ?case
  proof (cases "length hs > 1")
    case True
    with 1 show ?thesis by (simp add: root_loop_next mth_next_level)
  next
    case False
    with "1.prems" show ?thesis by (simp add: root_loop.simps mth.simps)
  qed
qed

text \<open>
  C23. The bottom-up tree of the server, which promotes an odd node to the next level, has the root
  that RFC 6962 defines by splitting the leaves at the largest power of two below their number.
\<close>

theorem tree_root_rfc: "build_tree_root c hs = (if hs = [] then None else Some (mth c hs))"
  by (simp add: build_tree_root_def root_loop_mth)

subsection \<open>Inclusion proofs\<close>

lemma xor_one_nat: "(n :: nat) XOR Suc 0 = (if even n then n + 1 else n - 1)"
  by (subst xor_nat_unfold) (auto simp: odd_iff_mod_2_eq_one elim!: evenE oddE)

lemma path_step_sibling:
  assumes "idx < length level" "length level > 1" "sib = idx XOR 1"
  shows "next_level c level ! (idx div 2) =
    (if sib < length level then path_step c (level ! idx) (level ! sib, sib < idx) else level ! idx)"
proof (cases "even idx")
  case True
  then obtain i where i: "idx = 2 * i" by blast
  then have sib: "sib = 2 * i + 1" using assms(3) by (simp add: xor_one_nat)
  show ?thesis
  proof (cases "sib < length level")
    case True
    then show ?thesis using next_level_nth [of i level c] i sib by (simp add: path_step_def)
  next
    case False
    then have "length level = 2 * i + 1" using assms(1) i sib by simp
    then show ?thesis using next_level_last [of level i c] i False by simp
  qed
next
  case False
  then obtain i where i: "idx = 2 * i + 1" by (metis oddE)
  then have "sib = 2 * i" using assms(3) by (simp add: xor_one_nat)
  then show ?thesis using next_level_nth [of i level c] i assms(1) by (simp add: path_step_def)
qed

lemma inclusion_loop_root:
  "idx < length level \<Longrightarrow> foldl (path_step c) x path = level ! idx \<Longrightarrow>
    foldl (path_step c) x (inclusion_loop c level idx path) = root_loop c level"
proof (induction c level idx path rule: inclusion_loop.induct)
  case (1 c level idx path)
  show ?case
  proof (cases "length level > 1")
    case True
    define sib where "sib = idx XOR 1"
    let ?path = "if sib < length level then path @ [(level ! sib, sib < idx)] else path"
    have "foldl (path_step c) x ?path = next_level c level ! (idx div 2)"
      using path_step_sibling [OF "1.prems"(1) True sib_def, of c] "1.prems"(2) by simp
    moreover have "idx div 2 < length (next_level c level)" using "1.prems"(1) by simp
    ultimately have "foldl (path_step c) x (inclusion_loop c (next_level c level) (idx div 2) ?path)
        = root_loop c (next_level c level)"
      using "1.IH" [OF True sib_def refl] by blast
    then show ?thesis using True
      by (subst inclusion_loop.simps) (simp add: root_loop_next Let_def flip: sib_def One_nat_def)
  next
    case False
    then have "idx = 0" using "1.prems"(1) by simp
    with False "1.prems" show ?thesis by (simp add: inclusion_loop.simps root_loop.simps)
  qed
qed

lemma server_head_verifies:
  assumes "ed25519_ok c" "length sk = 32" "server_tree_head c sk hs ev = Some sth"
  shows "sth_verify c sth (ed25519_public c sk) = Ok ()" "build_tree_root c hs = Some (sth_root_hash sth)"
    "sth_tree_size sth = of_nat (length hs)"
  using assms by (auto simp: server_tree_head_def sth_verify_def ed25519_ok_def signing_body_def Let_def split: option.splits)

lemma server_head_total: "hs \<noteq> [] \<Longrightarrow> \<exists>sth. server_tree_head c sk hs ev = Some sth"
  by (simp add: server_tree_head_def build_tree_root_def Let_def)

text \<open>
  C21. Inclusion proofs are complete. For every leaf of the log, whatever the number of leaves, the server
  signs a tree head and builds a proof, and the client accepts the two.
\<close>

theorem inclusion_complete:
  assumes "ed25519_ok c" "length sk = 32" "i < length hs"
  shows "\<exists>sth proof. server_tree_head c sk hs ev = Some sth \<and> build_inclusion_proof c hs i = Some proof
    \<and> verify_inclusion_proof c (hs ! i) proof sth (ed25519_public c sk) = Ok ()"
proof -
  obtain sth where sth: "server_tree_head c sk hs ev = Some sth" using server_head_total [of hs] assms(3) by fastforce
  note head = server_head_verifies [OF assms(1,2) sth]
  have "foldl (path_step c) (hs ! i) (inclusion_loop c hs i []) = sth_root_hash sth"
    using inclusion_loop_root [of i hs c "hs ! i" "[]"] assms(3) head(2) by (auto simp: build_tree_root_def split: if_splits)
  then show ?thesis using assms(3) sth head(1) by (auto simp: build_inclusion_proof_def verify_inclusion_proof_def)
qed

text \<open>A log of three leaves over the concrete primitives, used by the witnesses.\<close>

definition toy_leaf :: "u64 \<Rightarrow> TransparencyLeaf" where
  "toy_leaf n = \<lparr>lf_user_id = [65], lf_version = n, lf_identity_x25519_pub = replicate 32 7,
     lf_identity_sig_pub = [], lf_identity_pq_sig_pub = None, lf_timestamp = n\<rparr>"

theorem inclusion_complete_witness:
  "\<exists>sth proof. server_tree_head toy_crypto (replicate 32 9) (map (leaf_hash toy_crypto) [toy_leaf 1, toy_leaf 2, toy_leaf 3]) 3 = Some sth
    \<and> build_inclusion_proof toy_crypto (map (leaf_hash toy_crypto) [toy_leaf 1, toy_leaf 2, toy_leaf 3]) 2 = Some proof
    \<and> verify_inclusion_proof toy_crypto (leaf_hash toy_crypto (toy_leaf 3)) proof sth (ed25519_public toy_crypto (replicate 32 9)) = Ok ()"
  using inclusion_complete [of toy_crypto "replicate 32 9" 2 "map (leaf_hash toy_crypto) [toy_leaf 1, toy_leaf 2, toy_leaf 3]" 3]
  by (simp add: numeral_2_eq_2)

subsection \<open>Strings that are hashed\<close>

text \<open>
  SHA-256 has collisions, so soundness is stated relative to the strings that are hashed: those of the
  honest tree and those of the verification. \<open>tree_pairs\<close> and \<open>path_pairs\<close> list the pairs of child
  hashes of the two computations.
\<close>

fun level_pairs :: "bytes list \<Rightarrow> (bytes \<times> bytes) list" where
  "level_pairs (a # b # hs) = (a, b) # level_pairs hs"
| "level_pairs hs = []"

function tree_pairs :: "crypto \<Rightarrow> bytes list \<Rightarrow> (bytes \<times> bytes) list" where
  "tree_pairs c level = (if length level > 1 then level_pairs level @ tree_pairs c (next_level c level) else [])"
  by auto
termination by (relation "measure (length \<circ> snd)") auto

declare tree_pairs.simps [simp del]

fun path_pairs :: "crypto \<Rightarrow> bytes \<Rightarrow> (bytes \<times> bool) list \<Rightarrow> (bytes \<times> bytes) list" where
  "path_pairs c h [] = []"
| "path_pairs c h (s # path) =
     (if snd s then (fst s, h) else (h, fst s)) # path_pairs c (path_step c h s) path"

definition node_inputs :: "(bytes \<times> bytes) list \<Rightarrow> bytes set" where
  "node_inputs ps = (\<lambda>(a, b). node_input a b) ` set ps"

lemma path_step_pair: "path_step c h s = (case if snd s then (fst s, h) else (h, fst s) of (a, b) \<Rightarrow> hash_node c a b)"
  by (auto simp: path_step_def split: prod.splits)

lemma next_level_cases:
  "x \<in> set (next_level c hs) \<Longrightarrow> x \<in> set hs \<or> (\<exists>(a, b) \<in> set (level_pairs hs). x = hash_node c a b)"
  by (induction c hs rule: next_level.induct) auto

lemma level_pairs_set: "(a, b) \<in> set (level_pairs hs) \<Longrightarrow> a \<in> set hs \<and> b \<in> set hs"
  by (induction hs rule: level_pairs.induct) auto

lemma tree_pairs_next:
  "length hs > 1 \<Longrightarrow> tree_pairs c hs = level_pairs hs @ tree_pairs c (next_level c hs)"
  by (subst tree_pairs.simps) simp

definition tree_values :: "crypto \<Rightarrow> bytes list \<Rightarrow> bytes set" where
  "tree_values c hs = set hs \<union> (\<lambda>(a, b). hash_node c a b) ` set (tree_pairs c hs)"

lemma tree_values_next: "length hs > 1 \<Longrightarrow> tree_values c (next_level c hs) \<subseteq> tree_values c hs"
  using next_level_cases [of _ c hs] by (fastforce simp: tree_values_def tree_pairs_next)

lemma tree_pairs_values: "(a, b) \<in> set (tree_pairs c hs) \<Longrightarrow> a \<in> tree_values c hs \<and> b \<in> tree_values c hs"
proof (induction c hs rule: tree_pairs.induct)
  case (1 c hs)
  show ?case
  proof (cases "length hs > 1")
    case True
    with "1.prems" consider "(a, b) \<in> set (level_pairs hs)" | "(a, b) \<in> set (tree_pairs c (next_level c hs))"
      by (auto simp: tree_pairs_next)
    then show ?thesis
    proof cases
      case 1
      then show ?thesis using level_pairs_set by (simp add: tree_values_def)
    next
      case 2
      then show ?thesis using "1.IH" True tree_values_next by blast
    qed
  qed (use "1.prems" in \<open>simp add: tree_pairs.simps\<close>)
qed

lemma root_in_tree_values: "hs \<noteq> [] \<Longrightarrow> root_loop c hs \<in> tree_values c hs"
proof (induction c hs rule: root_loop.induct)
  case (1 c hs)
  show ?case
  proof (cases "length hs > 1")
    case True
    with 1 show ?thesis using tree_values_next [of hs c] by (auto simp: root_loop_next)
  next
    case False
    with "1.prems" show ?thesis by (simp add: root_loop.simps tree_values_def)
  qed
qed

lemma length_hash_node [simp]: "sha256_ok c \<Longrightarrow> length (hash_node c a b) = 32"
  by (simp add: hash_node_def sha256_ok_def)

lemma length_leaf_hash [simp]: "sha256_ok c \<Longrightarrow> length (leaf_hash c l) = 32"
  by (simp add: leaf_hash_def sha256_ok_def)

lemma tree_values_length:
  "sha256_ok c \<Longrightarrow> \<forall>h\<in>set hs. length h = 32 \<Longrightarrow> v \<in> tree_values c hs \<Longrightarrow> length v = 32"
  by (auto simp: tree_values_def)

lemma hash_node_inject:
  assumes "inj_on (sha256 c) S" "node_input a b \<in> S" "node_input a' b' \<in> S" "length a = length a'"
    and "hash_node c a b = hash_node c a' b'"
  shows "a = a' \<and> b = b'"
  using inj_onD [OF assms(1) assms(5) [unfolded hash_node_def] assms(2,3)] assms(4) by (simp add: node_input_def)

subsection \<open>Leaf encoding\<close>

definition leaf_wf :: "TransparencyLeaf \<Rightarrow> bool" where
  "leaf_wf l \<longleftrightarrow> length (lf_user_id l) < 2 ^ 32 \<and> length (lf_identity_x25519_pub l) = 32
     \<and> length (lf_identity_sig_pub l) < 2 ^ 32
     \<and> (case lf_identity_pq_sig_pub l of None \<Rightarrow> True | Some v \<Rightarrow> length v < 2 ^ 32)"

lemma update_len_prefixed_inject:
  assumes "length a < 2 ^ 32" "length b < 2 ^ 32" "update_len_prefixed a @ xs = update_len_prefixed b @ ys"
  shows "a = b \<and> xs = ys"
proof -
  have "u32_to_be_bytes (of_nat (length a)) = u32_to_be_bytes (of_nat (length b))" and r: "a @ xs = b @ ys"
    using assms(3) by (simp_all add: update_len_prefixed_def)
  then have "(of_nat (length a) :: u32) = of_nat (length b)" by simp
  then have "unat (of_nat (length a) :: u32) = unat (of_nat (length b) :: u32)" by (rule arg_cong)
  then have "length a = length b" using assms(1,2) by (simp add: unat_of_nat)
  with r show ?thesis by simp
qed

definition pq_part :: "bytes option \<Rightarrow> bytes" where
  "pq_part k = (case k of Some v \<Rightarrow> [0x01] @ update_len_prefixed v | None \<Rightarrow> [0x00])"

lemma pq_part_inject:
  assumes "pq_part k @ xs = pq_part k' @ ys" "\<And>v. k = Some v \<Longrightarrow> length v < 2 ^ 32" "\<And>v. k' = Some v \<Longrightarrow> length v < 2 ^ 32"
  shows "k = k' \<and> xs = ys"
proof (cases k; cases k')
  fix v v' assume k: "k = Some v" "k' = Some v'"
  have "update_len_prefixed v @ xs = update_len_prefixed v' @ ys" using assms(1) by (simp add: pq_part_def k)
  then show ?thesis using update_len_prefixed_inject [of v v' xs ys] assms(2) [OF k(1)] assms(3) [OF k(2)] k by blast
qed (use assms(1) in \<open>simp_all add: pq_part_def\<close>)

lemma leaf_input_inject:
  assumes "leaf_wf l" "leaf_wf l'" "leaf_input l = leaf_input l'"
  shows "l = l'"
proof -
  obtain u v x s q t where l: "l = \<lparr>lf_user_id = u, lf_version = v, lf_identity_x25519_pub = x,
      lf_identity_sig_pub = s, lf_identity_pq_sig_pub = q, lf_timestamp = t\<rparr>" by (cases l)
  obtain u' v' x' s' q' t' where l': "l' = \<lparr>lf_user_id = u', lf_version = v', lf_identity_x25519_pub = x',
      lf_identity_sig_pub = s', lf_identity_pq_sig_pub = q', lf_timestamp = t'\<rparr>" by (cases l')
  have wf: "length u < 2 ^ 32" "length u' < 2 ^ 32" "length s < 2 ^ 32" "length s' < 2 ^ 32" "length x = length x'"
    using assms(1,2) by (simp_all add: l l' leaf_wf_def)
  have q: "length a < 2 ^ 32" if "q = Some a" for a using assms(1) that by (simp add: l leaf_wf_def)
  have q': "length a < 2 ^ 32" if "q' = Some a" for a using assms(2) that by (simp add: l' leaf_wf_def)
  have eq: "update_len_prefixed u @ u64_to_be_bytes v @ x @ update_len_prefixed s @ pq_part q @ u64_to_be_bytes t
      = update_len_prefixed u' @ u64_to_be_bytes v' @ x' @ update_len_prefixed s' @ pq_part q' @ u64_to_be_bytes t'"
    using assms(3) by (simp add: l l' leaf_input_def pq_part_def)
  note e1 = update_len_prefixed_inject [OF wf(1,2) eq]
  then have e2: "v = v'" "x = x'" and eq2: "update_len_prefixed s @ pq_part q @ u64_to_be_bytes t
      = update_len_prefixed s' @ pq_part q' @ u64_to_be_bytes t'" using wf(5) by simp_all
  note e3 = update_len_prefixed_inject [OF wf(3,4) eq2]
  from pq_part_inject [OF conjunct2 [OF e3] q q'] have "q = q'" "t = t'" by simp_all
  with e1 e2 e3 show ?thesis by (simp add: l l')
qed

lemma leaf_not_node: "leaf_input l \<noteq> node_input a b"
  by (simp add: leaf_input_def node_input_def LEAF_PREFIX_def NODE_PREFIX_def)

subsection \<open>Soundness of inclusion proofs\<close>

lemma path_pairs_snoc:
  "path_pairs c h (path @ [s]) = path_pairs c h path
     @ [let v = foldl (path_step c) h path in if snd s then (fst s, v) else (v, fst s)]"
  by (induction path arbitrary: h) (auto simp: Let_def)

lemma path_value_length:
  "sha256_ok c \<Longrightarrow> length h = 32 \<Longrightarrow> length (foldl (path_step c) h path) = 32"
  by (induction path rule: rev_induct) (auto simp: path_step_def split: prod.splits)

lemma path_walks_down:
  assumes "sha256_ok c" "inj_on (sha256 c) S" "leaf_input ` set ls \<subseteq> S"
    "node_inputs (tree_pairs c (map (leaf_hash c) ls)) \<subseteq> S" "length h = 32"
  shows "node_inputs (path_pairs c h path) \<subseteq> S \<Longrightarrow> \<forall>s\<in>set path. length (fst s) = 32 \<Longrightarrow>
    foldl (path_step c) h path \<in> tree_values c (map (leaf_hash c) ls) \<Longrightarrow> h \<in> tree_values c (map (leaf_hash c) ls)"
proof (induction path rule: rev_induct)
  case (snoc s path)
  let ?hs = "map (leaf_hash c) ls"
  define v where "v = foldl (path_step c) h path"
  obtain a b where ab: "(if snd s then (fst s, v) else (v, fst s)) = (a, b)" by fastforce
  have in_S: "node_input a b \<in> S" using snoc.prems(1) ab
    by (auto simp: path_pairs_snoc node_inputs_def v_def Let_def split: if_splits)
  have len: "length a = 32" using ab snoc.prems(2) path_value_length [OF assms(1,5), of path]
    by (auto simp: v_def split: if_splits)
  have val: "hash_node c a b \<in> tree_values c ?hs"
    using snoc.prems(3) ab path_step_pair [of c v s] by (simp add: v_def)
  have "hash_node c a b \<notin> set ?hs"
  proof
    assume "hash_node c a b \<in> set ?hs"
    then obtain l where l: "l \<in> set ls" and eq: "hash_node c a b = leaf_hash c l" by auto
    have "leaf_input l \<in> S" using assms(3) l by blast
    with inj_onD [OF assms(2) eq [unfolded hash_node_def leaf_hash_def] in_S] leaf_not_node [of l a b]
    show False by simp
  qed
  with val obtain a' b' where t: "(a', b') \<in> set (tree_pairs c ?hs)" "hash_node c a b = hash_node c a' b'"
    by (auto simp: tree_values_def)
  have "length a' = 32"
    using tree_pairs_values [OF t(1)] tree_values_length [OF assms(1), of ?hs a'] assms(1) by auto
  moreover have "node_input a' b' \<in> S" using t(1) assms(4) unfolding node_inputs_def by force
  ultimately have "a = a' \<and> b = b'" using hash_node_inject [OF assms(2) in_S _ _ t(2)] len by simp
  with t(1) have "a \<in> tree_values c ?hs \<and> b \<in> tree_values c ?hs" using tree_pairs_values by blast
  with ab have "v \<in> tree_values c ?hs" by (auto split: if_splits)
  with snoc.IH snoc.prems show ?case by (auto simp: v_def path_pairs_snoc node_inputs_def)
qed simp

text \<open>
  C18. Inclusion proofs are sound. If a client accepts a proof for a leaf against a tree head with the root of
  a log, and SHA-256 has no collision among the strings hashed for the log and for the proof, then
  the leaf is in the log, with every field as published. The proof may have any length: a prefix byte
  keeps leaves and nodes apart.
\<close>

theorem inclusion_sound:
  assumes "sha256_ok c" "verify_inclusion_proof c (leaf_hash c l) proof sth pk = Ok ()"
    and "build_tree_root c (map (leaf_hash c) ls) = Some (sth_root_hash sth)"
    and "list_all (\<lambda>s. length (fst s) = 32) (ip_path proof)" "list_all leaf_wf (l # ls)"
    and "inj_on (sha256 c) (leaf_input ` set (l # ls) \<union> node_inputs (tree_pairs c (map (leaf_hash c) ls))
      \<union> node_inputs (path_pairs c (leaf_hash c l) (ip_path proof)))" (is "inj_on _ ?S")
  shows "l \<in> set ls"
proof -
  let ?hs = "map (leaf_hash c) ls"
  have "foldl (path_step c) (leaf_hash c l) (ip_path proof) = root_loop c ?hs" "ls \<noteq> []"
    using assms(2,3) by (auto simp: verify_inclusion_proof_def build_tree_root_def split: if_splits)
  then have "foldl (path_step c) (leaf_hash c l) (ip_path proof) \<in> tree_values c ?hs"
    using root_in_tree_values [of ?hs c] by simp
  moreover have S: "leaf_input ` set ls \<subseteq> ?S" "node_inputs (tree_pairs c ?hs) \<subseteq> ?S"
      "node_inputs (path_pairs c (leaf_hash c l) (ip_path proof)) \<subseteq> ?S" by auto
  moreover have "\<forall>s\<in>set (ip_path proof). length (fst s) = 32" using assms(4) by (simp add: list_all_iff)
  ultimately have "leaf_hash c l \<in> tree_values c ?hs"
    using path_walks_down [OF assms(1,6) S(1,2) length_leaf_hash [OF assms(1)] S(3)] by blast
  moreover have "leaf_hash c l \<noteq> hash_node c a b" if "(a, b) \<in> set (tree_pairs c ?hs)" for a b
  proof
    assume eq: "leaf_hash c l = hash_node c a b"
    have "leaf_input l \<in> ?S" "node_input a b \<in> ?S" using that by (auto simp: node_inputs_def)
    with inj_onD [OF assms(6) eq [unfolded hash_node_def leaf_hash_def]] leaf_not_node show False by blast
  qed
  ultimately have "leaf_hash c l \<in> leaf_hash c ` set ls" unfolding tree_values_def by fastforce
  then obtain l' where l': "l' \<in> set ls" "leaf_hash c l = leaf_hash c l'" by (rule imageE)
  have "leaf_input l \<in> ?S" "leaf_input l' \<in> ?S" using l'(1) by auto
  with inj_onD [OF assms(6) l'(2) [unfolded leaf_hash_def]] have "leaf_input l = leaf_input l'" by blast
  moreover have "leaf_wf l" "leaf_wf l'" using assms(5) l'(1) by (simp_all add: list_all_iff)
  ultimately have "l = l'" using leaf_input_inject by blast
  with l'(1) show ?thesis by simp
qed

theorem inclusion_sound_witness:
  "\<exists>sth proof. server_tree_head toy_crypto (replicate 32 9) [leaf_hash toy_crypto (toy_leaf 1)] 1 = Some sth
    \<and> verify_inclusion_proof toy_crypto (leaf_hash toy_crypto (toy_leaf 1)) proof sth (ed25519_public toy_crypto (replicate 32 9)) = Ok ()
    \<and> toy_leaf 1 \<in> set [toy_leaf 1]"
proof -
  let ?hs = "map (leaf_hash toy_crypto) [toy_leaf 1]"
  obtain sth where sth: "server_tree_head toy_crypto (replicate 32 9) ?hs 1 = Some sth" using server_head_total [of ?hs] by fastforce
  note head = server_head_verifies [OF toy_ed25519_ok _ sth]
  let ?p = "\<lparr>ip_leaf_index = 0, ip_path = []\<rparr>"
  have v: "verify_inclusion_proof toy_crypto (leaf_hash toy_crypto (toy_leaf 1)) ?p sth (ed25519_public toy_crypto (replicate 32 9)) = Ok ()"
    using head by (simp add: verify_inclusion_proof_def build_tree_root_def)
  from inclusion_sound [OF toy_sha256_ok v head(2)] have "toy_leaf 1 \<in> set [toy_leaf 1]"
    by (simp add: leaf_wf_def toy_leaf_def tree_pairs.simps node_inputs_def)
  with v sth show ?thesis by auto
qed

end
