(* ===== verification/Consistency_Thms.thy ===== *)
theory Consistency_Thms
  imports Transparency_Thms
begin

text \<open>
  Consistency proofs of the key transparency log: the evaluation of a proof follows the levels of
  the two trees, so it computes both roots for a prover that reads the levels, and it is sound without hash
  collisions.
\<close>

subsection \<open>Consistency proofs, level by level\<close>

text \<open>
  On one level let \<open>f\<close> be the index of the last node of the old tree and \<open>B\<close> the nodes of the new tree.
  The path has the left sibling of node \<open>f\<close> or its right sibling in the new tree, and nothing where
  the node is promoted in both trees.
\<close>

function level_path :: "crypto \<Rightarrow> nat \<Rightarrow> bytes list \<Rightarrow> bytes list" where
  "level_path c f B =
     (if length B > 1 then
        (if odd f then [B ! (f - 1)] else if f + 1 = length B then [] else [B ! (f + 1)])
        @ level_path c (f div 2) (next_level c B)
      else [])"
  by auto
termination by (relation "measure (length \<circ> snd \<circ> snd)") auto

declare level_path.simps [simp del]

lemma level_path_next:
  "length B > 1 \<Longrightarrow> level_path c f B =
     (if odd f then [B ! (f - 1)] else if f + 1 = length B then [] else [B ! (f + 1)])
     @ level_path c (f div 2) (next_level c B)"
  by (subst level_path.simps) simp

lemma strip_zeros_double: "f > 0 \<Longrightarrow> strip_zeros (2 * f) s = strip_zeros f (s div 2)"
  by (subst strip_zeros.simps) simp

lemma strip_zeros_odd [simp]: "odd f \<Longrightarrow> strip_zeros f s = (f, s)"
  by (subst strip_zeros.simps) simp

lemma eval_loop_promote: "f > 0 \<Longrightarrow> eval_loop c (2 * f) (2 * f) a b hs = eval_loop c f f a b hs"
  by (cases hs) (simp_all add: strip_zeros_double)

lemma eval_loop_left:
  "odd f \<Longrightarrow> 0 < s \<Longrightarrow> eval_loop c f s a b (h # hs) = eval_loop c (f div 2) (s div 2) (hash_node c h a) (hash_node c h b) hs"
  by simp

lemma eval_loop_right:
  "even f \<Longrightarrow> f < s \<Longrightarrow> eval_loop c f s a b (h # hs) = eval_loop c (f div 2) (s div 2) a (hash_node c b h) hs"
  by simp

lemma next_level_take: "take i (next_level c A) = next_level c (take (2 * i) A)"
proof (induction c A arbitrary: i rule: next_level.induct)
  case (1 c a b hs)
  then show ?case by (cases i) simp_all
next
  case (2 c a)
  then show ?case by (cases i) simp_all
qed simp

lemma take_next_level_eq:
  "take f A = take f B \<Longrightarrow> take (f div 2) (next_level c A) = take (f div 2) (next_level c B)"
proof -
  assume "take f A = take f B"
  then have "take (2 * (f div 2)) (take f A) = take (2 * (f div 2)) (take f B)" by simp
  then have "take (2 * (f div 2)) A = take (2 * (f div 2)) B" by (simp add: min_def split: if_splits)
  then show ?thesis by (simp add: next_level_take)
qed

lemma next_level_odd: "odd f \<Longrightarrow> f < length A \<Longrightarrow> next_level c A ! (f div 2) = hash_node c (A ! (f - 1)) (A ! f)"
  using next_level_nth [of "f div 2" A c] by (auto elim!: oddE)

lemma next_level_even: "even f \<Longrightarrow> f + 1 < length A \<Longrightarrow> next_level c A ! (f div 2) = hash_node c (A ! f) (A ! (f + 1))"
  using next_level_nth [of "f div 2" A c] by (auto elim!: evenE)

lemma next_level_promote: "even f \<Longrightarrow> length A = f + 1 \<Longrightarrow> next_level c A ! (f div 2) = A ! f"
  using next_level_last [of A "f div 2" c] by (auto elim!: evenE)

lemma take_less_nth: "take f A = take f B \<Longrightarrow> i < f \<Longrightarrow> A ! i = B ! i"
  by (metis nth_take)

text \<open>The evaluation of the path computes both roots.\<close>

lemma eval_level_path:
  "length A = f + 1 \<Longrightarrow> f < length B \<Longrightarrow> take f A = take f B \<Longrightarrow>
    eval_loop c f (length B - 1) (A ! f) (B ! f) (level_path c f B) = Ok (root_loop c A, root_loop c B)"
proof (induction c f B arbitrary: A rule: level_path.induct)
  case (1 c f B)
  let ?A = "next_level c A" and ?B = "next_level c B" and ?n = "length B - 1"
  have half: "length ?A = f div 2 + 1" "length ?B - 1 = ?n div 2" "f div 2 < length ?B"
    using "1.prems"(1,2) by simp_all
  note pre = take_next_level_eq [OF "1.prems"(3), of c]
  have roots: "root_loop c ?A = root_loop c A" "root_loop c ?B = root_loop c B"
    using "1.prems"(1,2) by (auto intro!: root_loop_next')
  show ?case
  proof (cases "length B > 1")
    case True
    note IH = "1.IH" [OF True half(1,3) pre, unfolded roots half(2)]
    consider (left) "odd f" | (promote) "even f" "f + 1 = length B" | (right) "even f" "f + 1 < length B"
      using "1.prems"(2) by linarith
    then show ?thesis
    proof cases
      case left
      then have "A ! (f - 1) = B ! (f - 1)" using take_less_nth [OF "1.prems"(3)] by (simp add: odd_pos)
      then have "?A ! (f div 2) = hash_node c (B ! (f - 1)) (A ! f)" "?B ! (f div 2) = hash_node c (B ! (f - 1)) (B ! f)"
        using next_level_odd [OF left, of A c] next_level_odd [OF left, of B c] "1.prems"(1,2) by simp_all
      then show ?thesis using IH left True eval_loop_left [OF left, of ?n c "A ! f" "B ! f"] level_path_next [OF True]
        by (simp del: eval_loop.simps)
    next
      case promote
      define g where "g = f div 2"
      have f: "f = 2 * g" using promote(1) by (simp add: g_def)
      then have g: "f = 2 * g" "g > 0" using True promote(2) by linarith+
      have "?A ! g = A ! f" "?B ! g = B ! f" "?n = 2 * g"
        using next_level_promote [OF promote(1), of A c] next_level_promote [OF promote(1), of B c] promote "1.prems"(1) g
        by simp_all
      then show ?thesis using IH promote g level_path_next [OF True] eval_loop_promote [OF g(2), of c "A ! f" "B ! f"]
        by (simp del: eval_loop.simps)
    next
      case right
      have "?A ! (f div 2) = A ! f" "?B ! (f div 2) = hash_node c (B ! f) (B ! (f + 1))"
        using next_level_promote [OF right(1), of A c] next_level_even [OF right, of c] "1.prems"(1) by simp_all
      then show ?thesis using IH right True eval_loop_right [OF right(1), of ?n c "A ! f" "B ! f"] level_path_next [OF True]
        by (simp del: eval_loop.simps)
    qed
  next
    case False
    with "1.prems" have "f = 0" "length A = 1" "length B = 1" by auto
    with False show ?thesis by (simp add: level_path.simps root_loop.simps)
  qed
qed

subsection \<open>Trees without collisions\<close>

definition node_inj :: "crypto \<Rightarrow> (bytes \<times> bytes) set \<Rightarrow> bool" where
  "node_inj c P \<longleftrightarrow> inj_on (\<lambda>(a, b). hash_node c a b) P"

lemma node_injD:
  "node_inj c P \<Longrightarrow> hash_node c a b = hash_node c a' b' \<Longrightarrow> (a, b) \<in> P \<Longrightarrow> (a', b') \<in> P \<Longrightarrow> a = a' \<and> b = b'"
  unfolding node_inj_def inj_on_def by fastforce

lemma next_level_inject:
  "node_inj c P \<Longrightarrow> length X = length Y \<Longrightarrow> set (level_pairs X) \<subseteq> P \<Longrightarrow> set (level_pairs Y) \<subseteq> P \<Longrightarrow>
    next_level c X = next_level c Y \<Longrightarrow> X = Y"
proof (induction X arbitrary: Y rule: level_pairs.induct)
  case (1 a b hs)
  then obtain a' b' hs' where "Y = a' # b' # hs'" by (auto simp: length_Suc_conv Suc_length_conv)
  with 1 show ?case using node_injD [of c P a b a' b'] by auto
qed (auto simp: length_Suc_conv Suc_length_conv)

lemma set_level_pairs_take: "set (level_pairs (take (2 * i) A)) \<subseteq> set (level_pairs A)"
proof (induction A arbitrary: i rule: level_pairs.induct)
  case (1 a b hs)
  then show ?case by (cases i) auto
qed (auto simp: take_Cons split: nat.split)

lemma take_level_inject:
  assumes "node_inj c P" "set (level_pairs A) \<subseteq> P" "set (level_pairs B) \<subseteq> P" "2 * i \<le> length A" "2 * i \<le> length B"
    and "take i (next_level c A) = take i (next_level c B)"
  shows "take (2 * i) A = take (2 * i) B"
proof (rule next_level_inject [OF assms(1)])
  show "length (take (2 * i) A) = length (take (2 * i) B)" using assms(4,5) by simp
  show "next_level c (take (2 * i) A) = next_level c (take (2 * i) B)" using assms(6) by (simp add: next_level_take)
qed (use assms(2,3) set_level_pairs_take in blast)+

lemma nth_level_pairs: "i + 1 < length A \<Longrightarrow> even i \<Longrightarrow> (A ! i, A ! (i + 1)) \<in> set (level_pairs A)"
proof (induction A arbitrary: i rule: level_pairs.induct)
  case (1 a b hs)
  show ?case
  proof (cases "i = 0")
    case False
    then have "i \<ge> 2" "even (i - 2)" using "1.prems"(2) by auto
    then show ?thesis using "1.IH" [of "i - 2"] "1.prems" by (simp add: nth_Cons' numeral_2_eq_2 Suc_diff_Suc)
  qed simp
qed simp_all

lemma tree_pairs_level: "length A > 1 \<Longrightarrow> set (level_pairs A) \<subseteq> set (tree_pairs c A)"
  by (simp add: tree_pairs_next)

lemma tree_pairs_next_subset: "set (tree_pairs c (next_level c A)) \<subseteq> set (tree_pairs c A)"
proof (cases "length A > 1")
  case False
  then have "next_level c A = A" by (cases A; cases "tl A") auto
  then show ?thesis by simp
qed (simp add: tree_pairs_next)

lemma level_pairs_tree: "set (level_pairs A) \<subseteq> set (tree_pairs c A)"
proof (cases "length A > 1")
  case False
  then show ?thesis by (cases A; cases "tl A") auto
qed (rule tree_pairs_level)

lemma root_loop_inject:
  "length A = length B \<Longrightarrow> A \<noteq> [] \<Longrightarrow> node_inj c P \<Longrightarrow> set (tree_pairs c A) \<subseteq> P \<Longrightarrow> set (tree_pairs c B) \<subseteq> P \<Longrightarrow>
    root_loop c A = root_loop c B \<Longrightarrow> A = B"
proof (induction c A arbitrary: B rule: root_loop.induct)
  case (1 c A)
  show ?case
  proof (cases "length A > 1")
    case True
    have "next_level c A = next_level c B"
    proof (rule "1.IH" [OF True])
      show "root_loop c (next_level c A) = root_loop c (next_level c B)"
        using "1.prems"(1,6) True root_loop_next by metis
      show "set (tree_pairs c (next_level c A)) \<subseteq> P" "set (tree_pairs c (next_level c B)) \<subseteq> P"
        using "1.prems"(4,5) tree_pairs_next_subset by blast+
    qed (use "1.prems"(1-3) in simp_all)
    then show ?thesis
      using next_level_inject [OF "1.prems"(3,1)] level_pairs_tree [of A c] level_pairs_tree [of B c] "1.prems"(4,5) by blast
  next
    case False
    with "1.prems"(1,2) obtain a b where "A = [a]" "B = [b]" by (cases A; cases B) auto
    with "1.prems"(6) show ?thesis by simp
  qed
qed

subsection \<open>Soundness of the evaluation\<close>

text \<open>The pairs that the evaluation of a proof hashes.\<close>

fun eval_pairs :: "crypto \<Rightarrow> nat \<Rightarrow> nat \<Rightarrow> bytes \<Rightarrow> bytes \<Rightarrow> bytes list \<Rightarrow> (bytes \<times> bytes) list" where
  "eval_pairs c f s a b [] = []"
| "eval_pairs c f s a b (h # hs) =
     (if s = 0 then []
      else if odd f \<or> f = s then
        (case strip_zeros f s of (f, s) \<Rightarrow>
           (h, a) # (h, b) # eval_pairs c (f div 2) (s div 2) (hash_node c h a) (hash_node c h b) hs)
      else (b, h) # eval_pairs c (f div 2) (s div 2) a (hash_node c b h) hs)"

lemma eval_pairs_promote: "f > 0 \<Longrightarrow> eval_pairs c (2 * f) (2 * f) a b hs = eval_pairs c f f a b hs"
  by (cases hs) (simp_all add: strip_zeros_double)

lemma take_Suc_eq: "take i A = take i B \<Longrightarrow> i < length A \<Longrightarrow> i < length B \<Longrightarrow> A ! i = B ! i \<Longrightarrow> take (Suc i) A = take (Suc i) B"
  by (simp add: take_Suc_conv_app_nth)

lemma eval_loop_sound:
  "length A = f + 1 \<Longrightarrow> f < length B \<Longrightarrow> eval_loop c f (length B - 1) a b hs = Ok (root_loop c A, root_loop c B) \<Longrightarrow>
    node_inj c P \<Longrightarrow> set (tree_pairs c A) \<subseteq> P \<Longrightarrow> set (tree_pairs c B) \<subseteq> P \<Longrightarrow>
    set (eval_pairs c f (length B - 1) a b hs) \<subseteq> P \<Longrightarrow> take f A = take f B \<and> a = A ! f \<and> b = B ! f"
proof (induction c f B arbitrary: A a b hs rule: level_path.induct)
  case (1 c f B)
  let ?A = "next_level c A" and ?B = "next_level c B" and ?n = "length B - 1"
  have half: "length ?A = f div 2 + 1" "length ?B - 1 = ?n div 2" "f div 2 < length ?B"
    using "1.prems"(1,2) by simp_all
  have roots: "root_loop c ?A = root_loop c A" "root_loop c ?B = root_loop c B"
    using "1.prems"(1,2) by (auto intro!: root_loop_next')
  have sub: "set (tree_pairs c ?A) \<subseteq> P" "set (tree_pairs c ?B) \<subseteq> P" "set (level_pairs A) \<subseteq> P" "set (level_pairs B) \<subseteq> P"
    using "1.prems"(5,6) tree_pairs_next_subset level_pairs_tree by blast+
  note inj = node_injD [OF "1.prems"(4)] and down = take_level_inject [OF "1.prems"(4) sub(3,4)]
  show ?case
  proof (cases "length B > 1")
    case True
    note IH = "1.IH" [OF True half(1,3) _ "1.prems"(4) sub(1,2), unfolded roots half(2)]
    consider (left) "odd f" | (promote) "even f" "f + 1 = length B" | (right) "even f" "f + 1 < length B"
      using "1.prems"(2) by linarith
    then show ?thesis
    proof cases
      case promote
      define g where "g = f div 2"
      have f: "f = 2 * g" using promote(1) by (simp add: g_def)
      then have g: "?n = 2 * g" "g > 0" using True promote(2) by linarith+
      have "take g ?A = take g ?B \<and> a = ?A ! g \<and> b = ?B ! g"
        using IH [of a b hs] "1.prems"(3,7) f g eval_loop_promote [OF g(2)] eval_pairs_promote [OF g(2)] by (simp del: eval_loop.simps)
      then show ?thesis
        using down [of g] f "1.prems"(1,2) next_level_promote [OF promote(1), of A c] next_level_promote [OF promote(1), of B c] promote(2)
        by simp
    next
      case left
      then obtain h hs' where hs: "hs = h # hs'" using "1.prems"(3) True by (cases hs) auto
      have t: "take (f div 2) ?A = take (f div 2) ?B \<and> hash_node c h a = ?A ! (f div 2) \<and> hash_node c h b = ?B ! (f div 2)"
        using IH [of "hash_node c h a" "hash_node c h b" hs'] "1.prems"(3,7) left True hs by simp
      have p: "(A ! (f - 1), A ! f) \<in> P" "(B ! (f - 1), B ! f) \<in> P"
        using nth_level_pairs [of "f - 1" A] nth_level_pairs [of "f - 1" B] sub(3,4) left "1.prems"(1,2) by auto
      have q: "(h, a) \<in> P" "(h, b) \<in> P" using "1.prems"(7) left True hs by simp_all
      have "hash_node c h a = hash_node c (A ! (f - 1)) (A ! f)" "hash_node c h b = hash_node c (B ! (f - 1)) (B ! f)"
        using t next_level_odd [OF left, of A c] next_level_odd [OF left, of B c] "1.prems"(1,2) by simp_all
      from inj [OF this(1) q(1) p(1)] inj [OF this(2) q(2) p(2)] t
      have e: "take (f div 2) ?A = take (f div 2) ?B" "h = A ! (f - 1)" "a = A ! f" "h = B ! (f - 1)" "b = B ! f" by blast+
      have "2 * (f div 2) = f - 1" "Suc (f - 1) = f" using left by (simp_all add: odd_pos)
      with e down [OF _ _ e(1)] "1.prems"(1,2) take_Suc_eq [of "f - 1" A B] show ?thesis by simp
    next
      case right
      then obtain h hs' where hs: "hs = h # hs'" using "1.prems"(3) True by (cases hs) auto
      have t: "take (f div 2) ?A = take (f div 2) ?B \<and> a = ?A ! (f div 2) \<and> hash_node c b h = ?B ! (f div 2)"
        using IH [of a "hash_node c b h" hs'] "1.prems"(3,7) right hs by (simp split: if_splits)
      have p: "(B ! f, B ! (f + 1)) \<in> P" using nth_level_pairs [of f B] sub(4) right by auto
      have q: "(b, h) \<in> P" using "1.prems"(7) right hs by (simp split: if_splits)
      have "hash_node c b h = hash_node c (B ! f) (B ! (f + 1))" using t next_level_even [OF right, of c] by simp
      from inj [OF this q p] t show ?thesis
        using next_level_promote [OF right(1), of A c] down [of "f div 2"] right "1.prems"(1,2) by simp
    qed
  next
    case False
    with "1.prems"(1,2) have "f = 0" "length A = 1" "length B = 1" by auto
    with "1.prems"(3) show ?thesis by (cases hs) (auto simp: root_loop.simps)
  qed
qed

subsection \<open>Sizes\<close>

lemma strip_ones_power: "odd q \<Longrightarrow> strip_ones (q * 2 ^ l - 1) s = (q - 1, s div 2 ^ l)"
proof (induction l arbitrary: s)
  case 0
  then show ?case by (subst strip_ones.simps) (simp add: odd_pos)
next
  case (Suc l)
  define m where "m = q * 2 ^ l"
  have m: "m > 0" using Suc.prems by (simp add: m_def odd_pos)
  have "q * 2 ^ Suc l = 2 * m" by (simp add: m_def)
  then have "q * 2 ^ Suc l - 1 = 2 * (m - 1) + 1" using m by linarith
  then have "strip_ones (q * 2 ^ Suc l - 1) s = strip_ones (m - 1) (s div 2)"
    by (subst strip_ones.simps) simp
  also have "\<dots> = (q - 1, s div 2 div 2 ^ l)" using Suc by (simp add: m_def)
  finally show ?case by (simp add: div_mult2_eq)
qed

lemma count_ones_double: "count_ones (2 * n) = count_ones n"
  by (subst count_ones.simps) (simp add: count_ones.simps [of 0])

lemma count_ones_pos: "n > 0 \<Longrightarrow> count_ones n > 0"
proof (induction n rule: count_ones.induct)
  case (1 n)
  show ?case
  proof (cases "odd n")
    case True
    then show ?thesis by (subst count_ones.simps) (simp add: odd_pos odd_iff_mod_2_eq_one)
  next
    case False
    with 1 show ?thesis by (subst count_ones.simps) auto
  qed
qed

lemma is_power_of_two_odd_part: "odd q \<Longrightarrow> is_power_of_two (q * 2 ^ l) \<longleftrightarrow> q = 1"
proof (induction l)
  case 0
  show ?case
  proof (cases "q = 1")
    case True
    then show ?thesis by (simp add: is_power_of_two_def count_ones.simps)
  next
    case False
    with 0 have "q mod 2 = 1" "q \<noteq> 0" "q > 1" by presburger+
    then have "q div 2 > 0" by linarith
    with \<open>q mod 2 = 1\<close> \<open>q \<noteq> 0\<close> show ?thesis
      using count_ones_pos [of "q div 2"] False count_ones.simps [of q] by (simp add: is_power_of_two_def)
  qed
next
  case (Suc l)
  have "q * 2 ^ Suc l = 2 * (q * 2 ^ l)" by simp
  with Suc show ?case using count_ones_double [of "q * 2 ^ l"] by (simp only: is_power_of_two_def simp_thms)
qed

lemma odd_part: "(m :: nat) > 0 \<Longrightarrow> \<exists>q l. odd q \<and> m = q * 2 ^ l"
proof (induction m rule: less_induct)
  case (less m)
  show ?case
  proof (cases "odd m")
    case True
    then show ?thesis by (intro exI [of _ m] exI [of _ 0]) simp
  next
    case False
    then obtain k where k: "m = 2 * k" by blast
    with less.prems have "k < m" "0 < k" by linarith+
    with less.IH obtain q l where "odd q" "k = q * 2 ^ l" by blast
    with k show ?thesis by (intro exI [of _ q] exI [of _ "Suc l"]) simp
  qed
qed

abbreviation levels :: "crypto \<Rightarrow> nat \<Rightarrow> bytes list \<Rightarrow> bytes list" where
  "levels c l hs \<equiv> (next_level c ^^ l) hs"

lemma length_levels: "hs \<noteq> [] \<Longrightarrow> length (levels c l hs) = (length hs - 1) div 2 ^ l + 1"
proof (induction l)
  case (Suc l)
  have "((length hs - 1) div 2 ^ l + 2) div 2 = (length hs - 1) div 2 ^ Suc l + 1"
    by (simp add: div_mult2_eq [symmetric] mult.commute)
  with Suc show ?case by simp
qed simp

lemma levels_Nil [simp]: "levels c l hs = [] \<longleftrightarrow> hs = []"
  by (induction l) simp_all

lemma root_levels: "hs \<noteq> [] \<Longrightarrow> root_loop c (levels c l hs) = root_loop c hs"
  by (induction l) (simp_all add: root_loop_next')

lemma tree_pairs_levels: "set (tree_pairs c (levels c l hs)) \<subseteq> set (tree_pairs c hs)"
  by (induction l) (use tree_pairs_next_subset in fastforce)+

lemma levels_prefix_down:
  "node_inj c P \<Longrightarrow> set (tree_pairs c A) \<subseteq> P \<Longrightarrow> set (tree_pairs c B) \<subseteq> P \<Longrightarrow>
    length A = q * 2 ^ l \<Longrightarrow> length A \<le> length B \<Longrightarrow> levels c l A = take q (levels c l B) \<Longrightarrow> take (length A) B = A"
proof (induction l arbitrary: A B)
  case (Suc l)
  let ?A = "next_level c A" and ?B = "next_level c B"
  define m where "m = q * 2 ^ l"
  have len: "length A = 2 * m" "length ?A = m" using Suc.prems(4) by (simp_all add: m_def)
  have "take (length ?A) ?B = ?A"
  proof (rule Suc.IH [OF Suc.prems(1)])
    show "set (tree_pairs c ?A) \<subseteq> P" "set (tree_pairs c ?B) \<subseteq> P"
      using Suc.prems(2,3) tree_pairs_next_subset by blast+
    show "levels c l ?A = take q (levels c l ?B)" using Suc.prems(6) by (simp add: funpow_swap1)
  qed (use len Suc.prems(5) in \<open>simp_all add: m_def\<close>)
  then have "take m ?A = take m ?B" using len by simp
  moreover have "set (level_pairs A) \<subseteq> P" "set (level_pairs B) \<subseteq> P"
    using level_pairs_tree Suc.prems(2,3) by blast+
  ultimately have "take (2 * m) A = take (2 * m) B"
    using take_level_inject [OF Suc.prems(1)] Suc.prems(5) len by simp
  then show ?case using len by simp
qed simp

subsection \<open>Soundness of consistency proofs\<close>

definition proof_pairs :: "crypto \<Rightarrow> nat \<Rightarrow> nat \<Rightarrow> bytes \<Rightarrow> bytes list \<Rightarrow> (bytes \<times> bytes) list" where
  "proof_pairs c old_size new_size old_root_hash proof_hashes =
     (case strip_ones (old_size - 1) (new_size - 1) of (f, s) \<Rightarrow>
        if is_power_of_two old_size then eval_pairs c f s old_root_hash old_root_hash proof_hashes
        else eval_pairs c f s (proof_hashes ! 0) (proof_hashes ! 0) (drop 1 proof_hashes))"

lemma div_pred: "(q :: nat) > 0 \<Longrightarrow> (q * 2 ^ l - 1) div 2 ^ l = q - 1"
proof -
  assume "q > 0"
  from gr0_implies_Suc [OF this] obtain p where p: "q = Suc p" by blast
  have "q * 2 ^ l - 1 = (2 ^ l - 1) + p * 2 ^ l" by (simp add: p)
  moreover have "((2 ^ l - 1) + p * 2 ^ l) div 2 ^ l = p + (2 ^ l - 1) div 2 ^ l" by (rule div_mult_self1) simp
  moreover have "(2 ^ l - 1) div 2 ^ l = (0 :: nat)" by simp
  ultimately show ?thesis by (simp only: p diff_Suc_1 add_0_right)
qed

lemma eval_start_sound:
  assumes "odd q" "length A = q * 2 ^ l" "length A < length B"
    and "eval_loop c (q - 1) ((length B - 1) div 2 ^ l) h h hs = Ok (root_loop c A, root_loop c B)"
    and "node_inj c P" "set (tree_pairs c A) \<subseteq> P" "set (tree_pairs c B) \<subseteq> P"
    and "set (eval_pairs c (q - 1) ((length B - 1) div 2 ^ l) h h hs) \<subseteq> P"
  shows "take (length A) B = A"
proof -
  let ?A = "levels c l A" and ?B = "levels c l B"
  have q: "q > 0" using assms(1) by (rule odd_pos)
  then have ne: "A \<noteq> []" "B \<noteq> []" using assms(2,3) by auto
  have "(length A - 1) div 2 ^ l = q - 1" using div_pred [OF q] assms(2) by simp
  then have lens: "length ?A = (q - 1) + 1" "length ?B - 1 = (length B - 1) div 2 ^ l"
    using length_levels [OF ne(1), where c = c and l = l] length_levels [OF ne(2), where c = c and l = l] by linarith+
  have "(length A - 1) div 2 ^ l \<le> (length B - 1) div 2 ^ l" using assms(3) by (intro div_le_mono) simp
  then have f: "q - 1 < length ?B" using lens(1) length_levels [OF ne(1), where c = c and l = l] length_levels [OF ne(2), where c = c and l = l] by simp
  have r: "root_loop c ?A = root_loop c A" "root_loop c ?B = root_loop c B" using root_levels ne by blast+
  have sub: "set (tree_pairs c ?A) \<subseteq> P" "set (tree_pairs c ?B) \<subseteq> P" using assms(6,7) tree_pairs_levels by blast+
  from eval_loop_sound [OF lens(1) f _ assms(5) sub, of h h hs] assms(4,8)
  have e: "take (q - 1) ?A = take (q - 1) ?B" "?A ! (q - 1) = ?B ! (q - 1)" unfolding r lens(2) by auto
  have "take q ?A = take q ?B" using take_Suc_eq [OF e(1) _ f e(2)] lens(1) q by simp
  then have "?A = take q ?B" using lens(1) q by simp
  then show ?thesis using levels_prefix_down [OF assms(5-7,2)] assms(3) by simp
qed

lemma evaluate_sound:
  assumes "olds \<noteq> []" "length olds < length news"
    and "evaluate_consistency_proof c (length olds) (length news) (root_loop c olds) ph = Ok (root_loop c olds, root_loop c news)"
    and "node_inj c P" "set (tree_pairs c olds) \<subseteq> P" "set (tree_pairs c news) \<subseteq> P"
    and "set (proof_pairs c (length olds) (length news) (root_loop c olds) ph) \<subseteq> P"
  shows "take (length olds) news = olds"
proof -
  obtain q l where ql: "odd q" "length olds = q * 2 ^ l" using odd_part [of "length olds"] assms(1) by auto
  note start = strip_ones_power [OF ql(1), of l "length news - 1", folded ql(2)]
  show ?thesis
  proof (cases "is_power_of_two (length olds)")
    case True
    show ?thesis
      by (rule eval_start_sound [OF ql assms(2) _ assms(4-6), of "root_loop c olds" ph])
        (use True start assms(2,3,7) in \<open>auto simp: evaluate_consistency_proof_def proof_pairs_def split: if_splits\<close>)
  next
    case False
    show ?thesis
      by (rule eval_start_sound [OF ql assms(2) _ assms(4-6), of "ph ! 0" "drop 1 ph"])
        (use False start assms(2,3,7) in \<open>auto simp: evaluate_consistency_proof_def proof_pairs_def split: if_splits\<close>)
  qed
qed

lemma node_inj_from_sha256:
  assumes "inj_on (sha256 c) (node_inputs ps)" "\<forall>p\<in>set ps. length (fst p) = 32"
  shows "node_inj c (set ps)"
  unfolding node_inj_def
proof (rule inj_onI)
  fix x y assume x: "x \<in> set ps" and y: "y \<in> set ps"
    and eq: "(case x of (a, b) \<Rightarrow> hash_node c a b) = (case y of (a, b) \<Rightarrow> hash_node c a b)"
  have "node_input (fst x) (snd x) \<in> node_inputs ps" "node_input (fst y) (snd y) \<in> node_inputs ps"
    using x y unfolding node_inputs_def case_prod_unfold by blast+
  moreover have "hash_node c (fst x) (snd x) = hash_node c (fst y) (snd y)" using eq by (simp add: case_prod_unfold)
  moreover have "length (fst x) = length (fst y)" using x y assms(2) by simp
  ultimately have "fst x = fst y \<and> snd x = snd y" using hash_node_inject [OF assms(1)] by blast
  then show "x = y" by (simp add: prod_eq_iff)
qed

lemma eval_pairs_length:
  "sha256_ok c \<Longrightarrow> length b = 32 \<Longrightarrow> \<forall>h\<in>set hs. length h = 32 \<Longrightarrow> p \<in> set (eval_pairs c f s a b hs) \<Longrightarrow> length (fst p) = 32"
proof (induction hs arbitrary: f s a b)
  case (Cons h hs)
  obtain f' s' where z: "strip_zeros f s = (f', s')" by fastforce
  note IH = Cons.IH [OF Cons.prems(1) length_hash_node [OF Cons.prems(1)]]
  show ?case using Cons.prems IH by (auto simp: z split: if_splits)
qed simp

lemma proof_pairs_length:
  assumes "sha256_ok c" "length r = 32" "\<forall>h\<in>set ph. length h = 32" "ph \<noteq> []" "p \<in> set (proof_pairs c m n r ph)"
  shows "length (fst p) = 32"
proof -
  obtain f s where fs: "strip_ones (m - 1) (n - 1) = (f, s)" by fastforce
  have h: "length (ph ! 0) = 32" "\<forall>h\<in>set (drop 1 ph). length h = 32" using assms(3,4) by (auto dest: in_set_dropD)
  show ?thesis
  proof (cases "is_power_of_two m")
    case True
    then show ?thesis using assms(5) fs eval_pairs_length [OF assms(1,2,3)] by (simp add: proof_pairs_def)
  next
    case False
    then show ?thesis using assms(5) fs eval_pairs_length [OF assms(1) h] by (simp add: proof_pairs_def)
  qed
qed

lemma tree_pairs_length:
  "sha256_ok c \<Longrightarrow> \<forall>h\<in>set hs. length h = 32 \<Longrightarrow> p \<in> set (tree_pairs c hs) \<Longrightarrow> length (fst p) = 32"
  using tree_pairs_values [of "fst p" "snd p" c hs] tree_values_length by simp

text \<open>
  C19. Consistency proofs are sound. If a client accepts a consistency proof between two tree heads that
  carry the sizes and roots of two logs, and SHA-256 has no collision among the strings hashed for
  the two logs and for the proof, then the old log is a prefix of the new one and the epoch has not
  gone back: the server can neither remove nor change a published leaf.
\<close>

theorem consistency_sound:
  assumes "sha256_ok c" "verify_consistency_proof c old_sth new_sth proof pk = Ok ()"
    and "build_tree_root c olds = Some (sth_root_hash old_sth)" "unat (sth_tree_size old_sth) = length olds"
    and "build_tree_root c news = Some (sth_root_hash new_sth)" "unat (sth_tree_size new_sth) = length news"
    and "list_all (\<lambda>h. length h = 32) (olds @ news @ cp_proof_hashes proof)"
    and "inj_on (sha256 c) (node_inputs (tree_pairs c olds @ tree_pairs c news
      @ proof_pairs c (length olds) (length news) (sth_root_hash old_sth) (cp_proof_hashes proof)))"
  shows "prefix olds news \<and> sth_epoch old_sth \<le> sth_epoch new_sth"
proof -
  let ?ps = "tree_pairs c olds @ tree_pairs c news
      @ proof_pairs c (length olds) (length news) (sth_root_hash old_sth) (cp_proof_hashes proof)"
  have r: "olds \<noteq> []" "news \<noteq> []" "sth_root_hash old_sth = root_loop c olds" "sth_root_hash new_sth = root_loop c news"
    using assms(3,5) by (auto simp: build_tree_root_def split: if_splits)
  have len: "\<forall>h\<in>set olds. length h = 32" "\<forall>h\<in>set news. length h = 32" "\<forall>h\<in>set (cp_proof_hashes proof). length h = 32"
    using assms(7) by (auto simp: list_all_iff)
  have root32: "length (root_loop c olds) = 32"
    using tree_values_length [OF assms(1) len(1) root_in_tree_values [OF r(1), of c]] .
  have epoch: "sth_epoch old_sth \<le> sth_epoch new_sth"
    and size: "sth_tree_size old_sth \<le> sth_tree_size new_sth"
    using assms(2) by (auto simp: verify_consistency_proof_def not_less split: if_splits)
  have "prefix olds news"
  proof (cases "sth_tree_size old_sth = sth_tree_size new_sth")
    case True
    then have eq: "root_loop c olds = root_loop c news" "length olds = length news"
      using assms(2,4,6) r by (auto simp: verify_consistency_proof_def split: if_splits)
    have "node_inj c (set (tree_pairs c olds @ tree_pairs c news))"
    proof (rule node_inj_from_sha256)
      show "inj_on (sha256 c) (node_inputs (tree_pairs c olds @ tree_pairs c news))"
        using assms(8) by (rule inj_on_subset) (auto simp: node_inputs_def)
    qed (use tree_pairs_length [OF assms(1)] len in auto)
    with root_loop_inject [OF eq(2) r(1) _ _ _ eq(1)] have "olds = news" by simp
    then show ?thesis by simp
  next
    case False
    have lt: "length olds < length news"
      using False size assms(4,6) by (metis order_le_imp_less_or_eq word_less_nat_alt)
    have ev: "evaluate_consistency_proof c (length olds) (length news) (root_loop c olds) (cp_proof_hashes proof)
        = Ok (root_loop c olds, root_loop c news)"
      using assms(2,4,6) False r by (auto simp: verify_consistency_proof_def split: if_splits)
    have ph: "cp_proof_hashes proof \<noteq> []" using ev by (auto simp: evaluate_consistency_proof_def split: if_splits)
    have "\<forall>p\<in>set ?ps. length (fst p) = 32"
    proof -
      have "length (fst p) = 32" if "p \<in> set (proof_pairs c (length olds) (length news) (root_loop c olds) (cp_proof_hashes proof))" for p
        using that by (rule proof_pairs_length [OF assms(1) root32 len(3) ph])
      then show ?thesis using tree_pairs_length [OF assms(1) len(1)] tree_pairs_length [OF assms(1) len(2)] unfolding r(3) by auto
    qed
    from node_inj_from_sha256 [OF assms(8) this] have "take (length olds) news = olds"
      by (rule evaluate_sound [OF r(1) lt ev]) (auto simp: r(3))
    then show ?thesis using take_is_prefix [of "length olds" news] by simp
  qed
  with epoch show ?thesis by simp
qed

theorem consistency_sound_witness:
  "\<exists>olds news old_sth new_sth proof. server_tree_head toy_crypto (replicate 32 9) olds 1 = Some old_sth
    \<and> server_tree_head toy_crypto (replicate 32 9) news 2 = Some new_sth
    \<and> verify_consistency_proof toy_crypto old_sth new_sth proof (ed25519_public toy_crypto (replicate 32 9)) = Ok ()
    \<and> prefix olds news"
proof -
  define h g where "h = leaf_hash toy_crypto (toy_leaf 1)" and "g = leaf_hash toy_crypto (toy_leaf 2)"
  have len: "length h = 32" "length g = 32" by (simp_all add: h_def g_def)
  obtain s1 where s1: "server_tree_head toy_crypto (replicate 32 9) [h] 1 = Some s1" using server_head_total [of "[h]"] by fastforce
  obtain s2 where s2: "server_tree_head toy_crypto (replicate 32 9) [h, g] 2 = Some s2" using server_head_total [of "[h, g]"] by fastforce
  note h1 = server_head_verifies [OF toy_ed25519_ok _ s1] and h2 = server_head_verifies [OF toy_ed25519_ok _ s2]
  let ?p = "\<lparr>cp_old_size = 1, cp_new_size = 2, cp_proof_hashes = [g]\<rparr>"
  have epoch: "sth_epoch s1 = 1" "sth_epoch s2 = 2" using s1 s2 by (auto simp: server_tree_head_def build_tree_root_def Let_def)
  have roots: "sth_root_hash s1 = h" "sth_root_hash s2 = hash_node toy_crypto h g"
    using h1(2) h2(2) by (simp_all add: build_tree_root_def root_loop_next)
  have st: "strip_ones 0 (Suc 0) = (0, Suc 0)" "is_power_of_two (Suc 0)"
    by (simp_all add: strip_ones.simps is_power_of_two_def count_ones.simps)
  have v: "verify_consistency_proof toy_crypto s1 s2 ?p (ed25519_public toy_crypto (replicate 32 9)) = Ok ()"
    using h1 h2 epoch roots st by (simp add: verify_consistency_proof_def evaluate_consistency_proof_def)
  have "inj_on (sha256 toy_crypto) (node_inputs (tree_pairs toy_crypto [h] @ tree_pairs toy_crypto [h, g]
      @ proof_pairs toy_crypto (length [h]) (length [h, g]) (sth_root_hash s1) (cp_proof_hashes ?p)))"
    using roots st by (simp add: tree_pairs.simps proof_pairs_def node_inputs_def)
  with consistency_sound [OF toy_sha256_ok v h1(2) _ h2(2)] h1(3) h2(3) len have "prefix [h] [h, g]" by simp
  with v s1 s2 show ?thesis by blast
qed

end
