(* ===== verification/Prover_Thms.thy ===== *)
theory Prover_Thms
  imports Consistency_Thms
begin

text \<open>
  The prover of consistency proofs. On a tree whose number of leaves is a power of two it produces the
  path that the verifier expects; on every other tree its split is half of the one the tree has.
\<close>

subsection \<open>The prover on complete trees\<close>

lemma length_levels_power: "length X = 2 ^ k \<Longrightarrow> l \<le> k \<Longrightarrow> length (levels c l X) = 2 ^ (k - l)"
proof -
  assume a: "length X = 2 ^ k" "l \<le> k"
  then have "X \<noteq> []" by auto
  moreover have "(2 :: nat) ^ k = 2 ^ (k - l) * 2 ^ l" using a(2) by (simp flip: power_add)
  ultimately show ?thesis
    using length_levels [of X l c] div_pred [of "2 ^ (k - l)" l] a(1) by (simp only: zero_less_power zero_less_numeral) simp
qed

lemma levels_append: "length X = 2 ^ k \<Longrightarrow> l \<le> k \<Longrightarrow> levels c l (X @ Y) = levels c l X @ levels c l Y"
proof (induction l)
  case (Suc l)
  have "length (levels c l X) = 2 ^ (k - l)" using length_levels_power Suc.prems by simp
  moreover have "even ((2 :: nat) ^ (k - l))" using Suc.prems(2) by simp
  ultimately have "even (length (levels c l X))" by simp
  moreover have "levels c l (X @ Y) = levels c l X @ levels c l Y" using Suc by simp
  ultimately show ?case using next_level_append by simp
qed simp

lemma levels_take: "levels c l (take (q * 2 ^ l) D) = take q (levels c l D)"
proof (induction l arbitrary: D)
  case (Suc l)
  have "levels c (Suc l) (take (q * 2 ^ Suc l) D) = levels c l (next_level c (take (2 * (q * 2 ^ l)) D))"
    by (simp only: funpow_Suc_right o_apply power_Suc mult.left_commute)
  also have "\<dots> = levels c l (take (q * 2 ^ l) (next_level c D))" by (simp only: next_level_take)
  also have "\<dots> = take q (levels c (Suc l) D)" by (simp only: Suc.IH funpow_Suc_right o_apply)
  finally show ?case .
qed simp

lemma level_path_even_length:
  assumes "length X = 2 * n" "f < 2 * n"
  shows "level_path c f X = X ! (if odd f then f - 1 else f + 1) # level_path c (f div 2) (next_level c X)"
proof -
  have "n > 0" using assms(2) by simp
  then have long: "length X > 1" using assms(1) by linarith
  show ?thesis
  proof (cases "odd f")
    case True
    then show ?thesis using level_path_next [OF long, of c f] by simp
  next
    case False
    then have "f + 1 \<noteq> length X" unfolding assms(1) by presburger
    with False show ?thesis using level_path_next [OF long, of c f] by simp
  qed
qed

lemma sibling_bound: "f < 2 * n \<Longrightarrow> (if odd f then f - 1 else f + 1) < 2 * (n :: nat)"
proof (cases "odd f")
  case False
  then obtain g where "f = 2 * g" by blast
  moreover assume "f < 2 * n"
  ultimately show ?thesis using False by simp
qed simp

lemma level_path_append_step:
  assumes "length X = 2 * n" "length Y = 2 * n" "f < 2 * n"
  shows "level_path c f (X @ Y) = X ! (if odd f then f - 1 else f + 1) # level_path c (f div 2) (next_level c X @ next_level c Y)"
    and "level_path c (f + 2 * n) (X @ Y) = Y ! (if odd f then f - 1 else f + 1) # level_path c (f div 2 + n) (next_level c X @ next_level c Y)"
proof -
  have nxt: "next_level c (X @ Y) = next_level c X @ next_level c Y" using next_level_append assms(1) by simp
  have len: "length (X @ Y) = 2 * (2 * n)" using assms by simp
  let ?i = "if odd f then f - 1 else f + 1"
  have "(X @ Y) ! ?i = X ! ?i" using sibling_bound [OF assms(3)] assms(1) by (simp only: nth_append) simp
  moreover have "f < 2 * (2 * n)" using assms(3) by simp
  ultimately show "level_path c f (X @ Y) = X ! ?i # level_path c (f div 2) (next_level c X @ next_level c Y)"
    using level_path_even_length [OF len, of f c] nxt by simp
  have j: "(if odd (f + 2 * n) then f + 2 * n - 1 else f + 2 * n + 1) = 2 * n + ?i" by presburger
  have "(X @ Y) ! (2 * n + ?i) = Y ! ?i" using assms(1) by (metis nth_append_length_plus)
  moreover have "f + 2 * n < 2 * (2 * n)" "(f + 2 * n) div 2 = f div 2 + n" using assms(3) by simp_all
  ultimately show "level_path c (f + 2 * n) (X @ Y) = Y ! ?i # level_path c (f div 2 + n) (next_level c X @ next_level c Y)"
    using level_path_even_length [OF len, of "f + 2 * n" c] nxt unfolding j by (simp add: add.commute)
qed

lemma level_path_append:
  "length X = 2 ^ k \<Longrightarrow> length Y = 2 ^ k \<Longrightarrow> f < 2 ^ k \<Longrightarrow>
    level_path c f (X @ Y) = level_path c f X @ [root_loop c Y]
    \<and> level_path c (f + 2 ^ k) (X @ Y) = level_path c f Y @ [root_loop c X]"
proof (induction k arbitrary: X Y f)
  case 0
  then have "length X = 1" "length Y = 1" by simp_all
  then obtain x y where "X = [x]" "Y = [y]" by (metis One_nat_def length_0_conv length_Suc_conv)
  with 0 show ?case by (simp add: level_path.simps)
next
  case (Suc k)
  define n :: nat where "n = 2 ^ k"
  have len: "length X = 2 * n" "length Y = 2 * n" "f < 2 * n" "2 ^ Suc k = 2 * n" using Suc.prems by (simp_all add: n_def)
  have half: "length (next_level c X) = 2 ^ k" "length (next_level c Y) = 2 ^ k" "f div 2 < 2 ^ k"
    using len unfolding n_def [symmetric] by simp_all
  have "X \<noteq> []" "Y \<noteq> []" using len by auto
  note roots = root_loop_next' [OF this(1), of c] root_loop_next' [OF this(2), of c]
  show ?case
    using Suc.IH [OF half] level_path_append_step [OF len(1-3), of c] level_path_even_length [OF len(1,3), of c]
      level_path_even_length [OF len(2,3), of c]
    unfolding len(4) roots n_def [symmetric] by simp
qed

lemma bit_len_power: "bit_len (2 ^ k) = k + 1"
proof (induction k)
  case 0
  show ?case by (simp add: bit_len.simps [of "Suc 0"] bit_len.simps [of 0])
next
  case (Suc k)
  then show ?case using bit_len.simps [of "2 ^ Suc k"] by simp
qed

lemma largest_power_power: "largest_power_of_two_less_than (2 ^ Suc i) = 2 ^ i"
  using bit_len_power [of "Suc i"] by (simp add: largest_power_of_two_less_than_def del: power_Suc)

lemma odd_times_power_eq: "odd q \<Longrightarrow> q * 2 ^ l = (2 :: nat) ^ j \<Longrightarrow> q = 1 \<and> l = j"
proof -
  assume a: "odd q" "q * 2 ^ l = (2 :: nat) ^ j"
  have "is_power_of_two (1 * 2 ^ j)" using is_power_of_two_odd_part [of 1 j] by simp
  then have "q = 1" using is_power_of_two_odd_part [OF a(1), of l] a(2) by simp
  with a(2) show ?thesis by simp
qed

lemma inner_left:
  assumes "0 < m" "m \<le> k" "k < length D" "k = largest_power_of_two_less_than (length D)"
    and "build_consistency_proof_inner c (take k D) m b acc = Some ps"
  shows "build_consistency_proof_inner c D m b acc = Some (ps @ [root_loop c (drop k D)])"
proof -
  have "build_tree_root c (drop k D) = Some (root_loop c (drop k D))" "D \<noteq> []" using assms(3) by (auto simp: build_tree_root_def)
  with assms show ?thesis by (subst build_consistency_proof_inner.simps) (simp add: Let_def)
qed

lemma inner_right:
  assumes "k < m" "m < length D" "k = largest_power_of_two_less_than (length D)" "k > 0"
    and "build_consistency_proof_inner c (drop k D) (m - k) False acc = Some ps"
  shows "build_consistency_proof_inner c D m b acc = Some (ps @ [root_loop c (take k D)])"
proof -
  have "take k D \<noteq> []" using assms(1,2,4) by auto
  then have "build_tree_root c (take k D) = Some (root_loop c (take k D))" "D \<noteq> []" by (auto simp: build_tree_root_def)
  with assms show ?thesis by (subst build_consistency_proof_inner.simps) (simp add: Let_def)
qed

lemma inner_all:
  assumes "D \<noteq> []"
  shows "build_consistency_proof_inner c D (length D) b acc = Some (acc @ (if b then [] else [root_loop c D]))"
  using assms by (subst build_consistency_proof_inner.simps) (simp add: Let_def build_tree_root_def)

lemma levels_single:
  assumes "length D = 2 ^ j"
  shows "levels c j D = [root_loop c D]"
proof -
  have "length (levels c j D) = 1" using length_levels_power [OF assms, of j c] by simp
  then obtain x where "levels c j D = [x]" by (metis One_nat_def length_0_conv length_Suc_conv)
  moreover have "D \<noteq> []" using assms by auto
  ultimately show ?thesis using root_levels [of D c j] by simp
qed

lemma power_le_imp: "q > 0 \<Longrightarrow> q * 2 ^ l \<le> (2 :: nat) ^ i \<Longrightarrow> l \<le> i"
proof (rule ccontr)
  assume "q > 0" "q * 2 ^ l \<le> (2 :: nat) ^ i" "\<not> l \<le> i"
  moreover from this have "(2 :: nat) ^ i < 2 ^ l" by simp
  ultimately show False by (metis leD le_trans less_eq_Suc_le mult_le_mono1 mult_1 One_nat_def)
qed

lemma odd_bound: "odd q \<Longrightarrow> l \<le> i \<Longrightarrow> q * 2 ^ l \<le> (2 :: nat) ^ i \<Longrightarrow> q - 1 < 2 ^ (i - l)"
proof -
  assume a: "odd q" "l \<le> i" "q * 2 ^ l \<le> (2 :: nat) ^ i"
  have "(2 :: nat) ^ i = 2 ^ (i - l) * 2 ^ l" using a(2) by (simp flip: power_add)
  with a(3) have "q \<le> 2 ^ (i - l)" by simp
  with odd_pos [OF a(1)] show ?thesis by linarith
qed

lemma right_split:
  assumes "odd q" "2 ^ i < q * 2 ^ l" "q * 2 ^ l < 2 * (2 :: nat) ^ i"
  shows "l \<le> i \<and> 2 ^ (i - l) < q \<and> odd (q - 2 ^ (i - l)) \<and> (q - 2 ^ (i - l)) * 2 ^ l = q * 2 ^ l - 2 ^ i
    \<and> q - 2 ^ (i - l) \<le> 2 ^ (i - l) \<and> q \<noteq> 1"
proof -
  have q: "q > 0" using assms(1) by (rule odd_pos)
  have "l \<le> i"
  proof (rule ccontr)
    assume "\<not> l \<le> i"
    then have "(2 :: nat) * 2 ^ i \<le> 2 ^ l" using power_increasing [of "Suc i" l "2 :: nat"] by simp
    also have "\<dots> \<le> q * 2 ^ l" using q by simp
    finally show False using assms(3) by simp
  qed
  then have i: "(2 :: nat) ^ i = 2 ^ (i - l) * 2 ^ l" by (simp flip: power_add)
  have r: "2 ^ (i - l) < q" "q < 2 * 2 ^ (i - l)"
    using assms(2,3) unfolding i by (simp, metis mult.assoc mult_less_cancel2)
  have "l \<noteq> i" using r assms(1) by (auto simp: less_Suc_eq)
  then have "even ((2 :: nat) ^ (i - l))" using \<open>l \<le> i\<close> by simp
  with r assms(1) \<open>l \<le> i\<close> i show ?thesis by (auto simp: diff_mult_distrib)
qed

lemma level_path_short: "length B \<le> 1 \<Longrightarrow> level_path c f B = []"
  by (subst level_path.simps) simp

lemma level_path_left_half:
  assumes "length X = 2 ^ i" "length Y = 2 ^ i" "l \<le> i" "f < 2 ^ (i - l)"
  shows "level_path c f (levels c l (X @ Y)) = level_path c f (levels c l X) @ [root_loop c Y]"
    and "levels c l (X @ Y) ! f = levels c l X ! f"
proof -
  note len = length_levels_power [OF assms(1,3), of c] length_levels_power [OF assms(2,3), of c]
  have "Y \<noteq> []" using assms(2) by auto
  from root_levels [OF this, of c l] level_path_append [OF len assms(4), of c]
  show "level_path c f (levels c l (X @ Y)) = level_path c f (levels c l X) @ [root_loop c Y]"
    unfolding levels_append [OF assms(1,3)] by (simp only:)
  show "levels c l (X @ Y) ! f = levels c l X ! f"
    unfolding levels_append [OF assms(1,3)] by (rule nth_append_left) (simp only: len(1) assms(4))
qed

lemma level_path_right_half:
  assumes "length X = 2 ^ i" "length Y = 2 ^ i" "l \<le> i" "f < 2 ^ (i - l)"
  shows "level_path c (f + 2 ^ (i - l)) (levels c l (X @ Y)) = level_path c f (levels c l Y) @ [root_loop c X]"
    and "levels c l (X @ Y) ! (f + 2 ^ (i - l)) = levels c l Y ! f"
proof -
  note len = length_levels_power [OF assms(1,3), of c] length_levels_power [OF assms(2,3), of c]
  have "X \<noteq> []" using assms(1) by auto
  from root_levels [OF this, of c l] level_path_append [OF len assms(4), of c]
  show "level_path c (f + 2 ^ (i - l)) (levels c l (X @ Y)) = level_path c f (levels c l Y) @ [root_loop c X]"
    unfolding levels_append [OF assms(1,3)] by (simp only:)
  show "levels c l (X @ Y) ! (f + 2 ^ (i - l)) = levels c l Y ! f"
    unfolding levels_append [OF assms(1,3)] using nth_append_length_plus [of "levels c l X" "levels c l Y" f] len(1)
    by (simp only: add.commute)
qed

text \<open>On a complete tree the prover outputs the start node, unless the client knows it, and the path.\<close>

lemma inner_levels:
  "length D = 2 ^ j \<Longrightarrow> odd q \<Longrightarrow> q * 2 ^ l \<le> 2 ^ j \<Longrightarrow>
    build_consistency_proof_inner c D (q * 2 ^ l) b acc = Some (acc
      @ (if b \<and> q = 1 then [] else [levels c l D ! (q - 1)]) @ level_path c (q - 1) (levels c l D))"
proof (induction j arbitrary: D q b acc)
  case 0
  have "0 < q * 2 ^ l" using 0(2) by (simp add: odd_pos)
  with 0(1,3) have ql: "q * 2 ^ l = length D" unfolding power_0 by linarith
  with 0(1) have "q * 2 ^ l = 2 ^ 0" by simp
  with odd_times_power_eq [OF 0(2)] have "q = 1" "l = 0" by blast+
  moreover obtain x where "D = [x]" using 0(1) by (metis One_nat_def length_0_conv length_Suc_conv power_0)
  ultimately show ?case using inner_all [of D c b acc] by (simp add: level_path_short)
next
  case (Suc i)
  define k :: nat where "k = 2 ^ i"
  define X Y where "X = take k D" and "Y = drop k D"
  have k: "length D = 2 * k" "k = largest_power_of_two_less_than (length D)" "k > 0" "k < length D"
    using Suc.prems(1) largest_power_power [of i] by (simp_all add: k_def)
  have XY: "length X = 2 ^ i" "length Y = 2 ^ i" and D: "D = X @ Y"
    using k by (simp_all add: X_def Y_def flip: k_def)
  have m: "0 < q * 2 ^ l" using Suc.prems(2) by (simp add: odd_pos)
  consider (all) "q * 2 ^ l = 2 ^ Suc i" | (left) "q * 2 ^ l \<le> k" | (right) "k < q * 2 ^ l" "q * 2 ^ l < length D"
    using Suc.prems(1,3) by linarith
  then show ?case
  proof cases
    case all
    from odd_times_power_eq [OF Suc.prems(2) all] have "q = 1" "l = Suc i" by auto
    moreover have "D \<noteq> []" using k by auto
    ultimately show ?thesis using inner_all [of D c b acc] levels_single [OF Suc.prems(1), of c] Suc.prems(1)
      by (simp add: level_path_short del: funpow.simps)
  next
    case left
    have l: "l \<le> i" using power_le_imp [OF odd_pos [OF Suc.prems(2)] left [unfolded k_def]] .
    note half = level_path_left_half [OF XY l odd_bound [OF Suc.prems(2) l left [unfolded k_def]], of c, folded D]
    note IH = Suc.IH [OF XY(1) Suc.prems(2) left [unfolded k_def], of b acc]
    show ?thesis using inner_left [OF m left k(4,2) IH [unfolded X_def]] unfolding half by (simp add: X_def Y_def)
  next
    case right
    define p where "p = q - 2 ^ (i - l)"
    have facts: "l \<le> i" "odd p" "p * 2 ^ l = q * 2 ^ l - k" "p \<le> 2 ^ (i - l)" "q \<noteq> 1" "2 ^ (i - l) < q"
      using right_split [OF Suc.prems(2) right(1) [unfolded k_def] right(2) [unfolded k(1) k_def]]
      unfolding p_def k_def by blast+
    have p: "p - 1 < 2 ^ (i - l)" "q - 1 = (p - 1) + 2 ^ (i - l)"
      using facts(4,6) odd_pos [OF facts(2)] unfolding p_def by linarith+
    note half = level_path_right_half [OF XY facts(1) p(1), of c, folded D p(2)]
    have "p * 2 ^ l \<le> 2 ^ i" using facts(3) right(2) k(1) unfolding k_def [symmetric] by linarith
    note IH = Suc.IH [OF XY(2) facts(2) this, of False acc]
    show ?thesis using inner_right [OF right k(2,3) IH [unfolded Y_def facts(3)]] facts(5)
      unfolding half by (simp add: X_def Y_def)
  qed
qed

subsection \<open>What the client sees\<close>

lemma server_head_epoch:
  "server_tree_head c sk hs ev = Some sth \<Longrightarrow> sth_epoch sth = max ev (of_nat (length hs))"
  by (auto simp: server_tree_head_def Let_def split: option.splits)

lemma heads_checked:
  assumes "ed25519_ok c" "length sk = 32" "0 < m" "m \<le> length hs" "length hs < 2 ^ 64" "ev1 \<le> ev2"
    "server_tree_head c sk (take m hs) ev1 = Some old_sth" "server_tree_head c sk hs ev2 = Some new_sth"
    "cp_old_size proof = of_nat m" "cp_new_size proof = of_nat (length hs)"
  shows "verify_consistency_proof c old_sth new_sth proof (ed25519_public c sk) =
    (if m = length hs then Ok () else and_then (evaluate_consistency_proof c m (length hs) (root_loop c (take m hs)) (cp_proof_hashes proof))
      (\<lambda>(old_root, new_root). if old_root \<noteq> root_loop c (take m hs) then Err (PolicyViolation ''key_transparency.old_root_mismatch'')
        else if new_root \<noteq> root_loop c hs then Err (PolicyViolation ''key_transparency.new_root_mismatch'') else Ok ()))"
proof -
  note h1 = server_head_verifies [OF assms(1,2,7)] and h2 = server_head_verifies [OF assms(1,2,8)]
  have sizes: "unat (of_nat m :: u64) = m" "unat (of_nat (length hs) :: u64) = length hs"
    using assms(4,5) by (simp_all add: unat_of_nat)
  then have le: "(of_nat m :: u64) \<le> of_nat (length hs)" using assms(4) by (simp add: word_le_nat_alt)
  have eq: "(of_nat m :: u64) = of_nat (length hs) \<longleftrightarrow> m = length hs" using sizes by metis
  have epoch: "sth_epoch old_sth \<le> sth_epoch new_sth"
    using server_head_epoch [OF assms(7)] server_head_epoch [OF assms(8)] assms(4,6) le by (auto simp: max_def min_def)
  have root: "sth_root_hash old_sth = root_loop c (take m hs)" "sth_root_hash new_sth = root_loop c hs"
    using h1(2) h2(2) by (auto simp: build_tree_root_def split: if_splits)
  have size: "sth_tree_size old_sth = of_nat m" "sth_tree_size new_sth = of_nat (length hs)"
    using h1(3) h2(3) assms(4) by simp_all
  have le': "\<not> (of_nat (length hs) :: u64) < of_nat m" and epoch': "\<not> sth_epoch new_sth < sth_epoch old_sth"
    using epoch le by (simp_all only: not_less)
  show ?thesis
    unfolding verify_consistency_proof_def h1(1) h2(1) root size assms(9,10) sizes eq if_not_P [OF le'] if_not_P [OF epoch'] and_then_simps
    by simp
qed

lemma evaluate_start:
  assumes "odd q" "m = q * 2 ^ l" "0 < m" "m < n" "ph \<noteq> []"
  shows "evaluate_consistency_proof c m n r ph = (if q = 1 then eval_loop c 0 ((n - 1) div 2 ^ l) r r ph
    else eval_loop c (q - 1) ((n - 1) div 2 ^ l) (ph ! 0) (ph ! 0) (drop 1 ph))"
proof -
  have "strip_ones (m - 1) (n - 1) = (q - 1, (n - 1) div 2 ^ l)" unfolding assms(2) by (rule strip_ones_power [OF assms(1)])
  moreover have "is_power_of_two m \<longleftrightarrow> q = 1" unfolding assms(2) by (rule is_power_of_two_odd_part [OF assms(1)])
  ultimately show ?thesis using assms(3-5) by (simp add: evaluate_consistency_proof_def)
qed

lemma level_bound:
  assumes "length hs = 2 ^ j" "odd q" "q * 2 ^ l < length hs"
  shows "l \<le> j" "q < 2 ^ (j - l)"
proof -
  show l: "l \<le> j" using power_le_imp [OF odd_pos [OF assms(2)], of l j] assms(1,3) by simp
  have "(2 :: nat) ^ j = 2 ^ (j - l) * 2 ^ l" using l by (simp flip: power_add)
  with assms(1,3) have "q * 2 ^ l < 2 ^ (j - l) * 2 ^ l" by simp
  then show "q < 2 ^ (j - l)" by simp
qed

lemma eval_levels:
  fixes c :: crypto
  assumes "length hs = 2 ^ j" "odd q" "q * 2 ^ l < length hs"
  defines "B \<equiv> levels c l hs"
  shows "eval_loop c (q - 1) ((length hs - 1) div 2 ^ l) (B ! (q - 1)) (B ! (q - 1)) (level_path c (q - 1) B)
      = Ok (root_loop c (take (q * 2 ^ l) hs), root_loop c hs)"
    and "q = 1 \<Longrightarrow> root_loop c (take (q * 2 ^ l) hs) = B ! 0" and "level_path c (q - 1) B \<noteq> []"
proof -
  note l = level_bound [OF assms(1-3)]
  define A where "A = take q B"
  have A: "A = levels c l (take (q * 2 ^ l) hs)" unfolding A_def B_def by (rule levels_take [symmetric])
  have B: "length B = 2 ^ (j - l)" unfolding B_def by (rule length_levels_power [OF assms(1) l(1)])
  have q: "q > 0" using assms(2) by (rule odd_pos)
  have len: "length A = (q - 1) + 1" using B l(2) q by (simp add: A_def)
  have pre: "take (q - 1) A = take (q - 1) B" "A ! (q - 1) = B ! (q - 1)" using q by (simp_all add: A_def)
  have ne: "take (q * 2 ^ l) hs \<noteq> []" "hs \<noteq> []" using assms(3) q by auto
  have r: "root_loop c A = root_loop c (take (q * 2 ^ l) hs)" "root_loop c B = root_loop c hs"
    unfolding A B_def by (rule root_levels [OF ne(1)], rule root_levels [OF ne(2)])
  have sn: "length B - 1 = (length hs - 1) div 2 ^ l"
    using length_levels [OF ne(2), where c = c and l = l] by (simp add: B_def)
  have lt: "q - 1 < length B" using B l(2) by simp
  show "eval_loop c (q - 1) ((length hs - 1) div 2 ^ l) (B ! (q - 1)) (B ! (q - 1)) (level_path c (q - 1) B)
      = Ok (root_loop c (take (q * 2 ^ l) hs), root_loop c hs)"
    using eval_level_path [OF len lt pre(1), of c] unfolding r sn pre(2) .
  have "length B > 1" using B l(2) q by linarith
  then show "level_path c (q - 1) B \<noteq> []" using level_path_next [of B c "q - 1"] B l(2) q by (auto simp: Suc_le_eq)
  assume 1: "q = 1"
  then have "length A = 1" using len by simp
  then have "A = [A ! 0]" by (metis One_nat_def Suc_length_conv length_0_conv nth_Cons_0)
  then have "root_loop c A = A ! 0" by (metis root_loop_single)
  then show "root_loop c (take (q * 2 ^ l) hs) = B ! 0" using r(1) pre(2) 1 by simp
qed

lemma evaluate_power:
  assumes "length hs = 2 ^ j" "0 < m" "m < length hs"
  shows "\<exists>ph. build_consistency_proof_inner c hs m True [] = Some ph
    \<and> evaluate_consistency_proof c m (length hs) (root_loop c (take m hs)) ph = Ok (root_loop c (take m hs), root_loop c hs)"
proof -
  obtain q l where ql: "odd q" "m = q * 2 ^ l" using odd_part [OF assms(2)] by blast
  note lv = eval_levels [OF assms(1) ql(1) assms(3) [unfolded ql(2)], of c, folded ql(2)]
  have "m \<le> 2 ^ j" using assms(1,3) by simp
  note inner = inner_levels [OF assms(1) ql(1) this [unfolded ql(2)], of c True "[]", folded ql(2)]
  show ?thesis
  proof (cases "q = 1")
    case True
    with inner lv evaluate_start [OF ql assms(2,3) lv(3), of c "root_loop c (take m hs)"] show ?thesis by simp
  next
    case False
    with inner lv evaluate_start [OF ql assms(2,3), of "levels c l hs ! (q - 1) # level_path c (q - 1) (levels c l hs)"]
    show ?thesis by simp
  qed
qed

text \<open>
  C22. Consistency proofs are complete for complete trees. If the number of leaves is a power of two, then
  for every earlier size the server builds a consistency proof and the client accepts it for the tree
  heads that the server signed at the two sizes.
\<close>

theorem consistency_complete:
  assumes "ed25519_ok c" "length sk = 32" "0 < m" "m \<le> length hs" "length hs = 2 ^ j" "j < 64" "ev1 \<le> ev2"
    and "server_tree_head c sk (take m hs) ev1 = Some old_sth" "server_tree_head c sk hs ev2 = Some new_sth"
  shows "\<exists>proof. build_consistency_proof c hs m = Some proof
    \<and> verify_consistency_proof c old_sth new_sth proof (ed25519_public c sk) = Ok ()"
proof -
  have lt: "length hs < 2 ^ 64" unfolding assms(5) using assms(6) by (intro power_strict_increasing) simp_all
  have ne: "hs \<noteq> []" using assms(3,4) by auto
  note checked = heads_checked [OF assms(1-4) lt assms(7-9)]
  show ?thesis
  proof (cases "m = length hs")
    case True
    then show ?thesis using assms(3) ne checked by (simp add: build_consistency_proof_def Let_def)
  next
    case False
    then have m: "m < length hs" using assms(4) by simp
    from evaluate_power [OF assms(5,3) m] obtain ph where ph: "build_consistency_proof_inner c hs m True [] = Some ph"
      "evaluate_consistency_proof c m (length hs) (root_loop c (take m hs)) ph = Ok (root_loop c (take m hs), root_loop c hs)"
      by blast
    then show ?thesis using False m assms(3) ne checked by (simp add: build_consistency_proof_def Let_def)
  qed
qed

theorem consistency_complete_witness:
  "\<exists>old_sth new_sth proof. server_tree_head toy_crypto (replicate 32 9) (take 1 [[1], [2]]) 1 = Some old_sth
    \<and> server_tree_head toy_crypto (replicate 32 9) [[1], [2]] 2 = Some new_sth
    \<and> build_consistency_proof toy_crypto [[1], [2]] 1 = Some proof
    \<and> verify_consistency_proof toy_crypto old_sth new_sth proof (ed25519_public toy_crypto (replicate 32 9)) = Ok ()"
proof -
  let ?hs = "[[1], [2]] :: bytes list"
  obtain s1 where s1: "server_tree_head toy_crypto (replicate 32 9) (take 1 ?hs) 1 = Some s1" using server_head_total [of "take 1 ?hs"] by fastforce
  obtain s2 where s2: "server_tree_head toy_crypto (replicate 32 9) ?hs 2 = Some s2" using server_head_total [of ?hs] by fastforce
  have side: "length (replicate 32 (9 :: u8)) = 32" "(0 :: nat) < 1" "1 \<le> length ?hs" "length ?hs = 2 ^ 1" "(1 :: nat) < 64" "(1 :: u64) \<le> 2"
    by simp_all
  from consistency_complete [OF toy_ed25519_ok side s1 s2] s1 s2 show ?thesis by blast
qed

lemma eval_loop_short: "s div 2 ^ length ph \<noteq> 0 \<Longrightarrow> eval_loop c 0 s a b ph = Err invalid_consistency_params"
proof (induction ph arbitrary: s b)
  case (Cons h ph)
  have "s div 2 div 2 ^ length ph \<noteq> 0" using Cons.prems by (simp add: div_mult2_eq)
  moreover have "s \<noteq> 0" using Cons.prems by (metis div_0)
  ultimately show ?case using Cons.IH by simp
qed simp

lemma length_level_path_0: "length B = 2 ^ k \<Longrightarrow> length (level_path c 0 B) = k"
proof (induction k arbitrary: B)
  case 0
  then show ?case by (simp add: level_path_short)
next
  case (Suc k)
  have len: "length (next_level c B) = 2 ^ k" "length B = 2 * 2 ^ k" using Suc.prems by simp_all
  show ?case using Suc.IH [OF len(1)] level_path_even_length [OF len(2), of 0 c] by simp
qed

lemma not_power_bound:
  assumes "1 < n" "\<not> is_power_of_two n"
  shows "2 ^ Suc (bit_len n - 2) \<le> n - 1"
proof -
  have b: "2 ^ (bit_len n - 1) \<le> n" "n < 2 ^ bit_len n" using bit_len_bounds [of n] assms(1) by simp_all
  have "is_power_of_two (2 ^ (bit_len n - 1))" using is_power_of_two_odd_part [of 1 "bit_len n - 1"] by simp
  with assms(2) have "2 ^ (bit_len n - 1) \<noteq> n" by metis
  with b(1) have "2 ^ (bit_len n - 1) \<le> n - 1" by linarith
  moreover have "2 \<le> bit_len n"
  proof (rule ccontr)
    assume "\<not> 2 \<le> bit_len n"
    then have "(2 :: nat) ^ bit_len n \<le> 2 ^ 1" by (intro power_increasing) simp_all
    with b(2) assms(1) show False by simp
  qed
  ultimately show ?thesis by (simp only: Suc_diff_le [symmetric]) (simp add: numeral_2_eq_2 Suc_diff_Suc)
qed

text \<open>
  C20. The server's consistency proofs are rejected for every other size. If the number of leaves is
  not a power of two, the proof that the server builds from the first tree head, over one leaf, is
  refused by the client, although the log only grew and both heads are genuine: the prover splits
  the tree at half of the largest power of two below its size.
\<close>

theorem honest_consistency_rejected:
  assumes "ed25519_ok c" "length sk = 32" "1 < length hs" "length hs < 2 ^ 64" "\<not> is_power_of_two (length hs)" "ev1 \<le> ev2"
    and "server_tree_head c sk (take 1 hs) ev1 = Some old_sth" "server_tree_head c sk hs ev2 = Some new_sth"
  shows "\<exists>proof. build_consistency_proof c hs 1 = Some proof
    \<and> verify_consistency_proof c old_sth new_sth proof (ed25519_public c sk) = Err invalid_consistency_params"
proof -
  let ?n = "length hs"
  have ne: "hs \<noteq> []" using assms(3) by auto
  define i where "i = bit_len ?n - 2"
  note bl = not_power_bound [OF assms(3,5)]
  then have lt: "2 ^ Suc i \<le> ?n - 1" by (simp add: i_def)
  define k where "k = largest_power_of_two_less_than ?n"
  have k: "k = 2 ^ i" "0 < k" "k < ?n" using largest_power_bounds [OF assms(3)] by (simp_all add: k_def largest_power_of_two_less_than_def i_def)
  have len: "length (take k hs) = 2 ^ i" using k by simp
  have "build_consistency_proof_inner c (take k hs) 1 True [] = Some (level_path c 0 (take k hs))"
    using inner_levels [OF len, of 1 0 c True "[]"] by simp
  with inner_left [OF _ _ k(3) k_def, where m = 1 and b = True and acc = "[]" and c = c] k(2)
  have inner: "build_consistency_proof_inner c hs 1 True [] = Some (level_path c 0 (take k hs) @ [root_loop c (drop k hs)])" (is "_ = Some ?ph")
    by simp
  have "length ?ph = Suc i" using length_level_path_0 [OF len, of c] by simp
  moreover have "(?n - 1) div 2 ^ Suc i \<noteq> 0" using lt by (simp add: div_eq_0_iff)
  ultimately have "eval_loop c 0 (?n - 1) a b ?ph = Err invalid_consistency_params" for a b
    using eval_loop_short [of "?n - 1" ?ph c a b] by simp
  moreover have "strip_ones 0 (?n - 1) = (0, ?n - 1)" "is_power_of_two 1"
    using strip_ones_power [of 1 0] is_power_of_two_odd_part [of 1 0] by simp_all
  ultimately have "evaluate_consistency_proof c 1 ?n (root_loop c (take 1 hs)) ?ph = Err invalid_consistency_params"
    using assms(3) ne by (simp add: evaluate_consistency_proof_def del: eval_loop.simps)
  then show ?thesis using inner ne
    using heads_checked [OF assms(1,2) _ _ assms(4,6-8), of "\<lparr>cp_old_size = 1, cp_new_size = of_nat ?n, cp_proof_hashes = ?ph\<rparr>"] assms(3)
    by (simp add: build_consistency_proof_def Let_def)
qed

theorem honest_consistency_rejected_witness:
  "\<exists>old_sth new_sth proof. server_tree_head toy_crypto (replicate 32 9) (take 1 [[1], [2], [3]]) 1 = Some old_sth
    \<and> server_tree_head toy_crypto (replicate 32 9) [[1], [2], [3]] 3 = Some new_sth
    \<and> build_consistency_proof toy_crypto [[1], [2], [3]] 1 = Some proof
    \<and> verify_consistency_proof toy_crypto old_sth new_sth proof (ed25519_public toy_crypto (replicate 32 9)) = Err invalid_consistency_params"
proof -
  let ?hs = "[[1], [2], [3]] :: bytes list"
  obtain s1 where s1: "server_tree_head toy_crypto (replicate 32 9) (take 1 ?hs) 1 = Some s1" using server_head_total [of "take 1 ?hs"] by fastforce
  obtain s2 where s2: "server_tree_head toy_crypto (replicate 32 9) ?hs 3 = Some s2" using server_head_total [of ?hs] by fastforce
  have side: "length (replicate 32 (9 :: u8)) = 32" "1 < length ?hs" "length ?hs < 2 ^ 64" by simp_all
  have p: "\<not> is_power_of_two (length ?hs)" using is_power_of_two_odd_part [of 3 0] by (simp add: numeral_3_eq_3 [symmetric])
  have e: "(1 :: u64) \<le> 3" by simp
  from honest_consistency_rejected [OF toy_ed25519_ok side p e s1 s2] s1 s2 show ?thesis by blast
qed

end
