(* ===== verification/Sealed.thy ===== *)
theory Sealed
  imports Wire
begin

text \<open>
  \<^verbatim>\<open>sealed.rs\<close>: sealed sender envelopes and the sender certificates of the server. The operating
  system's generator is the stream argument \<open>os\<close>. The unchecked addition on the expiry time of a
  certificate wraps around, as in a release build. \<open>server_certificate\<close> is the part of the server's
  handler \<^verbatim>\<open>issue_sender_certificate\<close> that builds and signs the certificate.
\<close>

definition SEALED_VERSION :: u16 where "SEALED_VERSION = 1"
definition SEALED_CERTIFIED_VERSION :: u16 where "SEALED_CERTIFIED_VERSION = 2"
definition INFO_SEALED_KEY :: bytes where "INFO_SEALED_KEY = str_bytes ''pqmsg-sealed-sender-key-v1''"
definition INFO_SEALED_SENDER_HINT_KEY :: bytes where
  "INFO_SEALED_SENDER_HINT_KEY = str_bytes ''pqmsg-sealed-sender-hint-key-v1''"
definition SE_AD_TAG_VERSION :: u16 where "SE_AD_TAG_VERSION = critical_type 0xA101"
definition SE_AD_TAG_SUITE_ID :: u16 where "SE_AD_TAG_SUITE_ID = critical_type 0xA102"
definition SE_AD_TAG_RECIPIENT_USER_ID :: u16 where "SE_AD_TAG_RECIPIENT_USER_ID = critical_type 0xA103"
definition SE_AD_TAG_SENDER_HINT_EPHEMERAL_PUB :: u16 where "SE_AD_TAG_SENDER_HINT_EPHEMERAL_PUB = critical_type 0xA104"
definition OUTER_TAG_VERSION :: u16 where "OUTER_TAG_VERSION = critical_type 0xA201"
definition OUTER_TAG_SUITE_ID :: u16 where "OUTER_TAG_SUITE_ID = critical_type 0xA202"
definition OUTER_TAG_RECIPIENT_USER_ID :: u16 where "OUTER_TAG_RECIPIENT_USER_ID = critical_type 0xA203"
definition OUTER_TAG_AEAD_NONCE :: u16 where "OUTER_TAG_AEAD_NONCE = critical_type 0xA204"
definition OUTER_TAG_CIPHERTEXT :: u16 where "OUTER_TAG_CIPHERTEXT = critical_type 0xA205"
definition OUTER_TAG_SENDER_HINT_EPHEMERAL_PUB :: u16 where "OUTER_TAG_SENDER_HINT_EPHEMERAL_PUB = critical_type 0xA206"
definition OUTER_TAG_SENDER_HINT_NONCE :: u16 where "OUTER_TAG_SENDER_HINT_NONCE = critical_type 0xA207"
definition OUTER_TAG_SENDER_HINT_CIPHERTEXT :: u16 where "OUTER_TAG_SENDER_HINT_CIPHERTEXT = critical_type 0xA208"
definition INNER_TAG_SENDER_USER_ID :: u16 where "INNER_TAG_SENDER_USER_ID = critical_type 0xA301"
definition INNER_TAG_SENDER_DEVICE_ID :: u16 where "INNER_TAG_SENDER_DEVICE_ID = critical_type 0xA302"
definition INNER_TAG_PAYLOAD :: u16 where "INNER_TAG_PAYLOAD = critical_type 0xA303"
definition INNER_TAG_SENDER_CERT :: u16 where "INNER_TAG_SENDER_CERT = critical_type 0xA304"
definition MAX_ID_LEN :: usize where "MAX_ID_LEN = 128"
definition SENDER_CERT_VALIDITY_SECS :: u64 where "SENDER_CERT_VALIDITY_SECS = 24 * 60 * 60"
definition SENDER_CERT_CLOCK_SKEW_SECS :: u64 where "SENDER_CERT_CLOCK_SKEW_SECS = 5 * 60"
definition CERT_TAG_SENDER_USER_ID :: u16 where "CERT_TAG_SENDER_USER_ID = critical_type 0xA401"
definition CERT_TAG_SENDER_DEVICE_ID :: u16 where "CERT_TAG_SENDER_DEVICE_ID = critical_type 0xA402"
definition CERT_TAG_SENDER_IDENTITY_PUB :: u16 where "CERT_TAG_SENDER_IDENTITY_PUB = critical_type 0xA403"
definition CERT_TAG_EXPIRES_AT :: u16 where "CERT_TAG_EXPIRES_AT = critical_type 0xA404"
definition CERT_TAG_SERVER_SIGNATURE :: u16 where "CERT_TAG_SERVER_SIGNATURE = critical_type 0xA405"

text \<open>The constants already carry the critical bit, so \<^verbatim>\<open>critical_type\<close> leaves them as they are.\<close>

lemma sealed_tags [tag_simps]:
  "SE_AD_TAG_VERSION = 0xA101" "SE_AD_TAG_SUITE_ID = 0xA102" "SE_AD_TAG_RECIPIENT_USER_ID = 0xA103"
  "SE_AD_TAG_SENDER_HINT_EPHEMERAL_PUB = 0xA104" "OUTER_TAG_VERSION = 0xA201" "OUTER_TAG_SUITE_ID = 0xA202"
  "OUTER_TAG_RECIPIENT_USER_ID = 0xA203" "OUTER_TAG_AEAD_NONCE = 0xA204" "OUTER_TAG_CIPHERTEXT = 0xA205"
  "OUTER_TAG_SENDER_HINT_EPHEMERAL_PUB = 0xA206" "OUTER_TAG_SENDER_HINT_NONCE = 0xA207"
  "OUTER_TAG_SENDER_HINT_CIPHERTEXT = 0xA208" "INNER_TAG_SENDER_USER_ID = 0xA301" "INNER_TAG_SENDER_DEVICE_ID = 0xA302"
  "INNER_TAG_PAYLOAD = 0xA303" "INNER_TAG_SENDER_CERT = 0xA304" "CERT_TAG_SENDER_USER_ID = 0xA401"
  "CERT_TAG_SENDER_DEVICE_ID = 0xA402" "CERT_TAG_SENDER_IDENTITY_PUB = 0xA403" "CERT_TAG_EXPIRES_AT = 0xA404"
  "CERT_TAG_SERVER_SIGNATURE = 0xA405"
  by (simp_all add: SE_AD_TAG_VERSION_def SE_AD_TAG_SUITE_ID_def SE_AD_TAG_RECIPIENT_USER_ID_def
      SE_AD_TAG_SENDER_HINT_EPHEMERAL_PUB_def OUTER_TAG_VERSION_def OUTER_TAG_SUITE_ID_def OUTER_TAG_RECIPIENT_USER_ID_def
      OUTER_TAG_AEAD_NONCE_def OUTER_TAG_CIPHERTEXT_def OUTER_TAG_SENDER_HINT_EPHEMERAL_PUB_def
      OUTER_TAG_SENDER_HINT_NONCE_def OUTER_TAG_SENDER_HINT_CIPHERTEXT_def INNER_TAG_SENDER_USER_ID_def
      INNER_TAG_SENDER_DEVICE_ID_def INNER_TAG_PAYLOAD_def INNER_TAG_SENDER_CERT_def CERT_TAG_SENDER_USER_ID_def
      CERT_TAG_SENDER_DEVICE_ID_def CERT_TAG_SENDER_IDENTITY_PUB_def CERT_TAG_EXPIRES_AT_def CERT_TAG_SERVER_SIGNATURE_def
      critical_type_def CRITICAL_BIT_def)

subsection \<open>Field parsers\<close>

definition sealed_parse_32 :: "bytes \<Rightarrow> string \<Rightarrow> bytes result" where
  "sealed_parse_32 value fld =
     (if length value = 32 then Ok value else Err (InvalidLength fld 32 (length value)))"

definition decode_u64 :: "bytes \<Rightarrow> u64 result" where
  "decode_u64 value =
     (if length value = 8 then Ok (u64_from_be_bytes value)
      else Err (InvalidLength ''sealed.u64'' 8 (length value)))"

definition decode_u16 :: "bytes \<Rightarrow> u16 result" where
  "decode_u16 value =
     (if length value = 2 then Ok (u16_from_be_bytes value)
      else Err (InvalidLength ''sealed.u16'' 2 (length value)))"

definition nonce_12 :: "bytes \<Rightarrow> string \<Rightarrow> bytes result" where
  "nonce_12 value fld =
     (if length value = 12 then Ok value else Err (InvalidLength fld 12 (length value)))"

definition sealed_validate_id :: "string \<Rightarrow> rstr \<Rightarrow> unit result" where
  "sealed_validate_id fld value =
     (let trimmed = trim value in
      if trimmed = [] \<or> length trimmed > MAX_ID_LEN
      then Err (InvalidLength fld MAX_ID_LEN (length trimmed)) else Ok ())"

definition decode_id :: "bytes \<Rightarrow> string \<Rightarrow> rstr result" where
  "decode_id value fld =
     and_then (from_utf8 value (InvalidUtf8 fld)) (\<lambda>text.
     and_then (sealed_validate_id fld text) (\<lambda>_. Ok text))"

subsection \<open>Sender certificates\<close>

record SenderCertificate =
  sc_sender_user_id :: rstr
  sc_sender_device_id :: rstr
  sc_sender_identity_pub :: bytes
  sc_expires_at :: u64
  sc_server_signature :: bytes

definition sc_body_records :: "SenderCertificate \<Rightarrow> TlvRecord list" where
  "sc_body_records cert =
     [tlv CERT_TAG_SENDER_USER_ID (sc_sender_user_id cert),
      tlv CERT_TAG_SENDER_DEVICE_ID (sc_sender_device_id cert),
      tlv CERT_TAG_SENDER_IDENTITY_PUB (sc_sender_identity_pub cert),
      tlv CERT_TAG_EXPIRES_AT (u64_to_be_bytes (sc_expires_at cert))]"

definition sc_records :: "SenderCertificate \<Rightarrow> TlvRecord list" where
  "sc_records cert = sc_body_records cert @ [tlv CERT_TAG_SERVER_SIGNATURE (sc_server_signature cert)]"

definition sc_encode :: "SenderCertificate \<Rightarrow> bytes result" where
  "sc_encode cert = encode (sc_records cert)"

definition sc_known_types :: "u16 list" where
  "sc_known_types = [CERT_TAG_SENDER_USER_ID, CERT_TAG_SENDER_DEVICE_ID, CERT_TAG_SENDER_IDENTITY_PUB,
     CERT_TAG_EXPIRES_AT, CERT_TAG_SERVER_SIGNATURE]"

definition sc_from_map :: "(u16 \<rightharpoonup> bytes) \<Rightarrow> SenderCertificate result" where
  "sc_from_map m =
     and_then (require_from_map m CERT_TAG_SENDER_USER_ID ''cert.sender_user_id'') (\<lambda>v.
     and_then (decode_id v ''cert.sender_user_id'') (\<lambda>user.
     and_then (require_from_map m CERT_TAG_SENDER_DEVICE_ID ''cert.sender_device_id'') (\<lambda>v.
     and_then (decode_id v ''cert.sender_device_id'') (\<lambda>device.
     and_then (require_from_map m CERT_TAG_SENDER_IDENTITY_PUB ''cert.sender_identity_pub'') (\<lambda>v.
     and_then (sealed_parse_32 v ''cert.sender_identity_pub'') (\<lambda>identity_pub.
     and_then (require_from_map m CERT_TAG_EXPIRES_AT ''cert.expires_at'') (\<lambda>v.
     and_then (decode_u64 v) (\<lambda>expires_at.
     and_then (require_from_map m CERT_TAG_SERVER_SIGNATURE ''cert.server_signature'') (\<lambda>signature.
     Ok \<lparr>sc_sender_user_id = user, sc_sender_device_id = device, sc_sender_identity_pub = identity_pub,
         sc_expires_at = expires_at, sc_server_signature = signature\<rparr>)))))))))"

definition sc_decode :: "bytes \<Rightarrow> SenderCertificate result" where
  "sc_decode input =
     and_then (decode_strict input sc_known_types) (\<lambda>records. sc_from_map (build_record_map records))"

definition sc_signing_body :: "SenderCertificate \<Rightarrow> bytes result" where
  "sc_signing_body cert = encode (sc_body_records cert)"

definition validate_sender_certificate :: "crypto \<Rightarrow> SenderCertificate \<Rightarrow> bytes \<Rightarrow> u64 \<Rightarrow> unit result" where
  "validate_sender_certificate c cert server_pub_key now_unix_secs =
     (if now_unix_secs > sc_expires_at cert + SENDER_CERT_CLOCK_SKEW_SECS
      then Err (PolicyViolation ''sender_cert.expired'')
      else and_then (sc_signing_body cert) (\<lambda>body.
        if \<not> ed25519_sig_ok c (sc_server_signature cert) then Err SignatureVerificationFailed
        else if \<not> ed25519_verify c server_pub_key body (sc_server_signature cert)
        then Err SignatureVerificationFailed else Ok ()))"

definition server_certificate ::
  "crypto \<Rightarrow> bytes \<Rightarrow> rstr \<Rightarrow> rstr \<Rightarrow> bytes \<Rightarrow> u64 \<Rightarrow> SenderCertificate result" where
  "server_certificate c signing_key user_id device_id sender_identity_pub now =
     (let certificate = \<lparr>sc_sender_user_id = user_id, sc_sender_device_id = device_id,
            sc_sender_identity_pub = sender_identity_pub, sc_expires_at = now + SENDER_CERT_VALIDITY_SECS,
            sc_server_signature = []\<rparr>
      in and_then (sc_signing_body certificate) (\<lambda>body.
         Ok (certificate\<lparr>sc_server_signature := ed25519_sign c signing_key body\<rparr>)))"

subsection \<open>Envelopes\<close>

record SealedEnvelope =
  se_version :: u16
  se_suite_id :: u16
  se_recipient_user_id :: rstr
  se_aead_nonce :: bytes
  se_ciphertext :: bytes
  se_sender_hint_ephemeral_pub :: "bytes option"
  se_sender_hint_nonce :: "bytes option"
  se_sender_hint_ciphertext :: "bytes option"

record OpenedSealedMessage =
  os_sender_user_id :: rstr
  os_sender_device_id :: rstr
  os_payload :: bytes

record OpenedCertifiedSealedMessage =
  oc_sender_user_id :: rstr
  oc_sender_device_id :: rstr
  oc_payload :: bytes
  oc_sender_cert :: "SenderCertificate option"

definition se_records :: "SealedEnvelope \<Rightarrow> TlvRecord list" where
  "se_records e =
     [tlv OUTER_TAG_VERSION (u16_to_be_bytes (se_version e)),
      tlv OUTER_TAG_SUITE_ID (u16_to_be_bytes (se_suite_id e)),
      tlv OUTER_TAG_RECIPIENT_USER_ID (se_recipient_user_id e),
      tlv OUTER_TAG_AEAD_NONCE (se_aead_nonce e),
      tlv OUTER_TAG_CIPHERTEXT (se_ciphertext e)]
     @ push_opt OUTER_TAG_SENDER_HINT_EPHEMERAL_PUB (se_sender_hint_ephemeral_pub e)
     @ push_opt OUTER_TAG_SENDER_HINT_NONCE (se_sender_hint_nonce e)
     @ push_opt OUTER_TAG_SENDER_HINT_CIPHERTEXT (se_sender_hint_ciphertext e)"

definition se_encode :: "SealedEnvelope \<Rightarrow> bytes result" where
  "se_encode e = encode (se_records e)"

definition se_known_types :: "u16 list" where
  "se_known_types = [OUTER_TAG_VERSION, OUTER_TAG_SUITE_ID, OUTER_TAG_RECIPIENT_USER_ID, OUTER_TAG_AEAD_NONCE,
     OUTER_TAG_CIPHERTEXT, OUTER_TAG_SENDER_HINT_EPHEMERAL_PUB, OUTER_TAG_SENDER_HINT_NONCE,
     OUTER_TAG_SENDER_HINT_CIPHERTEXT]"

definition se_from_map :: "(u16 \<rightharpoonup> bytes) \<Rightarrow> SealedEnvelope result" where
  "se_from_map m =
     and_then (require_from_map m OUTER_TAG_VERSION ''sealed.version'') (\<lambda>v.
     and_then (decode_u16 v) (\<lambda>version.
     and_then (require_from_map m OUTER_TAG_SUITE_ID ''sealed.suite_id'') (\<lambda>v.
     and_then (decode_u16 v) (\<lambda>sid.
     and_then (require_from_map m OUTER_TAG_RECIPIENT_USER_ID ''sealed.recipient_user_id'') (\<lambda>v.
     and_then (decode_id v ''sealed.recipient_user_id'') (\<lambda>recipient.
     and_then (require_from_map m OUTER_TAG_AEAD_NONCE ''sealed.aead_nonce'') (\<lambda>v.
     and_then (nonce_12 v ''sealed.aead_nonce'') (\<lambda>nonce.
     and_then (require_from_map m OUTER_TAG_CIPHERTEXT ''sealed.ciphertext'') (\<lambda>ciphertext.
     if ciphertext = [] then Err (InvalidLength ''sealed.ciphertext'' 1 0) else
     and_then (transpose_opt (map_option (\<lambda>v. sealed_parse_32 v ''sealed.sender_hint_ephemeral_pub'')
        (m OUTER_TAG_SENDER_HINT_EPHEMERAL_PUB))) (\<lambda>ephemeral_pub.
     and_then (transpose_opt (map_option (\<lambda>v. nonce_12 v ''sealed.sender_hint_nonce'')
        (m OUTER_TAG_SENDER_HINT_NONCE))) (\<lambda>hint_nonce.
     Ok \<lparr>se_version = version, se_suite_id = sid, se_recipient_user_id = recipient, se_aead_nonce = nonce,
         se_ciphertext = ciphertext, se_sender_hint_ephemeral_pub = ephemeral_pub,
         se_sender_hint_nonce = hint_nonce,
         se_sender_hint_ciphertext = m OUTER_TAG_SENDER_HINT_CIPHERTEXT\<rparr>)))))))))))"

definition se_decode :: "bytes \<Rightarrow> SealedEnvelope result" where
  "se_decode input =
     and_then (decode_strict input se_known_types) (\<lambda>records. se_from_map (build_record_map records))"

subsection \<open>Keys and associated data\<close>

definition derive_sealed_sender_key :: "crypto \<Rightarrow> bytes \<Rightarrow> u16 \<Rightarrow> bytes result" where
  "derive_sealed_sender_key c shared_secret sid =
     hkdf_sha256_32 c shared_secret None (INFO_SEALED_KEY @ u16_to_be_bytes sid)"

definition derive_pairwise_sealed_sender_key :: "crypto \<Rightarrow> bytes \<Rightarrow> bytes \<Rightarrow> u16 \<Rightarrow> bytes result" where
  "derive_pairwise_sealed_sender_key c local_secret remote_public sid =
     derive_sealed_sender_key c (diffie_hellman c local_secret remote_public) sid"

definition derive_sealed_sender_hint_key :: "crypto \<Rightarrow> bytes \<Rightarrow> u16 \<Rightarrow> bytes result" where
  "derive_sealed_sender_hint_key c shared_secret sid =
     hkdf_sha256_32 c shared_secret None (INFO_SEALED_SENDER_HINT_KEY @ u16_to_be_bytes sid)"

definition sealed_ad_records :: "u16 \<Rightarrow> u16 \<Rightarrow> rstr \<Rightarrow> TlvRecord list" where
  "sealed_ad_records version sid recipient_user_id =
     [tlv SE_AD_TAG_VERSION (u16_to_be_bytes version),
      tlv SE_AD_TAG_SUITE_ID (u16_to_be_bytes sid),
      tlv SE_AD_TAG_RECIPIENT_USER_ID recipient_user_id]"

definition sealed_associated_data :: "u16 \<Rightarrow> u16 \<Rightarrow> rstr \<Rightarrow> bytes result" where
  "sealed_associated_data version sid recipient_user_id = encode (sealed_ad_records version sid recipient_user_id)"

definition sender_hint_associated_data :: "u16 \<Rightarrow> u16 \<Rightarrow> rstr \<Rightarrow> bytes \<Rightarrow> bytes result" where
  "sender_hint_associated_data version sid recipient_user_id ephemeral_pub =
     encode (sealed_ad_records version sid recipient_user_id
       @ [tlv SE_AD_TAG_SENDER_HINT_EPHEMERAL_PUB ephemeral_pub])"

subsection \<open>Sealing and opening\<close>

definition inner_records :: "rstr \<Rightarrow> rstr \<Rightarrow> bytes \<Rightarrow> TlvRecord list" where
  "inner_records sender_user_id sender_device_id payload =
     [tlv INNER_TAG_SENDER_USER_ID sender_user_id,
      tlv INNER_TAG_SENDER_DEVICE_ID sender_device_id,
      tlv INNER_TAG_PAYLOAD payload]"

definition check_seal_arguments :: "rstr \<Rightarrow> rstr \<Rightarrow> rstr \<Rightarrow> bytes \<Rightarrow> unit result" where
  "check_seal_arguments recipient_user_id sender_user_id sender_device_id payload =
     (if payload = [] then Err (InvalidLength ''sealed.payload'' 1 0) else
      and_then (sealed_validate_id ''sealed.recipient_user_id'' recipient_user_id) (\<lambda>_.
      and_then (sealed_validate_id ''sealed.sender_user_id'' sender_user_id) (\<lambda>_.
      sealed_validate_id ''sealed.sender_device_id'' sender_device_id)))"

definition seal_message ::
  "crypto \<Rightarrow> bytes \<Rightarrow> u16 \<Rightarrow> rstr \<Rightarrow> rstr \<Rightarrow> rstr \<Rightarrow> bytes \<Rightarrow> rng \<Rightarrow> bytes result \<times> rng" where
  "seal_message c key sid recipient_user_id sender_user_id sender_device_id payload os =
     (case and_then (check_seal_arguments recipient_user_id sender_user_id sender_device_id payload) (\<lambda>_.
           and_then (sealed_associated_data SEALED_VERSION sid recipient_user_id) (\<lambda>ad.
           and_then (encode (inner_records sender_user_id sender_device_id payload)) (\<lambda>inner. Ok (ad, inner)))) of
        Inl e \<Rightarrow> (Err e, os)
      | Inr (ad, inner) \<Rightarrow>
     (case encrypt_with_rng c key inner ad os of
        (Inl e, os) \<Rightarrow> (Err e, os)
      | (Inr envelope, os) \<Rightarrow>
          (se_encode \<lparr>se_version = SEALED_VERSION, se_suite_id = sid, se_recipient_user_id = recipient_user_id,
             se_aead_nonce = env_nonce envelope, se_ciphertext = env_ciphertext envelope,
             se_sender_hint_ephemeral_pub = None, se_sender_hint_nonce = None,
             se_sender_hint_ciphertext = None\<rparr>, os)))"

definition inner_fields :: "(u16 \<rightharpoonup> bytes) \<Rightarrow> (rstr \<times> rstr \<times> bytes) result" where
  "inner_fields m =
     and_then (require_from_map m INNER_TAG_SENDER_USER_ID ''sealed.sender_user_id'') (\<lambda>v.
     and_then (decode_id v ''sealed.sender_user_id'') (\<lambda>sender_user_id.
     and_then (require_from_map m INNER_TAG_SENDER_DEVICE_ID ''sealed.sender_device_id'') (\<lambda>v.
     and_then (decode_id v ''sealed.sender_device_id'') (\<lambda>sender_device_id.
     and_then (require_from_map m INNER_TAG_PAYLOAD ''sealed.payload'') (\<lambda>payload.
     if payload = [] then Err (InvalidLength ''sealed.payload'' 1 0)
     else Ok (sender_user_id, sender_device_id, payload))))))"

definition open_envelope :: "crypto \<Rightarrow> bytes \<Rightarrow> SealedEnvelope \<Rightarrow> bytes result" where
  "open_envelope c key e =
     and_then (sealed_associated_data (se_version e) (se_suite_id e) (se_recipient_user_id e)) (\<lambda>ad.
     aead_decrypt c key \<lparr>env_nonce = se_aead_nonce e, env_ciphertext = se_ciphertext e, env_aad = ad\<rparr>)"

definition open_message :: "crypto \<Rightarrow> bytes \<Rightarrow> bytes \<Rightarrow> u16 \<Rightarrow> rstr \<Rightarrow> OpenedSealedMessage result" where
  "open_message c key envelope_bytes expected_suite_id expected_recipient_user_id =
     and_then (sealed_validate_id ''sealed.expected_recipient_user_id'' expected_recipient_user_id) (\<lambda>_.
     and_then (se_decode envelope_bytes) (\<lambda>e.
     if se_version e \<noteq> SEALED_VERSION then Err (UnsupportedAlgorithm ''sealed.version'')
     else if se_suite_id e \<noteq> expected_suite_id then Err (UnsupportedAlgorithm ''sealed.suite_id'')
     else if se_recipient_user_id e \<noteq> expected_recipient_user_id
     then Err (PolicyViolation ''sealed.recipient_mismatch'')
     else
     and_then (open_envelope c key e) (\<lambda>inner.
     and_then (decode_strict inner [INNER_TAG_SENDER_USER_ID, INNER_TAG_SENDER_DEVICE_ID, INNER_TAG_PAYLOAD]) (\<lambda>records.
     and_then (inner_fields (build_record_map records)) (\<lambda>(sender_user_id, sender_device_id, payload).
     Ok \<lparr>os_sender_user_id = sender_user_id, os_sender_device_id = sender_device_id, os_payload = payload\<rparr>)))))"

definition seal_certified ::
  "crypto \<Rightarrow> bytes \<Rightarrow> bytes \<Rightarrow> u16 \<Rightarrow> rstr \<Rightarrow> bytes \<Rightarrow> bytes \<Rightarrow> bytes \<Rightarrow> rng \<Rightarrow> bytes result \<times> rng" where
  "seal_certified c pairwise_key recipient_identity_pub sid recipient_user_id ad inner sender_identity_pub os =
     (case encrypt_with_rng c pairwise_key inner ad os of
        (Inl e, os) \<Rightarrow> (Err e, os)
      | (Inr envelope, os) \<Rightarrow>
     (case generate_keypair c os of (hint_keypair, os) \<Rightarrow>
     (case and_then (derive_sealed_sender_hint_key c
              (diffie_hellman c (dh_secret hint_keypair) recipient_identity_pub) sid) (\<lambda>hint_key.
           and_then (sender_hint_associated_data SEALED_CERTIFIED_VERSION sid recipient_user_id
              (dh_public hint_keypair)) (\<lambda>hint_ad. Ok (hint_key, hint_ad))) of
        Inl e \<Rightarrow> (Err e, os)
      | Inr (hint_key, hint_ad) \<Rightarrow>
     (case encrypt_with_rng c hint_key sender_identity_pub hint_ad os of
        (Inl e, os) \<Rightarrow> (Err e, os)
      | (Inr hint, os) \<Rightarrow>
          (se_encode \<lparr>se_version = SEALED_CERTIFIED_VERSION, se_suite_id = sid,
             se_recipient_user_id = recipient_user_id, se_aead_nonce = env_nonce envelope,
             se_ciphertext = env_ciphertext envelope,
             se_sender_hint_ephemeral_pub = Some (dh_public hint_keypair),
             se_sender_hint_nonce = Some (env_nonce hint),
             se_sender_hint_ciphertext = Some (env_ciphertext hint)\<rparr>, os)))))"

definition seal_message_with_cert ::
  "crypto \<Rightarrow> bytes \<Rightarrow> bytes \<Rightarrow> u16 \<Rightarrow> rstr \<Rightarrow> rstr \<Rightarrow> rstr \<Rightarrow> bytes \<Rightarrow> SenderCertificate \<Rightarrow> rng
     \<Rightarrow> bytes result \<times> rng" where
  "seal_message_with_cert c sender_local_secret recipient_identity_pub sid recipient_user_id sender_user_id
      sender_device_id payload sender_cert os =
     (case and_then (check_seal_arguments recipient_user_id sender_user_id sender_device_id payload) (\<lambda>_.
           and_then (sc_encode sender_cert) (\<lambda>cert_bytes.
           and_then (derive_pairwise_sealed_sender_key c sender_local_secret recipient_identity_pub sid) (\<lambda>pairwise_key.
           and_then (sealed_associated_data SEALED_CERTIFIED_VERSION sid recipient_user_id) (\<lambda>ad.
           and_then (encode (inner_records sender_user_id sender_device_id payload
              @ [tlv INNER_TAG_SENDER_CERT cert_bytes])) (\<lambda>inner. Ok (pairwise_key, ad, inner)))))) of
        Inl e \<Rightarrow> (Err e, os)
      | Inr (pairwise_key, ad, inner) \<Rightarrow>
          seal_certified c pairwise_key recipient_identity_pub sid recipient_user_id ad inner
            (sc_sender_identity_pub sender_cert) os)"

definition check_certificate ::
  "crypto \<Rightarrow> bytes \<Rightarrow> bytes option \<Rightarrow> u64 \<Rightarrow> rstr \<Rightarrow> rstr \<Rightarrow> bytes option \<Rightarrow> SenderCertificate result" where
  "check_certificate c cert_bytes server_pub_key now_unix_secs sender_user_id sender_device_id expected_identity_pub =
     and_then (sc_decode cert_bytes) (\<lambda>cert.
     and_then (case server_pub_key of
         Some server_key \<Rightarrow> validate_sender_certificate c cert server_key now_unix_secs
       | None \<Rightarrow> Ok ()) (\<lambda>_.
     if sc_sender_user_id cert \<noteq> sender_user_id then Err (PolicyViolation ''sender_cert.user_id_mismatch'')
     else if sc_sender_device_id cert \<noteq> sender_device_id then Err (PolicyViolation ''sender_cert.device_id_mismatch'')
     else case expected_identity_pub of
         Some pub \<Rightarrow> if sc_sender_identity_pub cert \<noteq> pub
           then Err (PolicyViolation ''sender_cert.identity_pub_mismatch'') else Ok cert
       | None \<Rightarrow> Ok cert))"

definition open_message_with_cert_inner ::
  "crypto \<Rightarrow> bytes \<Rightarrow> SealedEnvelope \<Rightarrow> bytes option \<Rightarrow> u64 \<Rightarrow> bytes option \<Rightarrow> OpenedCertifiedSealedMessage result" where
  "open_message_with_cert_inner c pairwise_key e server_pub_key now_unix_secs expected_identity_pub =
     and_then (open_envelope c pairwise_key e) (\<lambda>inner.
     and_then (decode_strict inner [INNER_TAG_SENDER_USER_ID, INNER_TAG_SENDER_DEVICE_ID, INNER_TAG_PAYLOAD,
        INNER_TAG_SENDER_CERT]) (\<lambda>records.
     let m = build_record_map records in
     and_then (inner_fields m) (\<lambda>(sender_user_id, sender_device_id, payload).
     and_then (case m INNER_TAG_SENDER_CERT of
         Some cert_bytes \<Rightarrow> and_then (check_certificate c cert_bytes server_pub_key now_unix_secs
           sender_user_id sender_device_id expected_identity_pub) (\<lambda>cert. Ok (Some cert))
       | None \<Rightarrow> Ok None) (\<lambda>sender_cert.
     Ok \<lparr>oc_sender_user_id = sender_user_id, oc_sender_device_id = sender_device_id, oc_payload = payload,
         oc_sender_cert = sender_cert\<rparr>))))"

definition open_sender_hint :: "crypto \<Rightarrow> bytes \<Rightarrow> SealedEnvelope \<Rightarrow> bytes result" where
  "open_sender_hint c recipient_local_secret e =
     and_then (ok_or (se_sender_hint_ephemeral_pub e) (PolicyViolation ''sealed.sender_hint_ephemeral_missing'')) (\<lambda>ephemeral_pub.
     and_then (ok_or (se_sender_hint_nonce e) (PolicyViolation ''sealed.sender_hint_nonce_missing'')) (\<lambda>nonce.
     and_then (ok_or (se_sender_hint_ciphertext e) (PolicyViolation ''sealed.sender_hint_ciphertext_missing'')) (\<lambda>ciphertext.
     and_then (derive_sealed_sender_hint_key c (diffie_hellman c recipient_local_secret ephemeral_pub)
        (se_suite_id e)) (\<lambda>hint_key.
     and_then (sender_hint_associated_data (se_version e) (se_suite_id e) (se_recipient_user_id e) ephemeral_pub) (\<lambda>hint_ad.
     and_then (aead_decrypt c hint_key \<lparr>env_nonce = nonce, env_ciphertext = ciphertext, env_aad = hint_ad\<rparr>) (\<lambda>identity_bytes.
     sealed_parse_32 identity_bytes ''sealed.sender_identity_pub''))))))"

definition open_message_with_cert ::
  "crypto \<Rightarrow> bytes \<Rightarrow> bytes \<Rightarrow> u16 \<Rightarrow> rstr \<Rightarrow> bytes option \<Rightarrow> u64 \<Rightarrow> bytes option
     \<Rightarrow> OpenedCertifiedSealedMessage result" where
  "open_message_with_cert c recipient_local_secret envelope_bytes expected_suite_id expected_recipient_user_id
      server_pub_key now_unix_secs legacy_sender_identity_pub =
     and_then (sealed_validate_id ''sealed.expected_recipient_user_id'' expected_recipient_user_id) (\<lambda>_.
     and_then (se_decode envelope_bytes) (\<lambda>e.
     if se_version e \<noteq> SEALED_VERSION \<and> se_version e \<noteq> SEALED_CERTIFIED_VERSION
     then Err (UnsupportedAlgorithm ''sealed.version'')
     else if se_suite_id e \<noteq> expected_suite_id then Err (UnsupportedAlgorithm ''sealed.suite_id'')
     else if se_recipient_user_id e \<noteq> expected_recipient_user_id
     then Err (PolicyViolation ''sealed.recipient_mismatch'')
     else
     and_then (if se_version e = SEALED_VERSION
         then ok_or legacy_sender_identity_pub (PolicyViolation ''sealed.legacy_sender_identity_missing'')
         else open_sender_hint c recipient_local_secret e) (\<lambda>sender_identity_pub.
     and_then (derive_pairwise_sealed_sender_key c recipient_local_secret sender_identity_pub (se_suite_id e)) (\<lambda>pairwise_key.
     open_message_with_cert_inner c pairwise_key e server_pub_key now_unix_secs (Some sender_identity_pub)))))"

subsection \<open>Codecs\<close>

definition id_ok :: "rstr \<Rightarrow> bool" where
  "id_ok s \<longleftrightarrow> valid_utf8 s \<and> trim s \<noteq> [] \<and> length (trim s) \<le> MAX_ID_LEN \<and> length s \<le> 65535"

definition sc_wf :: "SenderCertificate \<Rightarrow> bool" where
  "sc_wf cert \<longleftrightarrow> id_ok (sc_sender_user_id cert) \<and> id_ok (sc_sender_device_id cert)
     \<and> length (sc_sender_identity_pub cert) = 32 \<and> length (sc_server_signature cert) \<le> 65535"

definition se_wf :: "SealedEnvelope \<Rightarrow> bool" where
  "se_wf e \<longleftrightarrow> id_ok (se_recipient_user_id e) \<and> length (se_aead_nonce e) = 12
     \<and> se_ciphertext e \<noteq> [] \<and> length (se_ciphertext e) \<le> 65535
     \<and> (\<forall>v \<in> set_option (se_sender_hint_ephemeral_pub e). length v = 32)
     \<and> (\<forall>v \<in> set_option (se_sender_hint_nonce e). length v = 12)
     \<and> (\<forall>v \<in> set_option (se_sender_hint_ciphertext e). length v \<le> 65535)"

lemma sealed_parse_eq_Ok [simp]:
  "sealed_parse_32 bs f = Ok x \<longleftrightarrow> length bs = 32 \<and> x = bs"
  "nonce_12 bs f = Ok x \<longleftrightarrow> length bs = 12 \<and> x = bs"
  by (auto simp: sealed_parse_32_def nonce_12_def)

lemma decode_int_eq_Ok [simp]:
  "decode_u64 bs = Ok w \<longleftrightarrow> bs = u64_to_be_bytes w"
  "decode_u16 bs = Ok v \<longleftrightarrow> bs = u16_to_be_bytes v"
  by (auto simp: decode_u64_def decode_u16_def)

lemma decode_id_eq_Ok [simp]:
  "decode_id bs f = Ok s \<longleftrightarrow> s = bs \<and> valid_utf8 bs \<and> trim bs \<noteq> [] \<and> length (trim bs) \<le> MAX_ID_LEN"
  by (auto simp: decode_id_def sealed_validate_id_def Let_def and_then_Ok_iff)

lemma sealed_validate_id_ok [simp]: "id_ok s \<Longrightarrow> sealed_validate_id f s = Ok ()"
  by (simp add: id_ok_def sealed_validate_id_def)

lemma sealed_parse_Ok [simp]:
  "length bs = 32 \<Longrightarrow> sealed_parse_32 bs f = Ok bs" "length bs = 12 \<Longrightarrow> nonce_12 bs f = Ok bs"
  "decode_u64 (u64_to_be_bytes w) = Ok w" "decode_u16 (u16_to_be_bytes v) = Ok v"
  "id_ok s \<Longrightarrow> decode_id s f = Ok s"
  by (simp_all add: id_ok_def)

lemma sc_records_distinct: "distinct (map rec_ty (sc_records cert))"
  by (simp add: sc_records_def sc_body_records_def tag_simps)

lemma sc_records_known: "rec_ty ` set (sc_records cert) \<subseteq> set sc_known_types"
  by (simp add: sc_records_def sc_body_records_def sc_known_types_def)

lemma sc_from_map_records: "sc_wf cert \<Longrightarrow> sc_from_map (build_record_map (sc_records cert)) = Ok cert"
  unfolding sc_from_map_def build_record_map_find [OF sc_records_distinct] require_from_map_def
  by (simp add: sc_records_def sc_body_records_def tag_simps sc_wf_def
      del: sealed_parse_eq_Ok decode_int_eq_Ok decode_id_eq_Ok)

lemma sc_from_map_lengths:
  assumes "sc_from_map m = Ok x" and "\<And>t v. m t = Some v \<Longrightarrow> length v \<le> 65535"
  shows "sc_wf x"
  using assms by (auto simp: sc_from_map_def sc_wf_def id_ok_def)

interpretation certificate_codec: codec sc_encode sc_decode sc_wf
proof unfold_locales
  show "is_ok (sc_encode m)" if "sc_wf m" for m
    using that by (simp add: sc_encode_def encode_fits sc_records_def sc_body_records_def sc_wf_def id_ok_def)
  show "sc_decode bs = Ok m" if "sc_wf m" "sc_encode m = Ok bs" for m bs
    using that decode_strict_map [OF _ sc_records_distinct sc_records_known, of m bs sc_from_map]
    by (simp add: sc_decode_def sc_encode_def sc_from_map_records)
  show "sc_wf m" if "sc_decode bs = Ok m" for m bs
    using that sc_from_map_lengths decode_strict_fits unfolding sc_decode_def by blast
qed

lemma se_records_distinct: "distinct (map rec_ty (se_records e))"
  by (cases "se_sender_hint_ephemeral_pub e"; cases "se_sender_hint_nonce e"; cases "se_sender_hint_ciphertext e")
    (simp_all add: se_records_def tag_simps)

lemma se_records_known: "rec_ty ` set (se_records e) \<subseteq> set se_known_types"
  by (cases "se_sender_hint_ephemeral_pub e"; cases "se_sender_hint_nonce e"; cases "se_sender_hint_ciphertext e")
    (simp_all add: se_records_def se_known_types_def)

lemma se_from_map_records: "se_wf e \<Longrightarrow> se_from_map (build_record_map (se_records e)) = Ok e"
  unfolding se_from_map_def build_record_map_find [OF se_records_distinct] require_from_map_def
  by (cases "se_sender_hint_ephemeral_pub e"; cases "se_sender_hint_nonce e"; cases "se_sender_hint_ciphertext e")
    (simp_all add: se_records_def tag_simps se_wf_def del: sealed_parse_eq_Ok decode_int_eq_Ok decode_id_eq_Ok)

lemma se_from_map_lengths:
  assumes "se_from_map m = Ok x" and "\<And>t v. m t = Some v \<Longrightarrow> length v \<le> 65535"
  shows "se_wf x"
  using assms by (auto simp: se_from_map_def se_wf_def id_ok_def transpose_opt_eq_Ok split: if_splits)

interpretation envelope_codec: codec se_encode se_decode se_wf
proof unfold_locales
  show "is_ok (se_encode m)" if "se_wf m" for m
    using that by (auto simp: se_encode_def encode_fits se_records_def se_wf_def id_ok_def)
  show "se_decode bs = Ok m" if "se_wf m" "se_encode m = Ok bs" for m bs
    using that decode_strict_map [OF _ se_records_distinct se_records_known, of m bs se_from_map]
    by (simp add: se_decode_def se_encode_def se_from_map_records)
  show "se_wf m" if "se_decode bs = Ok m" for m bs
    using that se_from_map_lengths decode_strict_fits unfolding se_decode_def by blast
qed

subsection \<open>Sealed messages open\<close>

lemma encrypt_with_rng_Ok:
  assumes "aead_ok c" "length key = 32" "length msg < aead_max"
  obtains ct where
    "encrypt_with_rng c key msg ad os = (Ok \<lparr>env_nonce = stake 12 os, env_ciphertext = ct, env_aad = ad\<rparr>, sdrop 12 os)"
    and "length ct = length msg + 16"
    and "aead_decrypt c key \<lparr>env_nonce = stake 12 os, env_ciphertext = ct, env_aad = ad\<rparr> = Ok msg"
  using aead_encrypt_Ok [OF assms(1,2) _ assms(3), of "stake 12 os" ad]
  by (auto simp: encrypt_with_rng_def fill_bytes_def)

lemma sealed_ad_Ok: "id_ok rid \<Longrightarrow> \<exists>ad. sealed_associated_data v sid rid = Ok ad"
  by (simp add: sealed_associated_data_def sealed_ad_records_def encode_fits id_ok_def)

lemma hint_ad_Ok: "id_ok rid \<Longrightarrow> length pub = 32 \<Longrightarrow> \<exists>ad. sender_hint_associated_data v sid rid pub = Ok ad"
  by (simp add: sender_hint_associated_data_def sealed_ad_records_def encode_fits id_ok_def)

lemma pairwise_key_Ok:
  assumes "hkdf_ok c"
  obtains k where "derive_pairwise_sealed_sender_key c s p sid = Ok k" "length k = 32"
  using hkdf_sha256_32_Ok [OF assms] unfolding derive_pairwise_sealed_sender_key_def derive_sealed_sender_key_def by blast

lemma hint_key_Ok:
  assumes "hkdf_ok c"
  obtains k where "derive_sealed_sender_hint_key c ss sid = Ok k" "length k = 32"
  using hkdf_sha256_32_Ok [OF assms] unfolding derive_sealed_sender_hint_key_def by blast

lemma pairwise_key_agree:
  assumes "dh_ok c" "dh_pair_ok c a" "dh_pair_ok c b"
  shows "derive_pairwise_sealed_sender_key c (dh_secret a) (dh_public b) sid
    = derive_pairwise_sealed_sender_key c (dh_secret b) (dh_public a) sid"
  using diffie_hellman_commute [OF assms] by (simp add: derive_pairwise_sealed_sender_key_def)

lemma inner_records_decode:
  assumes "encode (inner_records user device payload @ push_opt INNER_TAG_SENDER_CERT cert) = Ok bs"
    "set known \<supseteq> {INNER_TAG_SENDER_USER_ID, INNER_TAG_SENDER_DEVICE_ID, INNER_TAG_PAYLOAD}"
    "cert = None \<or> INNER_TAG_SENDER_CERT \<in> set known"
    "id_ok user" "id_ok device" "payload \<noteq> []"
  obtains rs where "decode_strict bs known = Ok rs" "inner_fields (build_record_map rs) = Ok (user, device, payload)"
    "build_record_map rs INNER_TAG_SENDER_CERT = cert"
proof -
  let ?rs = "inner_records user device payload @ push_opt INNER_TAG_SENDER_CERT cert"
  have d: "distinct (map rec_ty ?rs)" by (cases cert) (simp_all add: inner_records_def tag_simps)
  have k: "rec_ty ` set ?rs \<subseteq> set known" using assms(2,3) by (cases cert) (simp_all add: inner_records_def)
  have "inner_fields (build_record_map ?rs) = Ok (user, device, payload)"
    unfolding inner_fields_def build_record_map_find [OF d] require_from_map_def using assms(4-6)
    by (cases cert) (simp_all add: inner_records_def tag_simps del: decode_id_eq_Ok)
  moreover have "build_record_map ?rs INNER_TAG_SENDER_CERT = cert"
    unfolding build_record_map_find [OF d] by (cases cert) (simp_all add: inner_records_def tag_simps)
  ultimately show thesis using that decode_strict_encode [OF assms(1) d k] by blast
qed

lemma inner_records_length:
  assumes "encode (inner_records user device payload @ push_opt INNER_TAG_SENDER_CERT cert) = Ok bs"
  shows "length bs = length user + length device + length payload + 12
    + (case cert of None \<Rightarrow> 0 | Some v \<Rightarrow> length v + 4)"
  using assms by (cases cert) (auto simp: encode_eq_Ok_iff inner_records_def record_bytes_def)

end
