(* ===== verification/Sealed_Thms.thy ===== *)
theory Sealed_Thms
  imports Sealed
begin

text \<open>
  What sealed sender promises: plain and certified envelopes open to what was sealed, an accepted
  certificate names the sender whose key opened the envelope, how long a certificate lives, and
  what a recipient accepts without a certificate.
\<close>

subsection \<open>Plain envelopes\<close>

lemma se_roundtrip:
  assumes "se_wf e"
  obtains bs where "se_encode e = Ok bs" "se_decode bs = Ok e"
  using envelope_codec.roundtrip [OF assms] by blast

definition toy_user :: rstr where "toy_user = str_bytes ''alice''"
definition toy_device :: rstr where "toy_device = str_bytes ''dev''"
definition toy_recipient :: rstr where "toy_recipient = str_bytes ''bob''"

lemma toy_ids [simp]: "id_ok toy_user" "id_ok toy_device" "id_ok toy_recipient"
  by (simp_all add: toy_user_def toy_device_def toy_recipient_def id_ok_def trim_plain str_bytes_def ws_prefix_len_def
      ws_suffix_len_def ws_chars_def MAX_ID_LEN_def)

lemma toy_id_length [simp]: "length toy_user = 5" "length toy_device = 3" "length toy_recipient = 3"
  by (simp_all add: toy_user_def toy_device_def toy_recipient_def str_bytes_def)

text \<open>
  A sealed message opens to what was sealed. For valid identifiers and a non-empty payload that fits the
  envelope, sealing succeeds, and opening with the same key, suite and recipient returns the
  sender's user, device and payload.
\<close>

theorem sealed_roundtrip:
  assumes "aead_ok c" "length key = 32" "id_ok rid" "id_ok user" "id_ok device" "payload \<noteq> []"
    and "length user + length device + length payload \<le> 65507"
  shows "\<exists>bs. fst (seal_message c key sid rid user device payload os) = Ok bs
    \<and> open_message c key bs sid rid
        = Ok \<lparr>os_sender_user_id = user, os_sender_device_id = device, os_payload = payload\<rparr>"
proof -
  obtain ad where ad: "sealed_associated_data SEALED_VERSION sid rid = Ok ad" using sealed_ad_Ok assms(3) by blast
  have "is_ok (encode (inner_records user device payload))"
    using assms(7) by (simp add: inner_records_def encode_fits)
  then obtain inner where inner: "encode (inner_records user device payload) = Ok inner" by (auto simp: is_ok_iff)
  then have len: "length inner \<le> 65519" using inner_records_length [of user device payload None inner] assms(7) by simp
  then have "length inner < aead_max" by (simp add: aead_max_def)
  from encrypt_with_rng_Ok [OF assms(1,2) this] obtain ct where ct:
    "encrypt_with_rng c key inner ad os = (Ok \<lparr>env_nonce = stake 12 os, env_ciphertext = ct, env_aad = ad\<rparr>, sdrop 12 os)"
    "length ct = length inner + 16"
    "aead_decrypt c key \<lparr>env_nonce = stake 12 os, env_ciphertext = ct, env_aad = ad\<rparr> = Ok inner" by blast
  let ?e = "\<lparr>se_version = SEALED_VERSION, se_suite_id = sid, se_recipient_user_id = rid,
             se_aead_nonce = stake 12 os, se_ciphertext = ct, se_sender_hint_ephemeral_pub = None,
             se_sender_hint_nonce = None, se_sender_hint_ciphertext = None\<rparr>"
  have "se_wf ?e" using assms(3) ct(2) len by (auto simp: se_wf_def)
  then obtain bs where bs: "se_encode ?e = Ok bs" "se_decode bs = Ok ?e" by (rule se_roundtrip)
  have "fst (seal_message c key sid rid user device payload os) = Ok bs"
    using ad inner ct(1) bs(1) assms(3-6) by (simp add: seal_message_def check_seal_arguments_def)
  moreover obtain rs where "decode_strict inner [INNER_TAG_SENDER_USER_ID, INNER_TAG_SENDER_DEVICE_ID, INNER_TAG_PAYLOAD] = Ok rs"
    "inner_fields (build_record_map rs) = Ok (user, device, payload)"
    by (rule inner_records_decode [of user device payload None inner]) (use inner assms(4-6) in auto)
  ultimately show ?thesis using bs(2) ad ct(3) assms(3) by (simp add: open_message_def open_envelope_def)
qed

theorem sealed_roundtrip_witness:
  "\<exists>bs. fst (seal_message toy_crypto (replicate 32 7) 1 toy_recipient toy_user toy_device [1, 2, 3] (sconst 5)) = Ok bs
    \<and> open_message toy_crypto (replicate 32 7) bs 1 toy_recipient
        = Ok \<lparr>os_sender_user_id = toy_user, os_sender_device_id = toy_device, os_payload = [1, 2, 3]\<rparr>"
  by (rule sealed_roundtrip) simp_all

subsection \<open>Certified envelopes\<close>

text \<open>An envelope sealed for the recipient gives back its content and the sender's identity key.\<close>

lemma seal_certified_opens:
  assumes ok: "aead_ok c" "hkdf_ok c" "dh_ok c" and rp: "dh_pair_ok c recipient" "id_ok rid"
    and pub: "length pub = 32" and k: "length k = 32" and len: "length inner \<le> 65519"
    and ad: "sealed_associated_data SEALED_CERTIFIED_VERSION sid rid = Ok ad"
  obtains bs e where "fst (seal_certified c k (dh_public recipient) sid rid ad inner pub os) = Ok bs"
    "se_decode bs = Ok e" "se_version e = SEALED_CERTIFIED_VERSION" "se_suite_id e = sid" "se_recipient_user_id e = rid"
    "open_envelope c k e = Ok inner" "open_sender_hint c (dh_secret recipient) e = Ok pub"
proof -
  have "length inner < aead_max" using len by (simp add: aead_max_def)
  from encrypt_with_rng_Ok [OF ok(1) k this] obtain ct where ct:
    "encrypt_with_rng c k inner ad os = (Ok \<lparr>env_nonce = stake 12 os, env_ciphertext = ct, env_aad = ad\<rparr>, sdrop 12 os)"
    "length ct = length inner + 16"
    "aead_decrypt c k \<lparr>env_nonce = stake 12 os, env_ciphertext = ct, env_aad = ad\<rparr> = Ok inner" by blast
  obtain hint os' where g: "generate_keypair c (sdrop 12 os) = (hint, os')" by fastforce
  have hp: "dh_pair_ok c hint" by (rule generate_keypair_ok [OF ok(3) g])
  have agree: "diffie_hellman c (dh_secret recipient) (dh_public hint) = diffie_hellman c (dh_secret hint) (dh_public recipient)"
    by (rule diffie_hellman_commute [OF ok(3) rp(1) hp])
  obtain hk where hk: "derive_sealed_sender_hint_key c (diffie_hellman c (dh_secret hint) (dh_public recipient)) sid = Ok hk"
    "length hk = 32" by (rule hint_key_Ok [OF ok(2)])
  have h32: "length (dh_public hint) = 32" using hp unfolding dh_pair_ok_def by blast
  obtain had where had: "sender_hint_associated_data SEALED_CERTIFIED_VERSION sid rid (dh_public hint) = Ok had"
    using hint_ad_Ok [OF rp(2) h32] by blast
  have "length pub < aead_max" using pub by (simp add: aead_max_def)
  from encrypt_with_rng_Ok [OF ok(1) hk(2) this] obtain hct where hct:
    "encrypt_with_rng c hk pub had os' = (Ok \<lparr>env_nonce = stake 12 os', env_ciphertext = hct, env_aad = had\<rparr>, sdrop 12 os')"
    "length hct = length pub + 16"
    "aead_decrypt c hk \<lparr>env_nonce = stake 12 os', env_ciphertext = hct, env_aad = had\<rparr> = Ok pub" by blast
  let ?e = "\<lparr>se_version = SEALED_CERTIFIED_VERSION, se_suite_id = sid, se_recipient_user_id = rid,
             se_aead_nonce = stake 12 os, se_ciphertext = ct, se_sender_hint_ephemeral_pub = Some (dh_public hint),
             se_sender_hint_nonce = Some (stake 12 os'), se_sender_hint_ciphertext = Some hct\<rparr>"
  have "se_wf ?e" using rp(2) ct(2) len hct(2) pub h32 by (auto simp: se_wf_def)
  then obtain bs where bs: "se_encode ?e = Ok bs" "se_decode bs = Ok ?e" by (rule se_roundtrip)
  have "fst (seal_certified c k (dh_public recipient) sid rid ad inner pub os) = Ok bs"
    using ct(1) g hk(1) had hct(1) bs(1) by (simp add: seal_certified_def)
  moreover have "open_envelope c k ?e = Ok inner" using ad ct(3) by (simp add: open_envelope_def)
  moreover have "open_sender_hint c (dh_secret recipient) ?e = Ok pub"
    using agree hk(1) had hct(3) pub by (simp add: open_sender_hint_def)
  ultimately show thesis using that [OF _ bs(2)] by simp
qed

lemma open_certified:
  assumes "se_decode bs = Ok e" "se_version e = SEALED_CERTIFIED_VERSION" "se_suite_id e = sid" "se_recipient_user_id e = rid"
    and "id_ok rid" "open_sender_hint c sk e = Ok pub" "derive_pairwise_sealed_sender_key c sk pub sid = Ok k"
  shows "open_message_with_cert c sk bs sid rid spk now legacy = open_message_with_cert_inner c k e spk now (Some pub)"
  using assms by (simp add: open_message_with_cert_def SEALED_VERSION_def SEALED_CERTIFIED_VERSION_def)

lemma open_inner_fields:
  assumes "open_envelope c k e = Ok inner" "id_ok user" "id_ok device" "payload \<noteq> []"
    and "encode (inner_records user device payload @ push_opt INNER_TAG_SENDER_CERT cert) = Ok inner"
  shows "open_message_with_cert_inner c k e spk now pub =
    and_then (case cert of
         Some cert_bytes \<Rightarrow> and_then (check_certificate c cert_bytes spk now user device pub) (\<lambda>cert. Ok (Some cert))
       | None \<Rightarrow> Ok None) (\<lambda>sender_cert.
     Ok \<lparr>oc_sender_user_id = user, oc_sender_device_id = device, oc_payload = payload, oc_sender_cert = sender_cert\<rparr>)"
proof -
  obtain rs where "decode_strict inner [INNER_TAG_SENDER_USER_ID, INNER_TAG_SENDER_DEVICE_ID, INNER_TAG_PAYLOAD,
      INNER_TAG_SENDER_CERT] = Ok rs" "inner_fields (build_record_map rs) = Ok (user, device, payload)"
    "build_record_map rs INNER_TAG_SENDER_CERT = cert"
    by (rule inner_records_decode [OF assms(5) _ _ assms(2-4)]) auto
  with assms(1) show ?thesis by (simp add: open_message_with_cert_inner_def Let_def)
qed

lemma skew_add:
  assumes "unat (t :: u64) + 300 < 2 ^ 64"
  shows "unat (t + SENDER_CERT_CLOCK_SKEW_SECS) = unat t + 300"
proof -
  have "unat SENDER_CERT_CLOCK_SKEW_SECS = 300" by (simp add: SENDER_CERT_CLOCK_SKEW_SECS_def)
  with assms show ?thesis by (simp add: unat_word_ariths)
qed

lemma server_certificate_Ok:
  assumes "ed25519_ok c" "length sk = 32" "id_ok user" "id_ok device" "length pub = 32"
  obtains cert body where "server_certificate c sk user device pub issued = Ok cert" "sc_wf cert"
    "sc_sender_user_id cert = user" "sc_sender_device_id cert = device" "sc_sender_identity_pub cert = pub"
    "sc_expires_at cert = issued + SENDER_CERT_VALIDITY_SECS" "length (sc_server_signature cert) = 64"
    "sc_signing_body cert = Ok body" "sc_server_signature cert = ed25519_sign c sk body"
proof -
  let ?c = "\<lparr>sc_sender_user_id = user, sc_sender_device_id = device, sc_sender_identity_pub = pub,
     sc_expires_at = issued + SENDER_CERT_VALIDITY_SECS, sc_server_signature = []\<rparr>"
  have "is_ok (sc_signing_body ?c)" using assms by (simp add: sc_signing_body_def sc_body_records_def encode_fits id_ok_def)
  then obtain body where body: "sc_signing_body ?c = Ok body" by (auto simp: is_ok_iff)
  let ?cert = "?c\<lparr>sc_server_signature := ed25519_sign c sk body\<rparr>"
  have "sc_signing_body ?cert = Ok body" using body by (simp add: sc_signing_body_def sc_body_records_def)
  moreover have "length (ed25519_sign c sk body) = 64" using assms(1,2) by (simp add: ed25519_ok_def)
  ultimately show thesis using that [of ?cert body] body assms by (simp add: server_certificate_def sc_wf_def)
qed

lemma validate_server_certificate:
  assumes "ed25519_ok c" "length sk = 32" "sc_signing_body cert = Ok body" "sc_server_signature cert = ed25519_sign c sk body"
  shows "validate_sender_certificate c cert (ed25519_public c sk) now =
    (if now > sc_expires_at cert + SENDER_CERT_CLOCK_SKEW_SECS then Err (PolicyViolation ''sender_cert.expired'') else Ok ())"
  using assms by (simp add: validate_sender_certificate_def ed25519_ok_def)

lemma check_issued_certificate:
  assumes "ed25519_ok c" "length sk = 32" "sc_wf cert" "sc_encode cert = Ok bs"
    "sc_signing_body cert = Ok body" "sc_server_signature cert = ed25519_sign c sk body"
  shows "check_certificate c bs (Some (ed25519_public c sk)) now (sc_sender_user_id cert) (sc_sender_device_id cert)
      (Some (sc_sender_identity_pub cert)) =
    (if now > sc_expires_at cert + SENDER_CERT_CLOCK_SKEW_SECS then Err (PolicyViolation ''sender_cert.expired'') else Ok cert)"
  using certificate_codec.dec_enc [OF assms(3,4)] validate_server_certificate [OF assms(1,2,5,6), of now]
  by (simp add: check_certificate_def)

lemma sc_encode_length:
  assumes "sc_encode cert = Ok bs" "length (sc_sender_identity_pub cert) = 32" "length (sc_server_signature cert) = 64"
  shows "length bs = length (sc_sender_user_id cert) + length (sc_sender_device_id cert) + 124"
  using assms by (auto simp: sc_encode_def encode_eq_Ok_iff sc_records_def sc_body_records_def record_bytes_def)

lemma validity_add:
  assumes "unat (t :: u64) + 86700 < 2 ^ 64"
  shows "unat (t + SENDER_CERT_VALIDITY_SECS + SENDER_CERT_CLOCK_SKEW_SECS) = unat t + 86700"
proof -
  have "unat SENDER_CERT_VALIDITY_SECS = 86400" by (simp add: SENDER_CERT_VALIDITY_SECS_def)
  with assms have "unat (t + SENDER_CERT_VALIDITY_SECS) = unat t + 86400" by (simp add: unat_word_ariths)
  with assms show ?thesis by (subst skew_add) simp_all
qed

lemma issued_message_opens:
  assumes "aead_ok c" "hkdf_ok c" "dh_ok c" "ed25519_ok c" "length sk = 32"
    and "dh_pair_ok c sender" "dh_pair_ok c recipient" "id_ok rid" "id_ok user" "id_ok device" "payload \<noteq> []"
    and "2 * length user + 2 * length device + length payload \<le> 65379" "unat issued + 86700 < 2 ^ 64"
  shows "\<exists>cert bs. server_certificate c sk user device (dh_public sender) issued = Ok cert
    \<and> fst (seal_message_with_cert c (dh_secret sender) (dh_public recipient) sid rid user device payload cert os) = Ok bs
    \<and> open_message_with_cert c (dh_secret recipient) bs sid rid (Some (ed25519_public c sk)) now legacy =
        (if unat now \<le> unat issued + 86700
         then Ok \<lparr>oc_sender_user_id = user, oc_sender_device_id = device, oc_payload = payload, oc_sender_cert = Some cert\<rparr>
         else Err (PolicyViolation ''sender_cert.expired''))"
proof -
  have pub: "length (dh_public sender) = 32" using assms(6) unfolding dh_pair_ok_def by blast
  from server_certificate_Ok [OF assms(4,5,9,10) pub, of issued] obtain cert body where
    cert: "server_certificate c sk user device (dh_public sender) issued = Ok cert" "sc_wf cert"
    and f: "sc_sender_user_id cert = user" "sc_sender_device_id cert = device" "sc_sender_identity_pub cert = dh_public sender"
      "sc_expires_at cert = issued + SENDER_CERT_VALIDITY_SECS" "length (sc_server_signature cert) = 64"
    and sig: "sc_signing_body cert = Ok body" "sc_server_signature cert = ed25519_sign c sk body" by metis
  obtain cb where cb: "sc_encode cert = Ok cb" using certificate_codec.roundtrip [OF cert(2)] by blast
  have cbl: "length cb = length user + length device + 124" using sc_encode_length [OF cb] f pub by simp
  let ?rs = "inner_records user device payload @ push_opt INNER_TAG_SENDER_CERT (Some cb)"
  have "is_ok (encode ?rs)" using assms(12) cbl by (simp add: inner_records_def encode_fits)
  then obtain inner where inner: "encode ?rs = Ok inner" by (auto simp: is_ok_iff)
  have len: "length inner \<le> 65519" using inner_records_length [OF inner] assms(12) cbl by simp
  obtain k where k: "derive_pairwise_sealed_sender_key c (dh_secret sender) (dh_public recipient) sid = Ok k" "length k = 32"
    by (rule pairwise_key_Ok [OF assms(2)])
  obtain ad where ad: "sealed_associated_data SEALED_CERTIFIED_VERSION sid rid = Ok ad" using sealed_ad_Ok assms(8) by blast
  obtain bs e where bs: "fst (seal_certified c k (dh_public recipient) sid rid ad inner (dh_public sender) os) = Ok bs"
    and e: "se_decode bs = Ok e" "se_version e = SEALED_CERTIFIED_VERSION" "se_suite_id e = sid" "se_recipient_user_id e = rid"
    "open_envelope c k e = Ok inner" "open_sender_hint c (dh_secret recipient) e = Ok (dh_public sender)"
    by (rule seal_certified_opens [OF assms(1-3,7,8) pub k(2) len ad])
  have "fst (seal_message_with_cert c (dh_secret sender) (dh_public recipient) sid rid user device payload cert os) = Ok bs"
    using bs k(1) ad inner cb assms(8-11) f(3) by (simp add: seal_message_with_cert_def check_seal_arguments_def)
  moreover have "open_message_with_cert c (dh_secret recipient) bs sid rid (Some (ed25519_public c sk)) now legacy
    = open_message_with_cert_inner c k e (Some (ed25519_public c sk)) now (Some (dh_public sender))"
    using open_certified [OF e(1-4) assms(8) e(6)] k(1) pairwise_key_agree [OF assms(3,6,7)] by simp
  moreover have "now > sc_expires_at cert + SENDER_CERT_CLOCK_SKEW_SECS \<longleftrightarrow> \<not> unat now \<le> unat issued + 86700"
    using validity_add [OF assms(13)] by (simp add: f(4) word_less_nat_alt not_le)
  ultimately show ?thesis
    using cert(1) open_inner_fields [OF e(5) assms(9-11) inner]
      check_issued_certificate [OF assms(4,5) cert(2) cb sig, of now] f(1-3) by simp
qed

text \<open>
  C12. From the server's certificate to the recipient. A message sealed with the certificate that the server
  issues for the sender's identity key opens, for a recipient who knows the server's key only, to
  the sender's identifiers, the payload and the certificate until a day and five minutes after
  the issue; after that it is refused as expired.
\<close>

theorem certified_delivery:
  assumes "aead_ok c" "hkdf_ok c" "dh_ok c" "ed25519_ok c" "length sk = 32"
    and "dh_pair_ok c sender" "dh_pair_ok c recipient" "id_ok rid" "id_ok user" "id_ok device" "payload \<noteq> []"
    and "2 * length user + 2 * length device + length payload \<le> 65379" "unat issued + 86700 < 2 ^ 64"
  shows "\<exists>cert bs. server_certificate c sk user device (dh_public sender) issued = Ok cert
    \<and> fst (seal_message_with_cert c (dh_secret sender) (dh_public recipient) sid rid user device payload cert os) = Ok bs
    \<and> open_message_with_cert c (dh_secret recipient) bs sid rid (Some (ed25519_public c sk)) now legacy =
        (if unat now \<le> unat issued + 86700
         then Ok \<lparr>oc_sender_user_id = user, oc_sender_device_id = device, oc_payload = payload, oc_sender_cert = Some cert\<rparr>
         else Err (PolicyViolation ''sender_cert.expired''))"
  using issued_message_opens [OF assms] .

theorem certified_delivery_witness:
  "\<exists>cert bs. server_certificate toy_crypto (replicate 32 9) toy_user toy_device (dh_public (toy_pair 1)) 1000 = Ok cert
    \<and> fst (seal_message_with_cert toy_crypto (dh_secret (toy_pair 1)) (dh_public (toy_pair 2)) 1 toy_recipient toy_user toy_device
        [1, 2, 3] cert (sconst 5)) = Ok bs
    \<and> open_message_with_cert toy_crypto (dh_secret (toy_pair 2)) bs 1 toy_recipient
        (Some (ed25519_public toy_crypto (replicate 32 9))) 2000 None
        = Ok \<lparr>oc_sender_user_id = toy_user, oc_sender_device_id = toy_device, oc_payload = [1, 2, 3], oc_sender_cert = Some cert\<rparr>"
proof -
  have "unat (1000 :: u64) + 86700 < 2 ^ 64" "[1, 2, 3 :: u8] \<noteq> []" by simp_all
  from certified_delivery [OF toy_aead_ok toy_hkdf_ok toy_dh_ok toy_ed25519_ok _ toy_pair_ok [of 1] toy_pair_ok [of 2] toy_ids(3,1,2) this(2) _ this(1),
      of "replicate 32 9" 1 "sconst 5" 2000 None] show ?thesis by simp
qed

text \<open>
  C13. An accepted certificate identifies the sender. If a recipient who knows the server's key opens an
  envelope that carries a certificate, then the message names the user and device of the
  certificate, the certificate had not expired, its signature verifies under the server's key,
  and the envelope was encrypted under the key shared with the certificate's identity key.
\<close>

theorem certified_sender_authentic:
  assumes "open_message_with_cert c sk bs sid rid (Some spk) now legacy = Ok m" "oc_sender_cert m = Some cert"
  shows "oc_sender_user_id m = sc_sender_user_id cert \<and> oc_sender_device_id m = sc_sender_device_id cert
    \<and> now \<le> sc_expires_at cert + SENDER_CERT_CLOCK_SKEW_SECS
    \<and> (\<exists>body. sc_signing_body cert = Ok body \<and> ed25519_verify c spk body (sc_server_signature cert))
    \<and> (\<exists>e k inner. se_decode bs = Ok e \<and> se_suite_id e = sid \<and> se_recipient_user_id e = rid
        \<and> derive_pairwise_sealed_sender_key c sk (sc_sender_identity_pub cert) sid = Ok k
        \<and> open_envelope c k e = Ok inner)"
proof -
  from assms(1) obtain e pub k where e: "se_decode bs = Ok e" "se_suite_id e = sid" "se_recipient_user_id e = rid"
    and k: "derive_pairwise_sealed_sender_key c sk pub sid = Ok k"
    and m: "open_message_with_cert_inner c k e (Some spk) now (Some pub) = Ok m"
    by (auto simp: open_message_with_cert_def split: if_splits)
  from m assms(2) obtain inner cb where i: "open_envelope c k e = Ok inner"
    and cb: "check_certificate c cb (Some spk) now (oc_sender_user_id m) (oc_sender_device_id m) (Some pub) = Ok cert"
    by (auto simp: open_message_with_cert_inner_def Let_def split: option.splits)
  from cb have v: "validate_sender_certificate c cert spk now = Ok ()" "sc_sender_identity_pub cert = pub"
      "sc_sender_user_id cert = oc_sender_user_id m" "sc_sender_device_id cert = oc_sender_device_id m"
    by (auto simp: check_certificate_def split: if_splits)
  from v(1) have "now \<le> sc_expires_at cert + SENDER_CERT_CLOCK_SKEW_SECS"
    "\<exists>body. sc_signing_body cert = Ok body \<and> ed25519_verify c spk body (sc_server_signature cert)"
    by (auto simp: validate_sender_certificate_def not_less split: if_splits)
  with e k i v(2-4) show ?thesis by auto
qed

theorem certified_sender_authentic_witness:
  "\<exists>cert bs m. open_message_with_cert toy_crypto (dh_secret (toy_pair 2)) bs 1 toy_recipient
        (Some (ed25519_public toy_crypto (replicate 32 9))) 2000 None = Ok m
    \<and> oc_sender_cert m = Some cert \<and> oc_sender_user_id m = sc_sender_user_id cert
    \<and> oc_sender_device_id m = sc_sender_device_id cert"
proof -
  let ?spk = "ed25519_public toy_crypto (replicate 32 9)"
  have small: "unat (1000 :: u64) + 86700 < 2 ^ 64" "[1, 2, 3 :: u8] \<noteq> []" by simp_all
  obtain cert bs where "open_message_with_cert toy_crypto (dh_secret (toy_pair 2)) bs 1 toy_recipient (Some ?spk) 2000 None
      = Ok \<lparr>oc_sender_user_id = toy_user, oc_sender_device_id = toy_device, oc_payload = [1, 2, 3], oc_sender_cert = Some cert\<rparr>"
    using issued_message_opens [OF toy_aead_ok toy_hkdf_ok toy_dh_ok toy_ed25519_ok _ toy_pair_ok [of 1] toy_pair_ok [of 2] toy_ids(3,1,2) small(2) _ small(1),
      of "replicate 32 9" 1 "sconst 5" 2000 None] by auto
  from this certified_sender_authentic [OF this] show ?thesis by fastforce
qed

text \<open>
  The steps of \<^verbatim>\<open>seal_message_with_cert\<close> without its certificate, as a client of
  anybody's own making can run them: it uses the key pair of the person who runs it, the public key of the
  recipient, and whatever names it is given.
\<close>

definition seal_uncertified ::
  "crypto \<Rightarrow> DhKeyPair \<Rightarrow> bytes \<Rightarrow> u16 \<Rightarrow> rstr \<Rightarrow> rstr \<Rightarrow> rstr \<Rightarrow> bytes \<Rightarrow> rng \<Rightarrow> bytes result \<times> rng" where
  "seal_uncertified c own recipient_identity_pub sid recipient_user_id sender_user_id sender_device_id payload os =
     (case and_then (derive_pairwise_sealed_sender_key c (dh_secret own) recipient_identity_pub sid) (\<lambda>pairwise_key.
           and_then (sealed_associated_data SEALED_CERTIFIED_VERSION sid recipient_user_id) (\<lambda>ad.
           and_then (encode (inner_records sender_user_id sender_device_id payload)) (\<lambda>inner.
           Ok (pairwise_key, ad, inner)))) of
        Inl e \<Rightarrow> (Err e, os)
      | Inr (pairwise_key, ad, inner) \<Rightarrow>
          seal_certified c pairwise_key recipient_identity_pub sid recipient_user_id ad inner (dh_public own) os)"

text \<open>
  C24. A certificate is not required. Whoever has an identity key pair of their own and knows the public key of the
  recipient can seal, under the user and device name of somebody else, an envelope without a certificate: no
  key of the person named is used. A recipient with the server's key opens it without an error, and the message
  carries the name the sender chose and no certificate.
\<close>

theorem uncertified_sender_accepted:
  assumes "aead_ok c" "hkdf_ok c" "dh_ok c" "dh_pair_ok c attacker" "dh_pair_ok c recipient"
    and "id_ok rid" "id_ok victim" "id_ok device" "payload \<noteq> []" "length victim + length device + length payload \<le> 65507"
  shows "\<exists>bs. fst (seal_uncertified c attacker (dh_public recipient) sid rid victim device payload os) = Ok bs
    \<and> open_message_with_cert c (dh_secret recipient) bs sid rid (Some spk) now legacy
      = Ok \<lparr>oc_sender_user_id = victim, oc_sender_device_id = device, oc_payload = payload, oc_sender_cert = None\<rparr>"
proof -
  have pub: "length (dh_public attacker) = 32" using assms(4) unfolding dh_pair_ok_def by blast
  let ?rs = "inner_records victim device payload @ push_opt INNER_TAG_SENDER_CERT None"
  have "is_ok (encode ?rs)" using assms(10) by (simp add: inner_records_def encode_fits)
  then obtain inner where inner: "encode ?rs = Ok inner" by (auto simp: is_ok_iff)
  have len: "length inner \<le> 65519" using inner_records_length [OF inner] assms(10) by simp
  obtain k where k: "derive_pairwise_sealed_sender_key c (dh_secret attacker) (dh_public recipient) sid = Ok k" "length k = 32"
    by (rule pairwise_key_Ok [OF assms(2)])
  obtain ad where ad: "sealed_associated_data SEALED_CERTIFIED_VERSION sid rid = Ok ad" using sealed_ad_Ok assms(6) by blast
  obtain bs e where bs: "fst (seal_certified c k (dh_public recipient) sid rid ad inner (dh_public attacker) os) = Ok bs"
    and e: "se_decode bs = Ok e" "se_version e = SEALED_CERTIFIED_VERSION" "se_suite_id e = sid"
    "se_recipient_user_id e = rid" "open_envelope c k e = Ok inner" "open_sender_hint c (dh_secret recipient) e = Ok (dh_public attacker)"
    by (rule seal_certified_opens [OF assms(1-3,5,6) pub k(2) len ad])
  have "encode (inner_records victim device payload) = Ok inner" using inner by (simp add: push_opt_def)
  with bs k(1) ad have "fst (seal_uncertified c attacker (dh_public recipient) sid rid victim device payload os) = Ok bs"
    by (simp add: seal_uncertified_def)
  moreover have "open_message_with_cert c (dh_secret recipient) bs sid rid (Some spk) now legacy
    = open_message_with_cert_inner c k e (Some spk) now (Some (dh_public attacker))"
    using open_certified [OF e(1-4) assms(6) e(6)] k(1) pairwise_key_agree [OF assms(3-5)] by simp
  ultimately show ?thesis using open_inner_fields [OF e(5) assms(7-9) inner] by auto
qed

theorem uncertified_sender_accepted_witness:
  "\<exists>bs. fst (seal_uncertified toy_crypto (toy_pair 1) (dh_public (toy_pair 2)) 1 toy_recipient toy_user toy_device [1] (sconst 4)) = Ok bs
    \<and> open_message_with_cert toy_crypto (dh_secret (toy_pair 2)) bs 1 toy_recipient (Some (replicate 32 3)) 0 None
      = Ok \<lparr>oc_sender_user_id = toy_user, oc_sender_device_id = toy_device, oc_payload = [1], oc_sender_cert = None\<rparr>"
  by (rule uncertified_sender_accepted [OF toy_aead_ok toy_hkdf_ok toy_dh_ok toy_pair_ok [of 1] toy_pair_ok [of 2]]) simp_all

text \<open>
  C37. The expiry check and the width of the expiry time. For expiry times below the last five minutes of
  the 64 bit range a certificate counts as expired exactly when the clock is more than 300 seconds past its
  expiry time; at 300 seconds it is still valid. In the last five minutes of the range the addition wraps
  around: the certificate counts as expired at every clock value above the wrapped sum, which is below 300,
  although its expiry time is not reached.
\<close>

theorem certificate_expiry:
  "validate_sender_certificate c cert spk now = Err (PolicyViolation ''sender_cert.expired'') \<longleftrightarrow>
     (if unat (sc_expires_at cert) + 300 < 2 ^ 64 then unat now > unat (sc_expires_at cert) + 300
      else unat now > unat (sc_expires_at cert) + 300 - 2 ^ 64)"
proof -
  have s: "unat SENDER_CERT_CLOCK_SKEW_SECS = 300" by (simp add: SENDER_CERT_CLOCK_SKEW_SECS_def)
  have "unat (sc_expires_at cert) < 2 ^ 64" using unsigned_less [where ?'a = nat, of "sc_expires_at cert"] by simp
  then have "unat (sc_expires_at cert + SENDER_CERT_CLOCK_SKEW_SECS) =
      (if unat (sc_expires_at cert) + 300 < 2 ^ 64 then unat (sc_expires_at cert) + 300 else unat (sc_expires_at cert) + 300 - 2 ^ 64)"
    by (simp add: unat_word_ariths s mod_if)
  moreover have "validate_sender_certificate c cert spk now = Err (PolicyViolation ''sender_cert.expired'') \<longleftrightarrow>
      unat now > unat (sc_expires_at cert + SENDER_CERT_CLOCK_SKEW_SECS)"
    using encode_not_fits_Err [of "sc_body_records cert"]
    by (cases "fits (sc_body_records cert)")
      (auto simp: validate_sender_certificate_def word_less_nat_alt sc_signing_body_def encode_fits)
  ultimately show ?thesis by (simp split: if_splits)
qed

end
