(* ===== verification/Storage.thy ===== *)
theory Storage
  imports Core_Error Rust_Str
begin

text \<open>
  \<^verbatim>\<open>storage.rs\<close>: secrets wrapped under a passphrase. Argon2id, AES-256-GCM and the base64 engine
  are the fields of the parameter record \<open>storage_libs\<close>; \<open>storage_libs_ok\<close> states what their crates
  document and \<open>toy_storage\<close> is an instance. A failing \<^verbatim>\<open>Params::new\<close> and a failing hash are the
  value \<open>None\<close> of the two Argon2 fields.
\<close>

record storage_libs =
  argon2_params :: "u32 \<Rightarrow> u32 \<Rightarrow> u32 \<Rightarrow> usize option \<Rightarrow> (u32 \<times> u32 \<times> u32 \<times> usize option) option"
  argon2_hash :: "u32 \<times> u32 \<times> u32 \<times> usize option \<Rightarrow> bytes \<Rightarrow> bytes \<Rightarrow> usize \<Rightarrow> bytes option"
  gcm_seal :: "bytes \<Rightarrow> bytes \<Rightarrow> bytes \<Rightarrow> bytes \<Rightarrow> bytes option"
  gcm_open :: "bytes \<Rightarrow> bytes \<Rightarrow> bytes \<Rightarrow> bytes \<Rightarrow> bytes option"
  b64_encode :: "bytes \<Rightarrow> rstr"
  b64_decode :: "rstr \<Rightarrow> bytes option"

definition WRAPPED_KIND :: rstr where "WRAPPED_KIND = str_bytes ''pqmsg-sealed''"
definition WRAPPED_KDF :: rstr where "WRAPPED_KDF = str_bytes ''argon2id''"
definition WRAPPED_AEAD :: rstr where "WRAPPED_AEAD = str_bytes ''aes-256-gcm''"
definition STORAGE_AAD :: bytes where "STORAGE_AAD = str_bytes ''pqmsg-storage-v1''"
definition WRAPPED_VERSION :: u16 where "WRAPPED_VERSION = 1"
definition WRAPPED_SALT_BYTES :: usize where "WRAPPED_SALT_BYTES = 16"
definition WRAPPED_NONCE_BYTES :: usize where "WRAPPED_NONCE_BYTES = 12"
definition WRAPPED_KEY_BYTES :: usize where "WRAPPED_KEY_BYTES = 32"

record Argon2idParams =
  m_cost_kib :: u32
  t_cost :: u32
  p_cost :: u32

definition default_argon2id_params :: Argon2idParams where
  "default_argon2id_params = \<lparr>m_cost_kib = 65536, t_cost = 3, p_cost = 1\<rparr>"

record WrappedSecret =
  ws_kind :: rstr
  ws_version :: u16
  ws_kdf :: rstr
  ws_aead :: rstr
  ws_kdf_params :: Argon2idParams
  ws_salt_b64 :: rstr
  ws_nonce_b64 :: rstr
  ws_ciphertext_b64 :: rstr

definition derive_key :: "storage_libs \<Rightarrow> bytes \<Rightarrow> bytes \<Rightarrow> Argon2idParams \<Rightarrow> bytes result" where
  "derive_key s passphrase salt params =
     and_then (ok_or (argon2_params s (m_cost_kib params) (t_cost params) (p_cost params) (Some WRAPPED_KEY_BYTES))
       KdfOperation) (\<lambda>argon2.
     ok_or (argon2_hash s argon2 passphrase salt WRAPPED_KEY_BYTES) KdfOperation)"

definition wrap_bytes_with_params ::
  "storage_libs \<Rightarrow> bytes \<Rightarrow> bytes \<Rightarrow> Argon2idParams \<Rightarrow> rng \<Rightarrow> WrappedSecret result \<times> rng" where
  "wrap_bytes_with_params s passphrase plaintext params os =
     (let (salt, os) = fill_bytes WRAPPED_SALT_BYTES os;
          (nonce, os) = fill_bytes WRAPPED_NONCE_BYTES os
      in
      (and_then (derive_key s passphrase salt params) (\<lambda>key.
       if length key \<noteq> 32 then Err AeadOperation else
       and_then (ok_or (gcm_seal s key nonce STORAGE_AAD plaintext) AeadOperation) (\<lambda>ciphertext.
       Ok \<lparr>ws_kind = WRAPPED_KIND, ws_version = WRAPPED_VERSION, ws_kdf = WRAPPED_KDF, ws_aead = WRAPPED_AEAD,
           ws_kdf_params = params, ws_salt_b64 = b64_encode s salt, ws_nonce_b64 = b64_encode s nonce,
           ws_ciphertext_b64 = b64_encode s ciphertext\<rparr>)), os))"

definition wrap_bytes :: "storage_libs \<Rightarrow> bytes \<Rightarrow> bytes \<Rightarrow> rng \<Rightarrow> WrappedSecret result \<times> rng" where
  "wrap_bytes s passphrase plaintext os = wrap_bytes_with_params s passphrase plaintext default_argon2id_params os"

definition decode_base64_exact :: "storage_libs \<Rightarrow> string \<Rightarrow> rstr \<Rightarrow> usize \<Rightarrow> usize \<Rightarrow> bytes result" where
  "decode_base64_exact s fld value min_len max_len =
     and_then (ok_or (b64_decode s value) (InvalidStorageBase64 fld)) (\<lambda>decoded.
     if length decoded < min_len \<or> length decoded > max_len
     then Err (InvalidLength fld min_len (length decoded)) else Ok decoded)"

definition unwrap_bytes :: "storage_libs \<Rightarrow> bytes \<Rightarrow> WrappedSecret \<Rightarrow> bytes result" where
  "unwrap_bytes s passphrase wrapped =
     (if ws_kind wrapped \<noteq> WRAPPED_KIND then Err (InvalidStorageFormat ''kind'')
      else if ws_version wrapped \<noteq> WRAPPED_VERSION then Err (InvalidStorageFormat ''version'')
      else if ws_kdf wrapped \<noteq> WRAPPED_KDF then Err (InvalidStorageFormat ''kdf'')
      else if ws_aead wrapped \<noteq> WRAPPED_AEAD then Err (InvalidStorageFormat ''aead'')
      else
      and_then (decode_base64_exact s ''salt_b64'' (ws_salt_b64 wrapped) WRAPPED_SALT_BYTES WRAPPED_SALT_BYTES) (\<lambda>salt.
      and_then (decode_base64_exact s ''nonce_b64'' (ws_nonce_b64 wrapped) WRAPPED_NONCE_BYTES WRAPPED_NONCE_BYTES) (\<lambda>nonce.
      and_then (decode_base64_exact s ''ciphertext_b64'' (ws_ciphertext_b64 wrapped) 16 (2 ^ 30)) (\<lambda>ciphertext.
      and_then (derive_key s passphrase salt (ws_kdf_params wrapped)) (\<lambda>key.
      if length key \<noteq> 32 then Err AeadOperation else
      ok_or (gcm_open s key nonce STORAGE_AAD ciphertext) StorageDecryptionFailed)))))"

subsection \<open>What the component relies on\<close>

text \<open>
  Decoding base64 inverts encoding. AES-256-GCM encrypts messages up to its limit to a ciphertext
  with a 16 byte tag that decrypts under the same key, nonce and associated data, and decrypts
  nothing else. Argon2id fills the whole output buffer.
\<close>

definition gcm_max :: nat where "gcm_max = 2 ^ 36"

definition b64_ok :: "storage_libs \<Rightarrow> bool" where
  "b64_ok s \<longleftrightarrow> (\<forall>bs. b64_decode s (b64_encode s bs) = Some bs)"

definition gcm_ok :: "storage_libs \<Rightarrow> bool" where
  "gcm_ok s \<longleftrightarrow> (\<forall>key nonce aad msg. length key = 32 \<longrightarrow> length nonce = 12 \<longrightarrow> length msg \<le> gcm_max \<longrightarrow>
     (\<exists>ct. gcm_seal s key nonce aad msg = Some ct \<and> length ct = length msg + 16 \<and> gcm_open s key nonce aad ct = Some msg))"

definition gcm_exact :: "storage_libs \<Rightarrow> bool" where
  "gcm_exact s \<longleftrightarrow> (\<forall>key nonce aad ct msg. gcm_open s key nonce aad ct = Some msg \<longrightarrow> gcm_seal s key nonce aad msg = Some ct)"

definition argon2_ok :: "storage_libs \<Rightarrow> bool" where
  "argon2_ok s \<longleftrightarrow> (\<forall>p pw salt n key. argon2_hash s p pw salt n = Some key \<longrightarrow> length key = n)"

lemma wrapped_unwraps:
  assumes "b64_ok s" "gcm_ok s" "argon2_ok s" "length plaintext \<le> gcm_max"
    and "derive_key s passphrase (stake 16 os) params = Ok key"
  shows "\<exists>w. fst (wrap_bytes_with_params s passphrase plaintext params os) = Ok w
    \<and> unwrap_bytes s passphrase w =
        (if length plaintext + 16 \<le> 2 ^ 30 then Ok plaintext
         else Err (InvalidLength ''ciphertext_b64'' 16 (length plaintext + 16)))"
proof -
  have key: "length key = 32" using assms(3,5) by (auto simp: derive_key_def argon2_ok_def WRAPPED_KEY_BYTES_def)
  define nonce where "nonce = stake 12 (sdrop 16 os)"
  have "length nonce = 12" by (simp add: nonce_def)
  with key assms(2,4) obtain ct where ct: "gcm_seal s key nonce STORAGE_AAD plaintext = Some ct"
    "length ct = length plaintext + 16" "gcm_open s key nonce STORAGE_AAD ct = Some plaintext"
    unfolding gcm_ok_def by meson
  let ?w = "\<lparr>ws_kind = WRAPPED_KIND, ws_version = WRAPPED_VERSION, ws_kdf = WRAPPED_KDF, ws_aead = WRAPPED_AEAD,
           ws_kdf_params = params, ws_salt_b64 = b64_encode s (stake 16 os), ws_nonce_b64 = b64_encode s nonce,
           ws_ciphertext_b64 = b64_encode s ct\<rparr>"
  have "fst (wrap_bytes_with_params s passphrase plaintext params os) = Ok ?w"
    using assms(5) key ct(1)
    by (simp add: wrap_bytes_with_params_def fill_bytes_def Let_def nonce_def WRAPPED_SALT_BYTES_def WRAPPED_NONCE_BYTES_def)
  moreover have "decode_base64_exact s f (b64_encode s bs) lo hi =
      (if length bs < lo \<or> length bs > hi then Err (InvalidLength f lo (length bs)) else Ok bs)" for f bs lo hi
    using assms(1) by (simp add: decode_base64_exact_def b64_ok_def)
  then have "unwrap_bytes s passphrase ?w =
        (if length plaintext + 16 \<le> 2 ^ 30 then Ok plaintext
         else Err (InvalidLength ''ciphertext_b64'' 16 (length plaintext + 16)))"
    using assms(5) key ct \<open>length nonce = 12\<close>
    by (simp add: unwrap_bytes_def WRAPPED_SALT_BYTES_def WRAPPED_NONCE_BYTES_def)
  ultimately show ?thesis by blast
qed

text \<open>
  C31. A wrapped secret can be unwrapped up to a size limit. When the key derivation accepts the parameters, a
  secret wrapped under a passphrase is returned by unwrapping with the same passphrase, provided
  that its ciphertext has at most a gibibyte; wrapping accepts longer secrets too, and unwrapping
  then refuses them.
\<close>

theorem storage_roundtrip:
  assumes "b64_ok s" "gcm_ok s" "argon2_ok s" "length plaintext \<le> gcm_max"
    and "derive_key s passphrase (stake 16 os) params = Ok key"
  shows "\<exists>w. fst (wrap_bytes_with_params s passphrase plaintext params os) = Ok w
    \<and> unwrap_bytes s passphrase w =
        (if length plaintext + 16 \<le> 2 ^ 30 then Ok plaintext
         else Err (InvalidLength ''ciphertext_b64'' 16 (length plaintext + 16)))"
  using wrapped_unwraps [OF assms] .

definition toy_storage :: storage_libs where
  "toy_storage = \<lparr>argon2_params = (\<lambda>m t p n. if 8 * p \<le> m \<and> 1 \<le> t \<and> 1 \<le> p then Some (m, t, p, n) else None),
     argon2_hash = (\<lambda>_ pw salt n. Some (take n (pw @ salt @ replicate n 0))),
     gcm_seal = (\<lambda>key nonce aad msg. Some (msg @ take 16 (key @ replicate 16 0))),
     gcm_open = (\<lambda>key nonce aad ct. let msg = take (length ct - 16) ct in
        if ct = msg @ take 16 (key @ replicate 16 0) then Some msg else None),
     b64_encode = (\<lambda>bs. bs), b64_decode = (\<lambda>s. Some s)\<rparr>"

lemma toy_storage_ok: "b64_ok toy_storage" "gcm_ok toy_storage" "gcm_exact toy_storage" "argon2_ok toy_storage"
  by (auto simp: toy_storage_def b64_ok_def gcm_ok_def gcm_exact_def argon2_ok_def Let_def split: if_splits)

lemma toy_derive: "\<exists>key. derive_key toy_storage [1, 2] (stake 16 (sconst 0)) default_argon2id_params = Ok key"
  by (simp add: derive_key_def toy_storage_def default_argon2id_params_def)

theorem storage_roundtrip_witness:
  "\<exists>w. fst (wrap_bytes_with_params toy_storage [1, 2] [7, 8, 9] default_argon2id_params (sconst 0)) = Ok w
    \<and> unwrap_bytes toy_storage [1, 2] w = Ok [7, 8, 9]"
proof -
  obtain key where "derive_key toy_storage [1, 2] (stake 16 (sconst 0)) default_argon2id_params = Ok key" using toy_derive ..
  from storage_roundtrip [OF toy_storage_ok(1,2,4) _ this, of "[7, 8, 9]"] show ?thesis by (simp add: gcm_max_def)
qed

text \<open>
  C38. Unwrapping is exact. Whatever is returned for a wrapped secret is the plaintext whose encryption, under
  the key derived from the passphrase with the salt and the parameters that the wrapped secret
  carries, is its ciphertext; the four format fields have the values that wrapping writes.
\<close>

theorem unwrap_exact:
  assumes "gcm_exact s" "unwrap_bytes s passphrase w = Ok plaintext"
  shows "\<exists>salt nonce key ct. b64_decode s (ws_salt_b64 w) = Some salt \<and> length salt = 16
    \<and> b64_decode s (ws_nonce_b64 w) = Some nonce \<and> length nonce = 12
    \<and> b64_decode s (ws_ciphertext_b64 w) = Some ct
    \<and> derive_key s passphrase salt (ws_kdf_params w) = Ok key
    \<and> gcm_seal s key nonce STORAGE_AAD plaintext = Some ct
    \<and> ws_kind w = WRAPPED_KIND \<and> ws_version w = WRAPPED_VERSION \<and> ws_kdf w = WRAPPED_KDF \<and> ws_aead w = WRAPPED_AEAD"
  using assms
  by (auto simp: unwrap_bytes_def decode_base64_exact_def gcm_exact_def WRAPPED_SALT_BYTES_def WRAPPED_NONCE_BYTES_def
      split: if_splits)

theorem unwrap_exact_witness:
  "\<exists>w salt nonce key ct. unwrap_bytes toy_storage [1, 2] w = Ok [7, 8, 9]
    \<and> b64_decode toy_storage (ws_salt_b64 w) = Some salt \<and> b64_decode toy_storage (ws_nonce_b64 w) = Some nonce
    \<and> b64_decode toy_storage (ws_ciphertext_b64 w) = Some ct
    \<and> derive_key toy_storage [1, 2] salt (ws_kdf_params w) = Ok key \<and> gcm_seal toy_storage key nonce STORAGE_AAD [7, 8, 9] = Some ct"
proof -
  obtain key where "derive_key toy_storage [1, 2] (stake 16 (sconst 0)) default_argon2id_params = Ok key" using toy_derive ..
  from wrapped_unwraps [OF toy_storage_ok(1,2,4) _ this, of "[7, 8, 9]"]
  obtain w where "unwrap_bytes toy_storage [1, 2] w = Ok [7, 8, 9]" by (auto simp: gcm_max_def)
  from unwrap_exact [OF toy_storage_ok(3) this] this show ?thesis by blast
qed

end
