(* ===== verification/Safety_Number.thy ===== *)
theory Safety_Number
  imports Crypto Rust_Str
begin

text \<open>
  \<^verbatim>\<open>safety_number.rs\<close>: the numeric fingerprint of a pair of users and its QR payload, over the
  hash function of the parameter record \<open>crypto\<close>. A party is the triple of user identifier,
  X25519 key and ML-DSA key that the functions take for each side.
\<close>

unbundle bit_operations_syntax

definition FINGERPRINT_VERSION :: bytes where "FINGERPRINT_VERSION = [0x00, 0x01]"
definition HASH_ITERATIONS :: nat where "HASH_ITERATIONS = 5200"

definition fingerprint_start :: "crypto \<Rightarrow> rstr \<Rightarrow> bytes \<Rightarrow> bytes \<Rightarrow> bytes" where
  "fingerprint_start c user_id x25519_pub ml_dsa_pub = sha256 c (FINGERPRINT_VERSION @ user_id @ x25519_pub @ ml_dsa_pub)"

fun fingerprint_loop :: "crypto \<Rightarrow> bytes \<Rightarrow> bytes \<Rightarrow> nat \<Rightarrow> bytes \<Rightarrow> bytes" where
  "fingerprint_loop c x25519_pub ml_dsa_pub 0 hash = hash"
| "fingerprint_loop c x25519_pub ml_dsa_pub (Suc n) hash =
     fingerprint_loop c x25519_pub ml_dsa_pub n (sha256 c (hash @ x25519_pub @ ml_dsa_pub))"

definition iterated_fingerprint :: "crypto \<Rightarrow> rstr \<Rightarrow> bytes \<Rightarrow> bytes \<Rightarrow> bytes" where
  "iterated_fingerprint c user_id x25519_pub ml_dsa_pub =
     fingerprint_loop c x25519_pub ml_dsa_pub (HASH_ITERATIONS - 1) (fingerprint_start c user_id x25519_pub ml_dsa_pub)"

definition format_05 :: "nat \<Rightarrow> rstr" where
  "format_05 n = (let d = dec_digits n in replicate (5 - length d) 48 @ d)"

definition group_value :: "bytes \<Rightarrow> u64" where
  "group_value chunk = foldl (\<lambda>val b. push_bit 8 val OR ucast b) 0 chunk"

fun encode_groups :: "bool \<Rightarrow> bytes \<Rightarrow> rstr" where
  "encode_groups first (a # b # c # d # e # rest) =
     (if first then [] else [32]) @ format_05 (unat (group_value [a, b, c, d, e] mod 100000)) @ encode_groups False rest"
| "encode_groups first _ = []"

definition encode_numeric :: "bytes \<Rightarrow> rstr" where
  "encode_numeric data = encode_groups True data"

definition canonical_order ::
  "rstr \<times> bytes \<times> bytes \<Rightarrow> rstr \<times> bytes \<times> bytes \<Rightarrow> (rstr \<times> bytes \<times> bytes) \<times> (rstr \<times> bytes \<times> bytes)" where
  "canonical_order a b = (if str_le (fst a) (fst b) then (a, b) else (b, a))"

definition compute_safety_number :: "crypto \<Rightarrow> rstr \<Rightarrow> bytes \<Rightarrow> bytes \<Rightarrow> rstr \<Rightarrow> bytes \<Rightarrow> bytes \<Rightarrow> rstr" where
  "compute_safety_number c user_id_a x25519_pub_a ml_dsa_pub_a user_id_b x25519_pub_b ml_dsa_pub_b =
     (case canonical_order (user_id_a, x25519_pub_a, ml_dsa_pub_a) (user_id_b, x25519_pub_b, ml_dsa_pub_b) of
       ((id1, x1, m1), (id2, x2, m2)) \<Rightarrow>
      encode_numeric (take 30 (iterated_fingerprint c id1 x1 m1) @ take 30 (iterated_fingerprint c id2 x2 m2)))"

definition safety_number_qr_payload :: "crypto \<Rightarrow> rstr \<Rightarrow> bytes \<Rightarrow> bytes \<Rightarrow> rstr \<Rightarrow> bytes \<Rightarrow> bytes \<Rightarrow> bytes" where
  "safety_number_qr_payload c user_id_a x25519_pub_a ml_dsa_pub_a user_id_b x25519_pub_b ml_dsa_pub_b =
     (case canonical_order (user_id_a, x25519_pub_a, ml_dsa_pub_a) (user_id_b, x25519_pub_b, ml_dsa_pub_b) of
       ((id1, x1, m1), (id2, x2, m2)) \<Rightarrow>
      FINGERPRINT_VERSION @ iterated_fingerprint c id1 x1 m1 @ iterated_fingerprint c id2 x2 m2)"

subsection \<open>Symmetry\<close>

lemma canonical_order_swap: "fst a \<noteq> fst b \<Longrightarrow> canonical_order a b = canonical_order b a"
  using str_le_total [of "fst a" "fst b"] str_le_antisym [of "fst a" "fst b"] by (auto simp: canonical_order_def)

lemma canonical_order_same: "fst a = fst b \<Longrightarrow> canonical_order a b = (a, b)"
  by (simp add: canonical_order_def str_le_def)

lemma fingerprint_loop_length: "sha256_ok c \<Longrightarrow> length h = 32 \<Longrightarrow> length (fingerprint_loop c x m n h) = 32"
  by (induction n arbitrary: h) (simp_all add: sha256_ok_def)

lemma iterated_fingerprint_length [simp]: "sha256_ok c \<Longrightarrow> length (iterated_fingerprint c u x m) = 32"
  by (simp add: iterated_fingerprint_def fingerprint_start_def fingerprint_loop_length sha256_ok_def)

text \<open>
  C39. The safety number is symmetric for users with different identifiers: both sides compute the same number
  and the same QR payload. For equal identifiers the payload is symmetric only if the two
  fingerprints are equal, so a user who compares two devices of their own sees different payloads
  on the two sides.
\<close>

theorem safety_number_symmetric:
  assumes "sha256_ok c"
  shows "(ida \<noteq> idb \<longrightarrow> compute_safety_number c ida xa ma idb xb mb = compute_safety_number c idb xb mb ida xa ma)
    \<and> (safety_number_qr_payload c ida xa ma idb xb mb = safety_number_qr_payload c idb xb mb ida xa ma \<longleftrightarrow>
        ida \<noteq> idb \<or> iterated_fingerprint c ida xa ma = iterated_fingerprint c idb xb mb)"
proof (cases "ida = idb")
  case True
  then show ?thesis using assms
    by (auto simp: safety_number_qr_payload_def canonical_order_same append_eq_append_conv)
next
  case False
  then have "canonical_order (ida, xa, ma) (idb, xb, mb) = canonical_order (idb, xb, mb) (ida, xa, ma)"
    by (intro canonical_order_swap) simp
  with False show ?thesis by (simp add: safety_number_qr_payload_def compute_safety_number_def)
qed

theorem safety_number_symmetric_witness:
  "compute_safety_number toy_crypto [97] [1] [2] [98] [3] [4] = compute_safety_number toy_crypto [98] [3] [4] [97] [1] [2]"
  using safety_number_symmetric [OF toy_sha256_ok, of "[97]" "[98]" "[1]" "[2]" "[3]" "[4]"] by simp

subsection \<open>Format\<close>

lemma dec_digits_digit: "b \<in> set (dec_digits n) \<Longrightarrow> 48 \<le> b \<and> b \<le> 57"
proof (induction n rule: dec_digits.induct)
  case (1 n)
  have digit: "48 \<le> (of_nat (48 + k) :: u8) \<and> (of_nat (48 + k) :: u8) \<le> 57" if "k < 10" for k
    using that by (simp add: word_le_nat_alt del: of_nat_add)
  show ?case
  proof (cases "n < 10")
    case True
    with 1(2) digit [of n] show ?thesis by (simp add: dec_digits.simps [of n])
  next
    case False
    with 1 digit [of "n mod 10"] show ?thesis by (auto simp: dec_digits.simps [of n])
  qed
qed

lemma dec_digits_length: "n < 10 ^ k \<Longrightarrow> 0 < k \<Longrightarrow> length (dec_digits n) \<le> k"
proof (induction k arbitrary: n)
  case (Suc k)
  show ?case
  proof (cases "n < 10")
    case True
    then show ?thesis by (simp add: dec_digits.simps [of n])
  next
    case False
    with Suc.prems have "n div 10 < 10 ^ k" "0 < k" by (cases k; auto)+
    with Suc.IH False show ?thesis by (simp add: dec_digits.simps [of n])
  qed
qed simp

lemma format_05_shape:
  assumes "n < 100000"
  shows "length (format_05 n) = 5" "\<forall>b\<in>set (format_05 n). 48 \<le> b \<and> b \<le> 57"
  using dec_digits_length [of n 5] assms dec_digits_digit [of _ n] by (auto simp: format_05_def Let_def)

lemma group_mod_less: "unat (v mod 100000 :: u64) < 100000"
  by (simp add: unat_mod)

fun numeric_shape :: "nat \<Rightarrow> rstr \<Rightarrow> bool" where
  "numeric_shape 0 s \<longleftrightarrow> s = []"
| "numeric_shape (Suc n) s \<longleftrightarrow> length s \<ge> 5 \<and> list_all (\<lambda>b. 48 \<le> b \<and> b \<le> 57) (take 5 s)
     \<and> (if n = 0 then length s = 5 else length s > 5 \<and> s ! 5 = 32 \<and> numeric_shape n (drop 6 s))"

lemma encode_groups_shape:
  "length data = 5 * Suc n \<Longrightarrow> numeric_shape (Suc n) (encode_groups True data)
     \<and> encode_groups False data = 32 # encode_groups True data"
proof (induction n arbitrary: data)
  case 0
  then obtain a b c d e where "data = [a, b, c, d, e]" by (auto simp: length_Suc_conv eval_nat_numeral)
  then show ?case using format_05_shape [OF group_mod_less, of "group_value [a, b, c, d, e]"] by (simp add: list_all_iff)
next
  case (Suc n)
  then obtain a b c d e rest where d: "data = a # b # c # d # e # rest" "length rest = 5 * Suc n"
    by (auto simp: length_Suc_conv eval_nat_numeral)
  show ?case using Suc.IH [OF d(2)] format_05_shape [OF group_mod_less, of "group_value [a, b, c, d, e]"]
    by (simp add: d(1) list_all_iff nth_append)
qed

text \<open>
  C40. The shape of a safety number: twelve groups of five decimal digits, separated by single spaces; the QR
  payload has 66 bytes and starts with the version.
\<close>

theorem safety_number_shape:
  assumes "sha256_ok c"
  shows "numeric_shape 12 (compute_safety_number c ida xa ma idb xb mb)
    \<and> length (safety_number_qr_payload c ida xa ma idb xb mb) = 66
    \<and> take 2 (safety_number_qr_payload c ida xa ma idb xb mb) = FINGERPRINT_VERSION"
proof -
  have "numeric_shape (Suc 11) (encode_numeric (take 30 (iterated_fingerprint c u x m) @ take 30 (iterated_fingerprint c u' x' m')))"
    for u x m u' x' m' unfolding encode_numeric_def using encode_groups_shape [of _ 11] assms by simp
  then have "numeric_shape 12 (compute_safety_number c ida xa ma idb xb mb)"
    by (simp add: compute_safety_number_def split: prod.split del: numeric_shape.simps)
  then show ?thesis using assms by (simp add: safety_number_qr_payload_def FINGERPRINT_VERSION_def split: prod.split)
qed

theorem safety_number_shape_witness:
  "numeric_shape 12 (compute_safety_number toy_crypto [97] [1] [2] [98] [3] [4])
    \<and> length (safety_number_qr_payload toy_crypto [97] [1] [2] [98] [3] [4]) = 66"
  using safety_number_shape [OF toy_sha256_ok, of "[97]" "[1]" "[2]" "[98]" "[3]" "[4]"] by blast

end
