(* ===== verification/Private_Groups.thy ===== *)
theory Private_Groups
  imports Pq_Sig Rust_Str
begin

text \<open>
  \<^verbatim>\<open>groups.rs\<close>: private groups. The state of a group and its operations, the member credentials, the
  encrypted snapshots, invitations and messages. A \<^verbatim>\<open>BTreeMap\<close> is its ascending list of entries and
  \<^verbatim>\<open>sort_by\<close> an insertion sort, which is stable as the library's. The JSON form of a join package is
  a parameter, \<open>json_codec\<close>. Functions that draw from the caller's generator take and return its
  stream; the signature provider draws from a second stream. A \<^verbatim>\<open>&mut self\<close> operation returns the
  new state with its result; on an error the state is unchanged.
\<close>

unbundle bit_operations_syntax

definition GROUP_ID_BYTES :: usize where "GROUP_ID_BYTES = 16"
definition ROOT_SECRET_BYTES :: usize where "ROOT_SECRET_BYTES = 32"
definition MEMBER_CREDENTIAL_SECRET_BYTES :: usize where "MEMBER_CREDENTIAL_SECRET_BYTES = 32"
definition SNAPSHOT_AAD_LABEL :: rstr where "SNAPSHOT_AAD_LABEL = str_bytes ''pqmsg-private-group-snapshot-v1''"
definition MEMBER_CREDENTIAL_HANDLE_LABEL :: rstr where
  "MEMBER_CREDENTIAL_HANDLE_LABEL = str_bytes ''pqmsg-private-group-member-handle-v1''"
definition MEMBER_CREDENTIAL_COMMITMENT_LABEL :: rstr where
  "MEMBER_CREDENTIAL_COMMITMENT_LABEL = str_bytes ''pqmsg-private-group-member-commitment-v1''"
definition MEMBER_CREDENTIAL_FETCH_KEY_LABEL :: rstr where
  "MEMBER_CREDENTIAL_FETCH_KEY_LABEL = str_bytes ''pqmsg-private-group-member-fetch-key-v1''"
definition MEMBER_CREDENTIAL_PUBLISH_KEY_LABEL :: rstr where
  "MEMBER_CREDENTIAL_PUBLISH_KEY_LABEL = str_bytes ''pqmsg-private-group-member-publish-key-v1''"
definition GROUP_MESSAGE_KEY_LABEL :: rstr where "GROUP_MESSAGE_KEY_LABEL = str_bytes ''pqmsg-private-group-message-key-v1''"
definition GROUP_INVITE_LINK_KEY_LABEL :: rstr where
  "GROUP_INVITE_LINK_KEY_LABEL = str_bytes ''pqmsg-private-group-link-invite-v1''"
definition GROUP_MESSAGE_AAD_LABEL :: rstr where "GROUP_MESSAGE_AAD_LABEL = str_bytes ''pqmsg-private-group-message-aad-v1''"
definition GROUP_MESSAGE_SIGNATURE_LABEL :: rstr where
  "GROUP_MESSAGE_SIGNATURE_LABEL = str_bytes ''pqmsg-private-group-message-signature-v1''"
definition TLV_OWNER_USER_ID :: u16 where "TLV_OWNER_USER_ID = critical_type 0x3001"
definition TLV_GROUP_TITLE :: u16 where "TLV_GROUP_TITLE = critical_type 0x3002"
definition TLV_GROUP_DESCRIPTION :: u16 where "TLV_GROUP_DESCRIPTION = 0x3003"
definition TLV_GROUP_AVATAR_HASH :: u16 where "TLV_GROUP_AVATAR_HASH = 0x3004"
definition TLV_GROUP_TIMER_SECONDS :: u16 where "TLV_GROUP_TIMER_SECONDS = 0x3005"
definition TLV_GROUP_CREATED_AT :: u16 where "TLV_GROUP_CREATED_AT = critical_type 0x3006"
definition TLV_GROUP_UPDATED_AT :: u16 where "TLV_GROUP_UPDATED_AT = critical_type 0x3007"
definition TLV_GROUP_MEMBERS :: u16 where "TLV_GROUP_MEMBERS = critical_type 0x3008"
definition TLV_GROUP_MESSAGE_LABEL :: u16 where "TLV_GROUP_MESSAGE_LABEL = critical_type 0x3010"
definition TLV_GROUP_MESSAGE_GROUP_ID :: u16 where "TLV_GROUP_MESSAGE_GROUP_ID = critical_type 0x3011"
definition TLV_GROUP_MESSAGE_EPOCH :: u16 where "TLV_GROUP_MESSAGE_EPOCH = critical_type 0x3012"
definition TLV_GROUP_MESSAGE_SENDER_USER_ID :: u16 where "TLV_GROUP_MESSAGE_SENDER_USER_ID = critical_type 0x3013"
definition TLV_GROUP_MESSAGE_SENT_AT :: u16 where "TLV_GROUP_MESSAGE_SENT_AT = critical_type 0x3014"
definition TLV_GROUP_MESSAGE_NONCE :: u16 where "TLV_GROUP_MESSAGE_NONCE = critical_type 0x3015"
definition TLV_GROUP_MESSAGE_CIPHERTEXT :: u16 where "TLV_GROUP_MESSAGE_CIPHERTEXT = critical_type 0x3016"
definition TLV_GROUP_MESSAGE_AAD :: u16 where "TLV_GROUP_MESSAGE_AAD = critical_type 0x3017"

lemma group_tags [tag_simps]:
  "TLV_OWNER_USER_ID = 0xB001" "TLV_GROUP_TITLE = 0xB002" "TLV_GROUP_DESCRIPTION = 0x3003" "TLV_GROUP_AVATAR_HASH = 0x3004"
  "TLV_GROUP_TIMER_SECONDS = 0x3005" "TLV_GROUP_CREATED_AT = 0xB006" "TLV_GROUP_UPDATED_AT = 0xB007" "TLV_GROUP_MEMBERS = 0xB008"
  "TLV_GROUP_MESSAGE_LABEL = 0xB010" "TLV_GROUP_MESSAGE_GROUP_ID = 0xB011" "TLV_GROUP_MESSAGE_EPOCH = 0xB012"
  "TLV_GROUP_MESSAGE_SENDER_USER_ID = 0xB013" "TLV_GROUP_MESSAGE_SENT_AT = 0xB014" "TLV_GROUP_MESSAGE_NONCE = 0xB015"
  "TLV_GROUP_MESSAGE_CIPHERTEXT = 0xB016" "TLV_GROUP_MESSAGE_AAD = 0xB017"
  by (simp_all add: TLV_OWNER_USER_ID_def TLV_GROUP_TITLE_def TLV_GROUP_DESCRIPTION_def TLV_GROUP_AVATAR_HASH_def
      TLV_GROUP_TIMER_SECONDS_def TLV_GROUP_CREATED_AT_def TLV_GROUP_UPDATED_AT_def TLV_GROUP_MEMBERS_def
      TLV_GROUP_MESSAGE_LABEL_def TLV_GROUP_MESSAGE_GROUP_ID_def TLV_GROUP_MESSAGE_EPOCH_def
      TLV_GROUP_MESSAGE_SENDER_USER_ID_def TLV_GROUP_MESSAGE_SENT_AT_def TLV_GROUP_MESSAGE_NONCE_def
      TLV_GROUP_MESSAGE_CIPHERTEXT_def TLV_GROUP_MESSAGE_AAD_def critical_type_def CRITICAL_BIT_def)

definition KNOWN_GROUP_PAYLOAD_TYPES :: "u16 list" where
  "KNOWN_GROUP_PAYLOAD_TYPES = [TLV_OWNER_USER_ID, TLV_GROUP_TITLE, TLV_GROUP_DESCRIPTION, TLV_GROUP_AVATAR_HASH,
     TLV_GROUP_TIMER_SECONDS, TLV_GROUP_CREATED_AT, TLV_GROUP_UPDATED_AT, TLV_GROUP_MEMBERS]"

subsection \<open>Data\<close>

record PrivateGroupAttributes =
  ga_title :: rstr
  ga_description :: "rstr option"
  ga_avatar_hash_sha256 :: "rstr option"
  ga_disappearing_message_timer_seconds :: "u32 option"

datatype PrivateGroupRole = Owner | Admin | Member

fun role_to_byte :: "PrivateGroupRole \<Rightarrow> u8" where
  "role_to_byte Owner = 1"
| "role_to_byte Admin = 2"
| "role_to_byte Member = 3"

definition role_from_byte :: "u8 \<Rightarrow> PrivateGroupRole result" where
  "role_from_byte value = (if value = 1 then Ok Owner else if value = 2 then Ok Admin else if value = 3 then Ok Member
     else Err (MessageParsing ''invalid private group role''))"

fun role_rank :: "PrivateGroupRole \<Rightarrow> u8" where
  "role_rank Owner = 0"
| "role_rank Admin = 1"
| "role_rank Member = 2"

record PrivateGroupMember =
  gm_user_id :: rstr
  gm_role :: PrivateGroupRole

record PrivateGroupEncryptedSnapshot =
  sn_group_id :: rstr
  sn_epoch :: u64
  sn_state_commitment_sha256 :: bytes
  sn_ciphertext :: CiphertextEnvelope

record PrivateGroupInvitePackage =
  inv_group_id :: rstr
  inv_epoch :: u64
  inv_root_secret :: bytes
  inv_snapshot :: PrivateGroupEncryptedSnapshot

record PrivateGroupMemberCredential =
  mc_group_id :: rstr
  mc_epoch :: u64
  mc_member_user_id :: rstr
  mc_role :: PrivateGroupRole
  mc_credential_secret :: bytes

record PrivateGroupJoinPackage =
  jp_invite :: PrivateGroupInvitePackage
  jp_member_credential :: PrivateGroupMemberCredential

record PrivateGroupLinkInviteEnvelope =
  li_group_id :: rstr
  li_epoch :: u64
  li_invite_commitment_sha256 :: bytes
  li_ciphertext :: CiphertextEnvelope

record PrivateGroupLinkInviteMaterial =
  lm_invite_secret :: bytes
  lm_envelope :: PrivateGroupLinkInviteEnvelope

record PrivateGroupEncryptedMessage =
  em_group_id :: rstr
  em_epoch :: u64
  em_sender_user_id :: rstr
  em_sent_at_unix_ms :: u64
  em_ciphertext :: CiphertextEnvelope
  em_sender_hybrid_signature :: bytes

record PrivateGroupDecryptedMessage =
  dm_group_id :: rstr
  dm_epoch :: u64
  dm_sender_user_id :: rstr
  dm_sent_at_unix_ms :: u64
  dm_body :: rstr

record PrivateGroupState =
  gs_group_id :: rstr
  gs_epoch :: u64
  gs_root_secret :: bytes
  gs_attributes :: PrivateGroupAttributes
  gs_members :: "PrivateGroupMember list"
  gs_created_at_unix_seconds :: u64
  gs_updated_at_unix_seconds :: u64

record PrivateGroupEpochTransition =
  et_next_state :: PrivateGroupState
  et_member_credentials :: "PrivateGroupMemberCredential list"
  et_added_member_join_package :: "PrivateGroupJoinPackage option"

subsection \<open>Validation and member lists\<close>

definition validate_group_attributes :: "PrivateGroupAttributes \<Rightarrow> unit result" where
  "validate_group_attributes attributes =
     (if trim (ga_title attributes) = [] then Err (PolicyViolation ''private group title cannot be blank'')
      else case ga_avatar_hash_sha256 attributes of
          Some hash \<Rightarrow>
            let normalized = trim hash in
            if \<not> (length normalized = 64 \<and> list_all is_ascii_hexdigit normalized)
            then Err (PolicyViolation ''private group avatar hash must be a 64-character hex SHA-256'')
            else Ok ()
        | None \<Rightarrow> Ok ())"

definition validate_user_id :: "rstr \<Rightarrow> unit result" where
  "validate_user_id user_id =
     (if trim user_id = [] then Err (PolicyViolation ''private group member user_id cannot be blank'') else Ok ())"

fun upsert_role :: "rstr \<Rightarrow> PrivateGroupRole \<Rightarrow> PrivateGroupMember list \<Rightarrow> PrivateGroupMember list" where
  "upsert_role user next_role [] = [\<lparr>gm_user_id = user, gm_role = next_role\<rparr>]"
| "upsert_role user next_role (m # ms) =
     (if user = gm_user_id m
      then (if role_rank next_role < role_rank (gm_role m) then m\<lparr>gm_role := next_role\<rparr> else m) # ms
      else if str_less user (gm_user_id m) then \<lparr>gm_user_id = user, gm_role = next_role\<rparr> # m # ms
      else m # upsert_role user next_role ms)"

fun normalize_loop ::
  "rstr \<Rightarrow> PrivateGroupMember list \<Rightarrow> PrivateGroupMember list \<Rightarrow> PrivateGroupMember list result" where
  "normalize_loop owner_user_id [] acc = Ok acc"
| "normalize_loop owner_user_id (m # ms) acc =
     and_then (validate_user_id (gm_user_id m)) (\<lambda>_.
     normalize_loop owner_user_id ms
       (upsert_role (gm_user_id m) (if gm_user_id m = owner_user_id then Owner else gm_role m) acc))"

definition normalize_members :: "rstr \<Rightarrow> PrivateGroupMember list \<Rightarrow> PrivateGroupMember list result" where
  "normalize_members owner_user_id initial_members =
     and_then (validate_user_id owner_user_id) (\<lambda>_.
     normalize_loop owner_user_id initial_members [\<lparr>gm_user_id = owner_user_id, gm_role = Owner\<rparr>])"

fun insort_member :: "PrivateGroupMember \<Rightarrow> PrivateGroupMember list \<Rightarrow> PrivateGroupMember list" where
  "insort_member m [] = [m]"
| "insort_member m (x # xs) = (if str_le (gm_user_id m) (gm_user_id x) then m # x # xs else x # insort_member m xs)"

definition sort_members :: "PrivateGroupMember list \<Rightarrow> PrivateGroupMember list" where
  "sort_members ms = foldr insort_member ms []"

definition find_member :: "rstr \<Rightarrow> PrivateGroupMember list \<Rightarrow> PrivateGroupMember option" where
  "find_member user ms = find (\<lambda>m. gm_user_id m = user) ms"

fun set_role :: "rstr \<Rightarrow> PrivateGroupRole \<Rightarrow> PrivateGroupMember list \<Rightarrow> PrivateGroupMember list" where
  "set_role user role [] = []"
| "set_role user role (m # ms) =
     (if gm_user_id m = user then m\<lparr>gm_role := role\<rparr> # ms else m # set_role user role ms)"

definition owner_user_id :: "PrivateGroupState \<Rightarrow> rstr" where
  "owner_user_id s = (case find (\<lambda>m. gm_role m = Owner) (gs_members s) of Some m \<Rightarrow> gm_user_id m | None \<Rightarrow> [])"

definition bump_epoch :: "u64 \<Rightarrow> PrivateGroupState \<Rightarrow> PrivateGroupState" where
  "bump_epoch updated_at s =
     s\<lparr>gs_epoch := (if gs_epoch s = u64_MAX then u64_MAX else gs_epoch s + 1), gs_updated_at_unix_seconds := updated_at\<rparr>"

subsection \<open>The state and its changes\<close>

definition hex_digit :: "u8 \<Rightarrow> u8" where
  "hex_digit d = (if d < 10 then 0x30 + d else 0x57 + d)"

definition hex_encode :: "bytes \<Rightarrow> rstr" where
  "hex_encode input = concat (map (\<lambda>b. [hex_digit (drop_bit 4 b), hex_digit (b AND 0x0F)]) input)"

definition group_new_with_rng ::
  "rstr \<Rightarrow> PrivateGroupAttributes \<Rightarrow> PrivateGroupMember list \<Rightarrow> u64 \<Rightarrow> rng \<Rightarrow> PrivateGroupState result \<times> rng" where
  "group_new_with_rng owner attributes initial_members created_at rng =
     (case and_then (validate_group_attributes attributes) (\<lambda>_. normalize_members owner initial_members) of
        Inl e \<Rightarrow> (Err e, rng)
      | Inr normalized_members \<Rightarrow>
          let (group_id_bytes, rng) = fill_bytes GROUP_ID_BYTES rng;
              (root_secret, rng) = fill_bytes ROOT_SECRET_BYTES rng
          in (Ok \<lparr>gs_group_id = hex_encode group_id_bytes, gs_epoch = 1, gs_root_secret = root_secret,
                 gs_attributes = attributes, gs_members = normalized_members,
                 gs_created_at_unix_seconds = created_at, gs_updated_at_unix_seconds = created_at\<rparr>, rng))"

definition add_member :: "PrivateGroupState \<Rightarrow> rstr \<Rightarrow> PrivateGroupRole \<Rightarrow> u64 \<Rightarrow> (bool \<times> PrivateGroupState) result" where
  "add_member s user role updated_at =
     and_then (validate_user_id user) (\<lambda>_.
     let next_role = (if user = owner_user_id s then Owner else role) in
     case find_member user (gs_members s) of
       Some existing \<Rightarrow>
         if gm_role existing = next_role then Ok (False, s)
         else Ok (True, bump_epoch updated_at (s\<lparr>gs_members := set_role user next_role (gs_members s)\<rparr>))
     | None \<Rightarrow>
         Ok (True, bump_epoch updated_at
           (s\<lparr>gs_members := sort_members (gs_members s @ [\<lparr>gm_user_id = user, gm_role = next_role\<rparr>])\<rparr>)))"

definition remove_member :: "PrivateGroupState \<Rightarrow> rstr \<Rightarrow> u64 \<Rightarrow> (bool \<times> PrivateGroupState) result" where
  "remove_member s user updated_at =
     (if user = owner_user_id s then Err (PolicyViolation ''private group owner cannot be removed'')
      else let members = filter (\<lambda>m. gm_user_id m \<noteq> user) (gs_members s) in
        if length members = length (gs_members s) then Ok (False, s\<lparr>gs_members := members\<rparr>)
        else Ok (True, bump_epoch updated_at (s\<lparr>gs_members := members\<rparr>)))"

definition update_attributes ::
  "PrivateGroupState \<Rightarrow> PrivateGroupAttributes \<Rightarrow> u64 \<Rightarrow> (bool \<times> PrivateGroupState) result" where
  "update_attributes s attributes updated_at =
     and_then (validate_group_attributes attributes) (\<lambda>_.
     if gs_attributes s = attributes then Ok (False, s)
     else Ok (True, bump_epoch updated_at (s\<lparr>gs_attributes := attributes\<rparr>)))"

definition member_count :: "PrivateGroupState \<Rightarrow> usize" where
  "member_count s = length (gs_members s)"

subsection \<open>Credentials\<close>

definition issue_member_credential_with_rng ::
  "PrivateGroupState \<Rightarrow> rstr \<Rightarrow> PrivateGroupRole \<Rightarrow> rng \<Rightarrow> PrivateGroupMemberCredential result \<times> rng" where
  "issue_member_credential_with_rng s member_user_id role rng =
     (case validate_user_id member_user_id of
        Inl e \<Rightarrow> (Err e, rng)
      | Inr _ \<Rightarrow>
          let (credential_secret, rng) = fill_bytes MEMBER_CREDENTIAL_SECRET_BYTES rng
          in (Ok \<lparr>mc_group_id = gs_group_id s, mc_epoch = gs_epoch s, mc_member_user_id = member_user_id,
                 mc_role = (if member_user_id = owner_user_id s then Owner else role),
                 mc_credential_secret = credential_secret\<rparr>, rng))"

fun issue_for_members ::
  "PrivateGroupState \<Rightarrow> PrivateGroupMember list \<Rightarrow> rng \<Rightarrow> PrivateGroupMemberCredential list result \<times> rng" where
  "issue_for_members s [] rng = (Ok [], rng)"
| "issue_for_members s (m # ms) rng =
     (case issue_member_credential_with_rng s (gm_user_id m) (gm_role m) rng of
        (Inl e, rng) \<Rightarrow> (Err e, rng)
      | (Inr cred, rng) \<Rightarrow>
     (case issue_for_members s ms rng of
        (Inl e, rng) \<Rightarrow> (Err e, rng)
      | (Inr creds, rng) \<Rightarrow> (Ok (cred # creds), rng)))"

definition issue_member_credentials_for_all_members_with_rng ::
  "PrivateGroupState \<Rightarrow> rng \<Rightarrow> PrivateGroupMemberCredential list result \<times> rng" where
  "issue_member_credentials_for_all_members_with_rng s rng = issue_for_members s (gs_members s) rng"

definition membership_handle_sha256 :: "crypto \<Rightarrow> PrivateGroupMemberCredential \<Rightarrow> bytes" where
  "membership_handle_sha256 c mc = sha256 c (MEMBER_CREDENTIAL_HANDLE_LABEL @ mc_group_id mc @ u64_to_be_bytes (mc_epoch mc)
     @ [role_to_byte (mc_role mc)] @ mc_credential_secret mc)"

definition member_commitment_sha256 :: "crypto \<Rightarrow> PrivateGroupMemberCredential \<Rightarrow> bytes" where
  "member_commitment_sha256 c mc = sha256 c (MEMBER_CREDENTIAL_COMMITMENT_LABEL @ mc_group_id mc @ u64_to_be_bytes (mc_epoch mc)
     @ mc_member_user_id mc @ [role_to_byte (mc_role mc)] @ mc_credential_secret mc)"

definition colon :: rstr where "colon = [0x3A]"

definition state_fetch_key :: "crypto \<Rightarrow> PrivateGroupMemberCredential \<Rightarrow> bytes result" where
  "state_fetch_key c mc = hkdf_sha256_32 c (mc_credential_secret mc) None
     (MEMBER_CREDENTIAL_FETCH_KEY_LABEL @ colon @ mc_group_id mc @ colon @ dec_digits (unat (mc_epoch mc)) @ colon
      @ mc_member_user_id mc)"

definition state_publish_key :: "crypto \<Rightarrow> PrivateGroupMemberCredential \<Rightarrow> bytes option result" where
  "state_publish_key c mc =
     (if mc_role mc = Member then Ok None
      else and_then (hkdf_sha256_32 c (mc_credential_secret mc) None
        (MEMBER_CREDENTIAL_PUBLISH_KEY_LABEL @ colon @ mc_group_id mc @ colon @ dec_digits (unat (mc_epoch mc)) @ colon
         @ mc_member_user_id mc)) (\<lambda>key. Ok (Some key)))"

subsection \<open>The payload of a snapshot\<close>

fun encode_member_list :: "PrivateGroupMember list \<Rightarrow> bytes \<Rightarrow> bytes result" where
  "encode_member_list [] encoded = Ok encoded"
| "encode_member_list (m # ms) encoded =
     and_then (validate_user_id (gm_user_id m)) (\<lambda>_.
     if length (gm_user_id m) > u16_MAX
     then Err (InvalidLength ''private_group.member.user_id'' u16_MAX (length (gm_user_id m)))
     else encode_member_list ms (encoded @ u16_to_be_bytes (of_nat (length (gm_user_id m))) @ gm_user_id m
       @ [role_to_byte (gm_role m)]))"

definition encode_members :: "PrivateGroupMember list \<Rightarrow> bytes result" where
  "encode_members members =
     (if length members > u16_MAX then Err (InvalidLength ''private_group.members'' u16_MAX (length members))
      else encode_member_list members (u16_to_be_bytes (of_nat (length members))))"

definition decode_utf8_field :: "bytes \<Rightarrow> rstr result" where
  "decode_utf8_field value = from_utf8 value (InvalidUtf8 ''private_group_field'')"

definition decode_u64_field :: "bytes \<Rightarrow> u64 result" where
  "decode_u64_field value = (if length value = 8 then Ok (u64_from_be_bytes value)
     else Err (InvalidLength ''private_group_u64'' 8 (length value)))"

definition decode_u32_field :: "bytes \<Rightarrow> u32 result" where
  "decode_u32_field value = (if length value = 4 then Ok (u32_from_be_bytes value)
     else Err (InvalidLength ''private_group_u32'' 4 (length value)))"

fun decode_member_list :: "bytes \<Rightarrow> nat \<Rightarrow> usize \<Rightarrow> PrivateGroupMember list \<Rightarrow> PrivateGroupMember list result" where
  "decode_member_list input 0 cursor members =
     (if cursor \<noteq> length input then Err (MessageParsing ''private group members payload has trailing bytes'') else Ok members)"
| "decode_member_list input (Suc n) cursor members =
     (if length input - cursor < 3 then Err (MessageParsing ''private group member entry truncated'') else
      let user_id_len = unat (u16_from_be_bytes [input ! cursor, input ! (cursor + 1)]);
          cursor = cursor + 2
      in if length input - cursor < user_id_len + 1 then Err (MessageParsing ''private group member user_id truncated'')
         else and_then (decode_utf8_field (take user_id_len (drop cursor input))) (\<lambda>user_id.
         let cursor = cursor + user_id_len in
         and_then (role_from_byte (input ! cursor)) (\<lambda>role.
         decode_member_list input n (cursor + 1) (members @ [\<lparr>gm_user_id = user_id, gm_role = role\<rparr>]))))"

definition decode_members :: "bytes \<Rightarrow> PrivateGroupMember list result" where
  "decode_members input =
     (if length input < 2 then Err (MessageParsing ''private group members payload truncated'')
      else decode_member_list input (unat (u16_from_be_bytes [input ! 0, input ! 1])) 2 [])"

definition group_payload_records :: "PrivateGroupState \<Rightarrow> bytes \<Rightarrow> TlvRecord list" where
  "group_payload_records s encoded_members =
     [tlv TLV_OWNER_USER_ID (owner_user_id s),
      tlv TLV_GROUP_TITLE (ga_title (gs_attributes s)),
      tlv TLV_GROUP_CREATED_AT (u64_to_be_bytes (gs_created_at_unix_seconds s)),
      tlv TLV_GROUP_UPDATED_AT (u64_to_be_bytes (gs_updated_at_unix_seconds s)),
      tlv TLV_GROUP_MEMBERS encoded_members]
     @ push_opt TLV_GROUP_DESCRIPTION (ga_description (gs_attributes s))
     @ push_opt TLV_GROUP_AVATAR_HASH (ga_avatar_hash_sha256 (gs_attributes s))
     @ push_opt TLV_GROUP_TIMER_SECONDS (map_option u32_to_be_bytes (ga_disappearing_message_timer_seconds (gs_attributes s)))"

definition encode_group_payload :: "PrivateGroupState \<Rightarrow> bytes result" where
  "encode_group_payload s =
     and_then (encode_members (gs_members s)) (\<lambda>encoded_members. encode (group_payload_records s encoded_members))"

definition find_value :: "TlvRecord list \<Rightarrow> u16 \<Rightarrow> bytes option" where
  "find_value records ty = map_option rec_value (find (\<lambda>r. rec_ty r = ty) records)"

definition decode_group_payload :: "rstr \<Rightarrow> u64 \<Rightarrow> bytes \<Rightarrow> bytes \<Rightarrow> PrivateGroupState result" where
  "decode_group_payload group_id epoch root_secret payload =
     and_then (decode_strict payload KNOWN_GROUP_PAYLOAD_TYPES) (\<lambda>records.
     and_then (require records TLV_OWNER_USER_ID ''group.owner_user_id'') (\<lambda>v.
     and_then (decode_utf8_field v) (\<lambda>owner.
     and_then (require records TLV_GROUP_TITLE ''group.title'') (\<lambda>v.
     and_then (decode_utf8_field v) (\<lambda>title.
     and_then (require records TLV_GROUP_CREATED_AT ''group.created_at_unix_seconds'') (\<lambda>v.
     and_then (decode_u64_field v) (\<lambda>created_at.
     and_then (require records TLV_GROUP_UPDATED_AT ''group.updated_at_unix_seconds'') (\<lambda>v.
     and_then (decode_u64_field v) (\<lambda>updated_at.
     and_then (transpose_opt (map_option decode_utf8_field (find_value records TLV_GROUP_DESCRIPTION))) (\<lambda>description.
     and_then (transpose_opt (map_option decode_utf8_field (find_value records TLV_GROUP_AVATAR_HASH))) (\<lambda>avatar_hash.
     and_then (transpose_opt (map_option decode_u32_field (find_value records TLV_GROUP_TIMER_SECONDS))) (\<lambda>timer.
     and_then (require records TLV_GROUP_MEMBERS ''group.members'') (\<lambda>v.
     and_then (decode_members v) (\<lambda>members.
     and_then (normalize_members owner members) (\<lambda>normalized_members.
     let attributes = \<lparr>ga_title = title, ga_description = description, ga_avatar_hash_sha256 = avatar_hash,
           ga_disappearing_message_timer_seconds = timer\<rparr> in
     and_then (validate_group_attributes attributes) (\<lambda>_.
     Ok \<lparr>gs_group_id = group_id, gs_epoch = epoch, gs_root_secret = root_secret, gs_attributes = attributes,
         gs_members = normalized_members, gs_created_at_unix_seconds = created_at,
         gs_updated_at_unix_seconds = updated_at\<rparr>))))))))))))))))"

subsection \<open>Keys and associated data\<close>

definition derive_link_invite_key :: "crypto \<Rightarrow> bytes \<Rightarrow> rstr \<Rightarrow> u64 \<Rightarrow> bytes result" where
  "derive_link_invite_key c invite_secret group_id epoch =
     hkdf_sha256_32 c invite_secret None (GROUP_INVITE_LINK_KEY_LABEL @ colon @ group_id @ colon @ dec_digits (unat epoch))"

definition derive_message_key :: "crypto \<Rightarrow> bytes \<Rightarrow> rstr \<Rightarrow> u64 \<Rightarrow> bytes result" where
  "derive_message_key c root_secret group_id epoch =
     hkdf_sha256_32 c root_secret None (GROUP_MESSAGE_KEY_LABEL @ colon @ group_id @ colon @ dec_digits (unat epoch))"

definition derive_snapshot_key :: "crypto \<Rightarrow> bytes \<Rightarrow> rstr \<Rightarrow> u64 \<Rightarrow> bytes result" where
  "derive_snapshot_key c root_secret group_id epoch =
     hkdf_sha256_32 c root_secret None
       (SNAPSHOT_AAD_LABEL @ str_bytes '':key:'' @ group_id @ colon @ dec_digits (unat epoch))"

definition link_invite_aad :: "rstr \<Rightarrow> u64 \<Rightarrow> bytes" where
  "link_invite_aad group_id epoch = GROUP_INVITE_LINK_KEY_LABEL @ group_id @ u64_to_be_bytes epoch"

definition message_aad :: "rstr \<Rightarrow> u64 \<Rightarrow> rstr \<Rightarrow> u64 \<Rightarrow> bytes" where
  "message_aad group_id epoch sender_user_id sent_at =
     GROUP_MESSAGE_AAD_LABEL @ group_id @ u64_to_be_bytes epoch @ sender_user_id @ u64_to_be_bytes sent_at"

definition snapshot_aad :: "rstr \<Rightarrow> u64 \<Rightarrow> bytes" where
  "snapshot_aad group_id epoch = SNAPSHOT_AAD_LABEL @ colon @ group_id @ colon @ dec_digits (unat epoch)"

subsection \<open>Snapshots and invitations\<close>

text \<open>The block size of the padding is the constant 256, so \<open>pad_plaintext\<close> never hits its assertion.\<close>

definition pad_block :: "bytes \<Rightarrow> bytes" where
  "pad_block bs = the (pad_plaintext bs PADDING_BLOCK_SIZE)"

definition encrypted_snapshot_with_rng ::
  "crypto \<Rightarrow> PrivateGroupState \<Rightarrow> rng \<Rightarrow> PrivateGroupEncryptedSnapshot result \<times> rng" where
  "encrypted_snapshot_with_rng c s rng =
     (case and_then (encode_group_payload s) (\<lambda>payload.
           and_then (derive_snapshot_key c (gs_root_secret s) (gs_group_id s) (gs_epoch s)) (\<lambda>snapshot_key.
           Ok (payload, snapshot_key))) of
        Inl e \<Rightarrow> (Err e, rng)
      | Inr (payload, snapshot_key) \<Rightarrow>
     (case encrypt_with_rng c snapshot_key (pad_block payload) (snapshot_aad (gs_group_id s) (gs_epoch s)) rng of
        (Inl e, rng) \<Rightarrow> (Err e, rng)
      | (Inr ciphertext, rng) \<Rightarrow>
          (Ok \<lparr>sn_group_id = gs_group_id s, sn_epoch = gs_epoch s, sn_state_commitment_sha256 = sha256 c payload,
              sn_ciphertext = ciphertext\<rparr>, rng)))"

definition export_invite_package_with_rng ::
  "crypto \<Rightarrow> PrivateGroupState \<Rightarrow> rng \<Rightarrow> PrivateGroupInvitePackage result \<times> rng" where
  "export_invite_package_with_rng c s rng =
     (case encrypted_snapshot_with_rng c s rng of
        (Inl e, rng) \<Rightarrow> (Err e, rng)
      | (Inr snapshot, rng) \<Rightarrow>
          (Ok \<lparr>inv_group_id = gs_group_id s, inv_epoch = gs_epoch s, inv_root_secret = gs_root_secret s,
              inv_snapshot = snapshot\<rparr>, rng))"

definition export_join_package_for_member_credential_with_rng ::
  "crypto \<Rightarrow> PrivateGroupState \<Rightarrow> PrivateGroupMemberCredential \<Rightarrow> rng \<Rightarrow> PrivateGroupJoinPackage result \<times> rng" where
  "export_join_package_for_member_credential_with_rng c s cred rng =
     (if mc_group_id cred \<noteq> gs_group_id s
      then (Err (PolicyViolation ''private group join package credential group_id mismatch''), rng)
      else if mc_epoch cred \<noteq> gs_epoch s
      then (Err (PolicyViolation ''private group join package credential epoch mismatch''), rng)
      else case find_member (mc_member_user_id cred) (gs_members s) of
          None \<Rightarrow> (Err (PolicyViolation ''private group join package member missing from state''), rng)
        | Some m \<Rightarrow>
            if gm_role m \<noteq> mc_role cred
            then (Err (PolicyViolation ''private group join package credential role mismatch''), rng)
            else (case export_invite_package_with_rng c s rng of
                (Inl e, rng) \<Rightarrow> (Err e, rng)
              | (Inr invite, rng) \<Rightarrow> (Ok \<lparr>jp_invite = invite, jp_member_credential = cred\<rparr>, rng)))"

definition export_join_package_for_member_with_rng ::
  "crypto \<Rightarrow> PrivateGroupState \<Rightarrow> rstr \<Rightarrow> rng \<Rightarrow> PrivateGroupJoinPackage result \<times> rng" where
  "export_join_package_for_member_with_rng c s member_user_id rng =
     (case find_member member_user_id (gs_members s) of
        None \<Rightarrow> (Err (PolicyViolation ''private group join package member missing from state''), rng)
      | Some m \<Rightarrow>
     (case issue_member_credential_with_rng s member_user_id (gm_role m) rng of
        (Inl e, rng) \<Rightarrow> (Err e, rng)
      | (Inr cred, rng) \<Rightarrow> export_join_package_for_member_credential_with_rng c s cred rng))"

definition prepare_add_member_transition_with_rng ::
  "crypto \<Rightarrow> PrivateGroupState \<Rightarrow> rstr \<Rightarrow> PrivateGroupRole \<Rightarrow> u64 \<Rightarrow> rng \<Rightarrow> PrivateGroupEpochTransition result \<times> rng" where
  "prepare_add_member_transition_with_rng c s user role updated_at rng =
     (case add_member s user role updated_at of
        Inl e \<Rightarrow> (Err e, rng)
      | Inr (changed, next_state) \<Rightarrow>
      if \<not> changed then (Err (PolicyViolation ''private group member already has requested role''), rng) else
     (case issue_member_credentials_for_all_members_with_rng next_state rng of
        (Inl e, rng) \<Rightarrow> (Err e, rng)
      | (Inr creds, rng) \<Rightarrow>
     (case find (\<lambda>cred. mc_member_user_id cred = user) creds of
        None \<Rightarrow> (Err (PolicyViolation ''private group added member credential missing from transition''), rng)
      | Some cred \<Rightarrow>
     (case export_join_package_for_member_credential_with_rng c next_state cred rng of
        (Inl e, rng) \<Rightarrow> (Err e, rng)
      | (Inr package, rng) \<Rightarrow>
          (Ok \<lparr>et_next_state = next_state, et_member_credentials = creds,
              et_added_member_join_package = Some package\<rparr>, rng)))))"

definition prepare_remove_member_transition_with_rng ::
  "PrivateGroupState \<Rightarrow> rstr \<Rightarrow> u64 \<Rightarrow> rng \<Rightarrow> PrivateGroupEpochTransition result \<times> rng" where
  "prepare_remove_member_transition_with_rng s user updated_at rng =
     (case remove_member s user updated_at of
        Inl e \<Rightarrow> (Err e, rng)
      | Inr (removed, next_state) \<Rightarrow>
      if \<not> removed then (Err (PolicyViolation ''private group member is not present''), rng) else
     (case issue_member_credentials_for_all_members_with_rng next_state rng of
        (Inl e, rng) \<Rightarrow> (Err e, rng)
      | (Inr creds, rng) \<Rightarrow>
          (Ok \<lparr>et_next_state = next_state, et_member_credentials = creds, et_added_member_join_package = None\<rparr>, rng)))"

definition restore_from_invite_package :: "crypto \<Rightarrow> PrivateGroupInvitePackage \<Rightarrow> PrivateGroupState result" where
  "restore_from_invite_package c package =
     (if sn_group_id (inv_snapshot package) \<noteq> inv_group_id package
      then Err (PolicyViolation ''private group invite package group_id mismatch'')
      else if sn_epoch (inv_snapshot package) \<noteq> inv_epoch package
      then Err (PolicyViolation ''private group invite package epoch mismatch'')
      else
      and_then (derive_snapshot_key c (inv_root_secret package) (inv_group_id package) (inv_epoch package)) (\<lambda>snapshot_key.
      if env_aad (sn_ciphertext (inv_snapshot package)) \<noteq> snapshot_aad (inv_group_id package) (inv_epoch package)
      then Err (PolicyViolation ''private group snapshot aad mismatch'')
      else
      and_then (aead_decrypt c snapshot_key (sn_ciphertext (inv_snapshot package))) (\<lambda>decrypted.
      and_then (unpad_plaintext decrypted) (\<lambda>payload.
      if sha256 c payload \<noteq> sn_state_commitment_sha256 (inv_snapshot package)
      then Err (PolicyViolation ''private group snapshot commitment mismatch'')
      else decode_group_payload (inv_group_id package) (inv_epoch package) (inv_root_secret package) payload))))"

definition restore_state_and_credential ::
  "crypto \<Rightarrow> PrivateGroupJoinPackage \<Rightarrow> (PrivateGroupState \<times> PrivateGroupMemberCredential) result" where
  "restore_state_and_credential c jp =
     (if inv_group_id (jp_invite jp) \<noteq> mc_group_id (jp_member_credential jp)
      then Err (PolicyViolation ''private group join package group_id mismatch'')
      else if inv_epoch (jp_invite jp) \<noteq> mc_epoch (jp_member_credential jp)
      then Err (PolicyViolation ''private group join package epoch mismatch'')
      else
      and_then (restore_from_invite_package c (jp_invite jp)) (\<lambda>state.
      and_then (ok_or (find_member (mc_member_user_id (jp_member_credential jp)) (gs_members state))
        (PolicyViolation ''private group join package member missing from state'')) (\<lambda>m.
      if gm_role m \<noteq> mc_role (jp_member_credential jp)
      then Err (PolicyViolation ''private group join package role mismatch'')
      else Ok (state, jp_member_credential jp))))"

record json_codec =
  json_to_vec :: "PrivateGroupJoinPackage \<Rightarrow> bytes option"
  json_from_slice :: "bytes \<Rightarrow> PrivateGroupJoinPackage option"

definition encrypt_for_share_link_with_rng ::
  "crypto \<Rightarrow> json_codec \<Rightarrow> PrivateGroupJoinPackage \<Rightarrow> rng \<Rightarrow> PrivateGroupLinkInviteMaterial result \<times> rng" where
  "encrypt_for_share_link_with_rng c j jp rng =
     (case json_to_vec j jp of
        None \<Rightarrow> (Err (MessageParsing ''failed to serialize private group join package''), rng)
      | Some plaintext \<Rightarrow>
     (let (invite_secret, rng) = fill_bytes ROOT_SECRET_BYTES rng in
      case derive_link_invite_key c invite_secret (inv_group_id (jp_invite jp)) (inv_epoch (jp_invite jp)) of
        Inl e \<Rightarrow> (Err e, rng)
      | Inr invite_key \<Rightarrow>
     (case encrypt_with_rng c invite_key plaintext
          (link_invite_aad (inv_group_id (jp_invite jp)) (inv_epoch (jp_invite jp))) rng of
        (Inl e, rng) \<Rightarrow> (Err e, rng)
      | (Inr ciphertext, rng) \<Rightarrow>
          (Ok \<lparr>lm_invite_secret = invite_secret,
              lm_envelope = \<lparr>li_group_id = inv_group_id (jp_invite jp), li_epoch = inv_epoch (jp_invite jp),
                li_invite_commitment_sha256 = sha256 c invite_secret, li_ciphertext = ciphertext\<rparr>\<rparr>, rng))))"

definition open_join_package ::
  "crypto \<Rightarrow> json_codec \<Rightarrow> PrivateGroupLinkInviteEnvelope \<Rightarrow> bytes \<Rightarrow> PrivateGroupJoinPackage result" where
  "open_join_package c j li invite_secret =
     (if sha256 c invite_secret \<noteq> li_invite_commitment_sha256 li
      then Err (PolicyViolation ''private group invite secret commitment mismatch'')
      else
      and_then (derive_link_invite_key c invite_secret (li_group_id li) (li_epoch li)) (\<lambda>invite_key.
      if env_aad (li_ciphertext li) \<noteq> link_invite_aad (li_group_id li) (li_epoch li)
      then Err (PolicyViolation ''private group invite envelope aad mismatch'')
      else
      and_then (aead_decrypt c invite_key (li_ciphertext li)) (\<lambda>plaintext.
      and_then (ok_or (json_from_slice j plaintext) (MessageParsing ''failed to decode private group join package'')) (\<lambda>jp.
      if inv_group_id (jp_invite jp) \<noteq> li_group_id li
      then Err (PolicyViolation ''private group link invite group_id mismatch'')
      else if inv_epoch (jp_invite jp) \<noteq> li_epoch li
      then Err (PolicyViolation ''private group link invite epoch mismatch'')
      else and_then (restore_state_and_credential c jp) (\<lambda>_. Ok jp)))))"

subsection \<open>Messages\<close>

definition message_signature_records :: "PrivateGroupEncryptedMessage \<Rightarrow> TlvRecord list" where
  "message_signature_records m =
     [tlv TLV_GROUP_MESSAGE_LABEL GROUP_MESSAGE_SIGNATURE_LABEL,
      tlv TLV_GROUP_MESSAGE_GROUP_ID (em_group_id m),
      tlv TLV_GROUP_MESSAGE_EPOCH (u64_to_be_bytes (em_epoch m)),
      tlv TLV_GROUP_MESSAGE_SENDER_USER_ID (em_sender_user_id m),
      tlv TLV_GROUP_MESSAGE_SENT_AT (u64_to_be_bytes (em_sent_at_unix_ms m)),
      tlv TLV_GROUP_MESSAGE_NONCE (env_nonce (em_ciphertext m)),
      tlv TLV_GROUP_MESSAGE_CIPHERTEXT (env_ciphertext (em_ciphertext m)),
      tlv TLV_GROUP_MESSAGE_AAD (env_aad (em_ciphertext m))]"

definition encode_message_signature_payload :: "PrivateGroupEncryptedMessage \<Rightarrow> bytes result" where
  "encode_message_signature_payload m = encode (message_signature_records m)"

definition validate_private_group_message_membership ::
  "PrivateGroupState \<Rightarrow> PrivateGroupEncryptedMessage \<Rightarrow> unit result" where
  "validate_private_group_message_membership s m =
     (if em_group_id m \<noteq> gs_group_id s then Err (PolicyViolation ''private group message group_id mismatch'')
      else if em_epoch m \<noteq> gs_epoch s then Err (PolicyViolation ''private group message epoch mismatch'')
      else if \<not> list_ex (\<lambda>member. gm_user_id member = em_sender_user_id m) (gs_members s)
      then Err (PolicyViolation ''private group message sender is not a member of the current epoch'') else Ok ())"

definition decode_ed25519_signing_key :: "string \<Rightarrow> bytes \<Rightarrow> bytes result" where
  "decode_ed25519_signing_key fld secret_key =
     (if length secret_key = 32 then Ok secret_key else Err (InvalidLength fld 32 (length secret_key)))"

definition decode_ed25519_verifying_key :: "crypto \<Rightarrow> string \<Rightarrow> bytes \<Rightarrow> bytes result" where
  "decode_ed25519_verifying_key c fld public_key =
     (if length public_key \<noteq> 32 then Err (InvalidLength fld 32 (length public_key))
      else if ed25519_key_ok c public_key then Ok public_key else Err SignatureVerificationFailed)"

definition group_encrypt_message_with_rng ::
  "crypto \<Rightarrow> PrivateGroupState \<Rightarrow> rstr \<Rightarrow> bytes \<Rightarrow> bytes \<Rightarrow> rstr \<Rightarrow> u64 \<Rightarrow> pq_sig_provider \<Rightarrow> rng \<Rightarrow> rng
     \<Rightarrow> PrivateGroupEncryptedMessage result \<times> rng \<times> rng" where
  "group_encrypt_message_with_rng c s sender_user_id sig_secret pq_sig_secret body sent_at pq_provider rng os =
     (case and_then (validate_user_id sender_user_id) (\<lambda>_.
           if trim body = [] then Err (PolicyViolation ''private group message body cannot be blank'')
           else if \<not> list_ex (\<lambda>m. gm_user_id m = sender_user_id) (gs_members s)
           then Err (PolicyViolation ''private group sender is not a member of the current epoch'')
           else
           and_then (decode_ed25519_signing_key ''private_group.sender_identity_sig_secret'' sig_secret) (\<lambda>signing_key.
           and_then (derive_message_key c (gs_root_secret s) (gs_group_id s) (gs_epoch s)) (\<lambda>message_key.
           Ok (signing_key, message_key)))) of
        Inl e \<Rightarrow> (Err e, rng, os)
      | Inr (signing_key, message_key) \<Rightarrow>
     (case encrypt_with_rng c message_key (pad_block body)
          (message_aad (gs_group_id s) (gs_epoch s) sender_user_id sent_at) rng of
        (Inl e, rng) \<Rightarrow> (Err e, rng, os)
      | (Inr ciphertext, rng) \<Rightarrow>
      let message = \<lparr>em_group_id = gs_group_id s, em_epoch = gs_epoch s, em_sender_user_id = sender_user_id,
            em_sent_at_unix_ms = sent_at, em_ciphertext = ciphertext, em_sender_hybrid_signature = []\<rparr> in
     (case encode_message_signature_payload message of
        Inl e \<Rightarrow> (Err e, rng, os)
      | Inr transcript \<Rightarrow>
     (case pqsig_sign pq_provider pq_sig_secret transcript os of
        (Inl e, os) \<Rightarrow> (Err e, rng, os)
      | (Inr pq_sig, os) \<Rightarrow>
          (Ok (message\<lparr>em_sender_hybrid_signature := hs_encode
             \<lparr>hs_ed25519_sig = ed25519_sign c signing_key transcript, hs_pq_sig = pq_sig\<rparr>\<rparr>), rng, os)))))"

definition group_decrypt_message ::
  "crypto \<Rightarrow> PrivateGroupState \<Rightarrow> PrivateGroupEncryptedMessage \<Rightarrow> bytes \<Rightarrow> bytes \<Rightarrow> pq_sig_provider
     \<Rightarrow> PrivateGroupDecryptedMessage result" where
  "group_decrypt_message c s m sig_pub pq_sig_pub pq_provider =
     and_then (validate_private_group_message_membership s m) (\<lambda>_.
     if env_aad (em_ciphertext m) \<noteq> message_aad (em_group_id m) (em_epoch m) (em_sender_user_id m) (em_sent_at_unix_ms m)
     then Err (PolicyViolation ''private group message aad mismatch'')
     else
     and_then (encode_message_signature_payload m) (\<lambda>transcript.
     and_then (hs_decode (em_sender_hybrid_signature m)) (\<lambda>hybrid.
     and_then (decode_ed25519_verifying_key c ''private_group.sender_identity_sig_pub'' sig_pub) (\<lambda>verifying_key.
     if \<not> ed25519_sig_ok c (hs_ed25519_sig hybrid)
     then Err (InvalidLength ''private_group.sender_identity_sig'' 64 (length (hs_ed25519_sig hybrid)))
     else if \<not> ed25519_verify c verifying_key transcript (hs_ed25519_sig hybrid) then Err SignatureVerificationFailed
     else
     and_then (pqsig_verify pq_provider pq_sig_pub transcript (hs_pq_sig hybrid)) (\<lambda>_.
     and_then (derive_message_key c (gs_root_secret s) (gs_group_id s) (gs_epoch s)) (\<lambda>message_key.
     and_then (aead_decrypt c message_key (em_ciphertext m)) (\<lambda>decrypted.
     and_then (unpad_plaintext decrypted) (\<lambda>unpadded.
     and_then (from_utf8 unpadded (InvalidUtf8 ''private_group.message.body'')) (\<lambda>body.
     if trim body = [] then Err (PolicyViolation ''private group message body cannot be blank'')
     else Ok \<lparr>dm_group_id = em_group_id m, dm_epoch = em_epoch m, dm_sender_user_id = em_sender_user_id m,
             dm_sent_at_unix_ms = em_sent_at_unix_ms m, dm_body = body\<rparr>)))))))))"

subsection \<open>With the operating system's generator\<close>

definition group_new ::
  "rstr \<Rightarrow> PrivateGroupAttributes \<Rightarrow> PrivateGroupMember list \<Rightarrow> u64 \<Rightarrow> rng \<Rightarrow> PrivateGroupState result \<times> rng" where
  "group_new owner attributes initial_members created_at os = group_new_with_rng owner attributes initial_members created_at os"

definition encrypted_snapshot :: "crypto \<Rightarrow> PrivateGroupState \<Rightarrow> rng \<Rightarrow> PrivateGroupEncryptedSnapshot result \<times> rng" where
  "encrypted_snapshot c s os = encrypted_snapshot_with_rng c s os"

definition export_invite_package :: "crypto \<Rightarrow> PrivateGroupState \<Rightarrow> rng \<Rightarrow> PrivateGroupInvitePackage result \<times> rng" where
  "export_invite_package c s os = export_invite_package_with_rng c s os"

definition export_join_package_for_member ::
  "crypto \<Rightarrow> PrivateGroupState \<Rightarrow> rstr \<Rightarrow> rng \<Rightarrow> PrivateGroupJoinPackage result \<times> rng" where
  "export_join_package_for_member c s member_user_id os = export_join_package_for_member_with_rng c s member_user_id os"

definition export_join_package_for_member_credential ::
  "crypto \<Rightarrow> PrivateGroupState \<Rightarrow> PrivateGroupMemberCredential \<Rightarrow> rng \<Rightarrow> PrivateGroupJoinPackage result \<times> rng" where
  "export_join_package_for_member_credential c s cred os = export_join_package_for_member_credential_with_rng c s cred os"

definition prepare_add_member_transition ::
  "crypto \<Rightarrow> PrivateGroupState \<Rightarrow> rstr \<Rightarrow> PrivateGroupRole \<Rightarrow> u64 \<Rightarrow> rng \<Rightarrow> PrivateGroupEpochTransition result \<times> rng" where
  "prepare_add_member_transition c s user role updated_at os = prepare_add_member_transition_with_rng c s user role updated_at os"

definition prepare_remove_member_transition ::
  "PrivateGroupState \<Rightarrow> rstr \<Rightarrow> u64 \<Rightarrow> rng \<Rightarrow> PrivateGroupEpochTransition result \<times> rng" where
  "prepare_remove_member_transition s user updated_at os = prepare_remove_member_transition_with_rng s user updated_at os"

definition issue_member_credential ::
  "PrivateGroupState \<Rightarrow> rstr \<Rightarrow> PrivateGroupRole \<Rightarrow> rng \<Rightarrow> PrivateGroupMemberCredential result \<times> rng" where
  "issue_member_credential s member_user_id role os = issue_member_credential_with_rng s member_user_id role os"

definition issue_member_credentials_for_all_members ::
  "PrivateGroupState \<Rightarrow> rng \<Rightarrow> PrivateGroupMemberCredential list result \<times> rng" where
  "issue_member_credentials_for_all_members s os = issue_member_credentials_for_all_members_with_rng s os"

definition encrypt_for_share_link ::
  "crypto \<Rightarrow> json_codec \<Rightarrow> PrivateGroupJoinPackage \<Rightarrow> rng \<Rightarrow> PrivateGroupLinkInviteMaterial result \<times> rng" where
  "encrypt_for_share_link c j jp os = encrypt_for_share_link_with_rng c j jp os"

end
