(* ===== verification/Private_Groups_Thms.thy ===== *)
theory Private_Groups_Thms
  imports Private_Groups
begin

text \<open>
  What private groups promise: the invariant of the group state under every operation, the round
  trip of invitations, the delivery and authenticity of group messages, and what a removed member
  and a second owner can do.
\<close>

subsection \<open>Sorted member lists\<close>

definition by_id :: "PrivateGroupMember \<Rightarrow> PrivateGroupMember \<Rightarrow> bool" where
  "by_id a b \<longleftrightarrow> str_less (gm_user_id a) (gm_user_id b)"

definition group_inv :: "PrivateGroupState \<Rightarrow> bool" where
  "group_inv s \<longleftrightarrow> sorted_wrt by_id (gs_members s) \<and> (\<forall>m\<in>set (gs_members s). trim (gm_user_id m) \<noteq> [])
     \<and> (\<exists>m\<in>set (gs_members s). gm_role m = Owner) \<and> validate_group_attributes (gs_attributes s) = Ok ()
     \<and> length (gs_root_secret s) = 32"

lemma by_id_order: "by_id a b \<Longrightarrow> by_id b c \<Longrightarrow> by_id a c" "\<not> by_id a a"
  using str_less_trans by (auto simp: by_id_def)

lemma sorted_by_id_distinct: "sorted_wrt by_id ms \<Longrightarrow> distinct (map gm_user_id ms)"
  by (induction ms) (auto simp: by_id_def)

lemma validate_user_id_Ok: "validate_user_id u = Ok () \<longleftrightarrow> trim u \<noteq> []"
  by (simp add: validate_user_id_def)

lemma validate_user_id_Ok' [simp]: "trim u \<noteq> [] \<Longrightarrow> validate_user_id u = Ok ()"
  by (simp add: validate_user_id_def)

lemma upsert_role_ids: "gm_user_id ` set (upsert_role u r ms) = insert u (gm_user_id ` set ms)"
  by (induction ms) auto

lemma upsert_role_sorted: "sorted_wrt by_id ms \<Longrightarrow> sorted_wrt by_id (upsert_role u r ms)"
proof (induction ms)
  case (Cons m ms)
  have head: "by_id m x" if "x \<in> set (upsert_role u r ms)" "str_less (gm_user_id m) u" for x
  proof -
    from that(1) have "gm_user_id x \<in> insert u (gm_user_id ` set ms)" using upsert_role_ids by blast
    with that(2) Cons.prems show ?thesis by (auto simp: by_id_def)
  qed
  show ?case using Cons head str_less_linear [of u "gm_user_id m"] str_less_trans by (auto simp: by_id_def)
qed simp

lemma upsert_role_owner: "\<exists>m\<in>set ms. gm_role m = Owner \<Longrightarrow> \<exists>m\<in>set (upsert_role u r ms). gm_role m = Owner"
proof (induction ms)
  case (Cons m ms)
  then show ?case by (cases "gm_role m = Owner") auto
qed simp

lemma normalize_loop_inv:
  assumes "normalize_loop owner ms acc = Ok res" "sorted_wrt by_id acc" "\<forall>m\<in>set acc. trim (gm_user_id m) \<noteq> []"
    "\<exists>m\<in>set acc. gm_role m = Owner"
  shows "sorted_wrt by_id res \<and> (\<forall>m\<in>set res. trim (gm_user_id m) \<noteq> []) \<and> (\<exists>m\<in>set res. gm_role m = Owner)"
  using assms
proof (induction ms arbitrary: acc)
  case (Cons m ms)
  let ?r = "if gm_user_id m = owner then Owner else gm_role m"
  have v: "trim (gm_user_id m) \<noteq> []" using Cons.prems(1) by (auto simp: validate_user_id_def split: if_splits)
  have "trim (gm_user_id x) \<noteq> []" if "x \<in> set (upsert_role (gm_user_id m) ?r acc)" for x
  proof -
    from that have "gm_user_id x \<in> insert (gm_user_id m) (gm_user_id ` set acc)" using upsert_role_ids by blast
    with v Cons.prems(3) show ?thesis by auto
  qed
  then show ?case
    using Cons.IH [OF _ upsert_role_sorted [OF Cons.prems(2)] _ upsert_role_owner [OF Cons.prems(4)]] Cons.prems(1) by auto
qed simp

lemma normalize_members_inv:
  assumes "normalize_members owner ms = Ok res"
  shows "sorted_wrt by_id res \<and> (\<forall>m\<in>set res. trim (gm_user_id m) \<noteq> []) \<and> (\<exists>m\<in>set res. gm_role m = Owner)"
  using assms normalize_loop_inv [of owner ms "[\<lparr>gm_user_id = owner, gm_role = Owner\<rparr>]" res]
  by (auto simp: normalize_members_def validate_user_id_def split: if_splits)

lemma insort_member_set: "set (insort_member m xs) = insert m (set xs)"
  by (induction xs) auto

lemma insort_member_sorted:
  "sorted_wrt by_id xs \<Longrightarrow> gm_user_id m \<notin> gm_user_id ` set xs \<Longrightarrow> sorted_wrt by_id (insort_member m xs)"
proof (induction xs)
  case (Cons x xs)
  then show ?case
    using str_less_linear [of "gm_user_id m" "gm_user_id x"] str_less_trans
    by (auto simp: by_id_def str_le_def insort_member_set)
qed simp

lemma sort_members_spec:
  "distinct (map gm_user_id ms) \<Longrightarrow> sorted_wrt by_id (sort_members ms) \<and> set (sort_members ms) = set ms"
proof (induction ms)
  case (Cons m ms)
  then show ?case using insort_member_sorted [of "sort_members ms" m] by (simp add: sort_members_def insort_member_set)
qed (simp add: sort_members_def)

lemma find_member_Some: "find_member u ms = Some m \<Longrightarrow> m \<in> set ms \<and> gm_user_id m = u"
  by (auto simp: find_member_def find_Some_iff)

lemma find_member_None: "find_member u ms = None \<longleftrightarrow> u \<notin> gm_user_id ` set ms"
  by (auto simp: find_member_def find_None_iff)

lemma find_member_in: "distinct (map gm_user_id ms) \<Longrightarrow> m \<in> set ms \<Longrightarrow> find_member (gm_user_id m) ms = Some m"
  by (induction ms) (auto simp: find_member_def)

lemma owner_is_member:
  assumes "\<exists>m\<in>set (gs_members s). gm_role m = Owner"
  shows "\<exists>m\<in>set (gs_members s). gm_role m = Owner \<and> gm_user_id m = owner_user_id s"
proof -
  have "find (\<lambda>m. gm_role m = Owner) (gs_members s) \<noteq> None" using assms by (auto simp: find_None_iff)
  then obtain m where "find (\<lambda>m. gm_role m = Owner) (gs_members s) = Some m" by blast
  moreover from this have "owner_user_id s = gm_user_id m" by (simp add: owner_user_id_def)
  ultimately show ?thesis by (auto simp: find_Some_iff)
qed

lemma owner_of_sorted:
  assumes "sorted_wrt by_id (gs_members s)" "m \<in> set (gs_members s)" "gm_role m = Owner"
    "\<And>x. x \<in> set (gs_members s) \<Longrightarrow> gm_role x = Owner \<Longrightarrow> x = m \<or> by_id m x"
  shows "owner_user_id s = gm_user_id m"
proof -
  have "sorted_wrt by_id xs \<Longrightarrow> m \<in> set xs \<Longrightarrow> (\<And>x. x \<in> set xs \<Longrightarrow> gm_role x = Owner \<Longrightarrow> x = m \<or> by_id m x) \<Longrightarrow>
      find (\<lambda>m. gm_role m = Owner) xs = Some m" for xs
  proof (induction xs)
    case (Cons y ys)
    show ?case
    proof (cases "gm_role y = Owner")
      case True
      then have "y = m \<or> by_id m y" using Cons.prems(3) by simp
      moreover have "y = m \<or> by_id y m" using Cons.prems(1,2) by auto
      ultimately show ?thesis using True by_id_order by auto
    next
      case False
      with assms(3) Cons show ?thesis by auto
    qed
  qed simp
  with assms show ?thesis by (simp add: owner_user_id_def)
qed

lemma owner_first:
  assumes "sorted_wrt by_id (gs_members s)" "x \<in> set (gs_members s)" "gm_role x = Owner"
  shows "gm_user_id x = owner_user_id s \<or> str_less (owner_user_id s) (gm_user_id x)"
proof -
  have "sorted_wrt by_id xs \<Longrightarrow> x \<in> set xs \<Longrightarrow> (\<exists>m. find (\<lambda>m. gm_role m = Owner) xs = Some m \<and> (m = x \<or> by_id m x))" for xs
    using assms(3) by (induction xs) auto
  from this [OF assms(1,2)] show ?thesis by (auto simp: owner_user_id_def by_id_def)
qed

lemma set_role_ids: "map gm_user_id (set_role u r ms) = map gm_user_id ms"
  by (induction ms) auto

lemma set_role_sorted: "sorted_wrt by_id ms \<Longrightarrow> sorted_wrt by_id (set_role u r ms)"
proof -
  have "sorted_wrt by_id xs \<longleftrightarrow> sorted_wrt str_less (map gm_user_id xs)" for xs
    by (simp add: sorted_wrt_map by_id_def [abs_def])
  then show "sorted_wrt by_id ms \<Longrightarrow> ?thesis" by (simp add: set_role_ids)
qed

lemma set_role_keeps: "m \<in> set ms \<Longrightarrow> gm_user_id m \<noteq> u \<Longrightarrow> m \<in> set (set_role u r ms)"
  by (induction ms) auto

subsection \<open>The invariant\<close>

text \<open>One step of a group: an operation that succeeds, whether it changes the state or not.\<close>

inductive group_step :: "PrivateGroupState \<Rightarrow> PrivateGroupState \<Rightarrow> bool" where
  step_add: "add_member s u r t = Ok (b, s') \<Longrightarrow> group_step s s'"
| step_remove: "remove_member s u t = Ok (b, s') \<Longrightarrow> group_step s s'"
| step_update: "update_attributes s a t = Ok (b, s') \<Longrightarrow> group_step s s'"

inductive_cases group_stepE: "group_step s s'"

lemma bump_epoch_fields [simp]:
  "gs_members (bump_epoch t s) = gs_members s" "gs_group_id (bump_epoch t s) = gs_group_id s"
  "gs_root_secret (bump_epoch t s) = gs_root_secret s" "gs_attributes (bump_epoch t s) = gs_attributes s"
  by (simp_all add: bump_epoch_def)

lemma u64_plus_one:
  assumes "x \<noteq> u64_MAX"
  shows "unat (x + 1 :: u64) = unat x + 1"
proof -
  have "unat x < 2 ^ 64" using unsigned_less [where ?'a = nat, of x] by simp
  moreover have "unat x \<noteq> 2 ^ 64 - 1"
  proof
    assume "unat x = 2 ^ 64 - 1"
    then have "unat x = unat u64_MAX" by simp
    with assms show False by (metis word_unat_eq_iff)
  qed
  ultimately show ?thesis by (simp add: unat_word_ariths)
qed

lemma bump_epoch_le: "gs_epoch s \<le> gs_epoch (bump_epoch t s)"
  by (simp add: bump_epoch_def word_le_nat_alt u64_plus_one)

lemma group_inv_bump [simp]: "group_inv (bump_epoch t s) = group_inv s"
  by (simp add: group_inv_def)

lemma add_member_inv:
  assumes "group_inv s" "add_member s u r t = Ok (b, s')"
  shows "group_inv s'"
proof -
  let ?r = "if u = owner_user_id s then Owner else r"
  have u: "trim u \<noteq> []" using assms(2) by (auto simp: add_member_def validate_user_id_def split: if_splits)
  have sorted: "sorted_wrt by_id (gs_members s)" using assms(1) by (simp add: group_inv_def)
  obtain o' where own: "o' \<in> set (gs_members s)" "gm_role o' = Owner" "gm_user_id o' = owner_user_id s"
    using owner_is_member assms(1) by (auto simp: group_inv_def)
  show ?thesis
  proof (cases "find_member u (gs_members s)")
    case None
    let ?ms = "gs_members s @ [\<lparr>gm_user_id = u, gm_role = ?r\<rparr>]"
    have "distinct (map gm_user_id ?ms)" using sorted_by_id_distinct [OF sorted] None by (auto simp: find_member_None)
    from sort_members_spec [OF this] assms None u own show ?thesis
      by (auto simp: add_member_def Let_def group_inv_def)
  next
    case (Some e)
    note e = find_member_Some [OF Some]
    show ?thesis
    proof (cases "gm_role e = ?r")
      case True
      then show ?thesis using assms Some u by (simp add: add_member_def Let_def)
    next
      case False
      have "e = o'" if "u = owner_user_id s"
        using find_member_in [OF sorted_by_id_distinct [OF sorted] own(1)] Some own(3) that by simp
      with False own(2) have ne: "u \<noteq> owner_user_id s" by auto
      have ids: "trim (gm_user_id x) \<noteq> []" if "x \<in> set (set_role u ?r (gs_members s))" for x
        using that assms(1) arg_cong [OF set_role_ids, of set u ?r "gs_members s"] unfolding group_inv_def
        by (metis (no_types, lifting) image_iff list.set_map)
      have "o' \<in> set (set_role u ?r (gs_members s))" using set_role_keeps own(1,3) ne by metis
      with ids own(2) set_role_sorted [OF sorted] assms Some False u show ?thesis
        by (auto simp: add_member_def Let_def group_inv_def)
    qed
  qed
qed

lemma remove_member_inv:
  assumes "group_inv s" "remove_member s u t = Ok (b, s')"
  shows "group_inv s'"
proof -
  obtain o' where own: "o' \<in> set (gs_members s)" "gm_role o' = Owner" "gm_user_id o' = owner_user_id s"
    using owner_is_member assms(1) by (auto simp: group_inv_def)
  have "sorted_wrt by_id (filter P (gs_members s))" for P
    using assms(1) by (simp add: group_inv_def sorted_wrt_filter)
  then show ?thesis using assms own by (auto simp: remove_member_def Let_def group_inv_def split: if_splits)
qed

lemma group_step_inv:
  assumes "group_step s s'" "group_inv s"
  shows "group_inv s' \<and> gs_group_id s' = gs_group_id s \<and> gs_root_secret s' = gs_root_secret s \<and> gs_epoch s \<le> gs_epoch s'"
  using assms
proof (cases rule: group_step.cases)
  case (step_add u r t b)
  then show ?thesis using add_member_inv assms(2) bump_epoch_le [of "s\<lparr>gs_members := x\<rparr>" t for x]
    by (auto simp: add_member_def Let_def split: if_splits option.splits)
next
  case (step_remove u t b)
  then show ?thesis using remove_member_inv assms(2) bump_epoch_le [of "s\<lparr>gs_members := x\<rparr>" t for x]
    by (auto simp: remove_member_def Let_def split: if_splits)
next
  case (step_update a t b)
  then show ?thesis using assms(2) bump_epoch_le [of "s\<lparr>gs_attributes := a\<rparr>" t]
    by (auto simp: update_attributes_def group_inv_def split: if_splits)
qed

text \<open>
  C7. The invariant of a private group. From the creation of a group on, after any sequence of successful
  operations, the members are sorted by strictly increasing identifier, so nobody is listed twice,
  no identifier is blank, at least one member is an owner and the attributes are valid; the
  group identifier and the root secret never change and the epoch never goes back.
\<close>

theorem group_invariant:
  assumes "group_new_with_rng owner attributes initial created rng = (Ok s, rng')" "group_step\<^sup>*\<^sup>* s s'"
  shows "group_inv s' \<and> gs_group_id s' = gs_group_id s \<and> gs_root_secret s' = gs_root_secret s \<and> gs_epoch s \<le> gs_epoch s'"
proof -
  obtain ms where ms: "validate_group_attributes attributes = Ok ()" "normalize_members owner initial = Ok ms"
      "gs_members s = ms" "gs_attributes s = attributes" "length (gs_root_secret s) = 32"
    using assms(1) by (auto simp: group_new_with_rng_def fill_bytes_def ROOT_SECRET_BYTES_def Let_def split: sum.splits)
  then have "group_inv s" using normalize_members_inv [OF ms(2)] by (simp add: group_inv_def)
  with assms(2) show ?thesis
  proof (induction rule: rtranclp_induct)
    case (step y z)
    then show ?case using group_step_inv [of y z] order_trans by auto
  qed simp
qed

definition toy_attributes :: PrivateGroupAttributes where
  "toy_attributes = \<lparr>ga_title = str_bytes ''team'', ga_description = None, ga_avatar_hash_sha256 = None,
     ga_disappearing_message_timer_seconds = Some 60\<rparr>"

definition toy_group :: PrivateGroupState where
  "toy_group = \<lparr>gs_group_id = hex_encode (replicate 16 0), gs_epoch = 1, gs_root_secret = replicate 32 0,
     gs_attributes = toy_attributes,
     gs_members = [\<lparr>gm_user_id = str_bytes ''bob'', gm_role = Member\<rparr>, \<lparr>gm_user_id = str_bytes ''carol'', gm_role = Member\<rparr>,
       \<lparr>gm_user_id = str_bytes ''dora'', gm_role = Owner\<rparr>],
     gs_created_at_unix_seconds = 7, gs_updated_at_unix_seconds = 7\<rparr>"

lemma toy_names:
  "trim (str_bytes ''bob'') = str_bytes ''bob''" "trim (str_bytes ''carol'') = str_bytes ''carol''"
  "trim (str_bytes ''dora'') = str_bytes ''dora''" "trim (str_bytes ''team'') = str_bytes ''team''"
  "trim (str_bytes ''anna'') = str_bytes ''anna''"
  by (simp_all add: trim_plain str_bytes_def ws_prefix_len_def ws_suffix_len_def ws_chars_def)

lemma toy_attributes_valid: "validate_group_attributes toy_attributes = Ok ()"
  by (simp add: validate_group_attributes_def toy_attributes_def toy_names) (simp add: str_bytes_def)

lemma stake_sconst: "stake n (sconst x) = replicate n x"
  by (induction n) (simp_all only: stake.simps siterate.simps id_apply replicate.simps)

lemma sdrop_sconst: "sdrop n (sconst x) = sconst x"
  by (induction n) (simp_all only: sdrop.simps siterate.simps id_apply)

lemma toy_group_new:
  "group_new_with_rng (str_bytes ''dora'') toy_attributes [\<lparr>gm_user_id = str_bytes ''carol'', gm_role = Member\<rparr>,
     \<lparr>gm_user_id = str_bytes ''bob'', gm_role = Member\<rparr>] 7 (sconst 0) = (Ok toy_group, sconst 0)"
  by (simp add: group_new_with_rng_def toy_attributes_valid normalize_members_def validate_user_id_def toy_names
      toy_group_def fill_bytes_def GROUP_ID_BYTES_def ROOT_SECRET_BYTES_def stake_sconst sdrop_sconst
      del: stake_siterate sdrop_siterate)
    (simp add: str_bytes_def)

lemma toy_group_inv: "group_inv toy_group"
  by (simp add: group_inv_def toy_group_def toy_names toy_attributes_valid by_id_def) (simp add: str_bytes_def)

theorem group_invariant_witness:
  "\<exists>s'. group_step toy_group s' \<and> group_inv s' \<and> gs_root_secret s' = gs_root_secret toy_group"
proof -
  obtain s' where "update_attributes toy_group (toy_attributes\<lparr>ga_description := Some []\<rparr>) 9 = Ok (True, s')"
    by (simp add: update_attributes_def validate_group_attributes_def toy_attributes_def toy_group_def toy_names)
      (simp add: str_bytes_def)
  then have "group_step toy_group s'" by (rule step_update)
  with group_invariant [OF toy_group_new, of s'] show ?thesis by blast
qed

subsection \<open>Ownership\<close>

text \<open>
  C30. Whoever is added as an owner with a smaller identifier takes the group over. The operation that adds a
  member with the role of an owner succeeds for a group that has an owner already; if the new
  identifier sorts before the present owner's, the new member is the owner from then on, and the
  previous owner, whom no operation could remove before, can be removed.
\<close>

theorem owner_takeover:
  assumes "group_inv s" "trim u \<noteq> []" "find_member u (gs_members s) = None" "str_less u (owner_user_id s)"
  shows "remove_member s (owner_user_id s) t = Err (PolicyViolation ''private group owner cannot be removed'')
    \<and> (\<exists>s' s''. add_member s u Owner t = Ok (True, s') \<and> owner_user_id s' = u
        \<and> remove_member s' (owner_user_id s) t = Ok (True, s'') \<and> find_member (owner_user_id s) (gs_members s'') = None)"
proof -
  let ?n = "\<lparr>gm_user_id = u, gm_role = Owner\<rparr>"
  let ?ms = "sort_members (gs_members s @ [?n])"
  have sorted: "sorted_wrt by_id (gs_members s)" using assms(1) by (simp add: group_inv_def)
  have "distinct (map gm_user_id (gs_members s @ [?n]))"
    using sorted_by_id_distinct [OF sorted] assms(3) by (auto simp: find_member_None)
  note spec = sort_members_spec [OF this]
  obtain s' where s': "add_member s u Owner t = Ok (True, s')" "gs_members s' = ?ms"
    using assms(2,3) by (simp add: add_member_def Let_def)
  obtain o' where own: "o' \<in> set (gs_members s)" "gm_role o' = Owner" "gm_user_id o' = owner_user_id s"
    using owner_is_member assms(1) by (auto simp: group_inv_def)
  have first: "x = ?n \<or> by_id ?n x" if "x \<in> set ?ms" "gm_role x = Owner" for x
    using that spec owner_first [OF sorted, of x] assms(4) str_less_trans by (auto simp: by_id_def)
  have "owner_user_id s' = u"
    using owner_of_sorted [of s' ?n] spec s'(2) first by auto
  moreover from this have "u \<noteq> owner_user_id s" using assms(4) by auto
  moreover have "o' \<in> set (gs_members s')" using own(1) spec s'(2) by simp
  then have "length (filter (\<lambda>m. gm_user_id m \<noteq> owner_user_id s) (gs_members s')) \<noteq> length (gs_members s')"
    using own(3) by (metis (mono_tags, lifting) filter_id_conv length_filter_less less_irrefl)
  ultimately have "\<exists>s''. remove_member s' (owner_user_id s) t = Ok (True, s'') \<and> find_member (owner_user_id s) (gs_members s'') = None"
    by (simp add: remove_member_def Let_def find_member_None) auto
  then show ?thesis using s'(1) \<open>owner_user_id s' = u\<close> by (auto simp: remove_member_def)
qed

lemma toy_group_owner: "owner_user_id toy_group = str_bytes ''dora''"
  by (simp add: owner_user_id_def toy_group_def)

theorem owner_takeover_witness:
  "\<exists>s' s''. add_member toy_group (str_bytes ''anna'') Owner 9 = Ok (True, s') \<and> owner_user_id s' = str_bytes ''anna''
    \<and> remove_member s' (str_bytes ''dora'') 9 = Ok (True, s'') \<and> find_member (str_bytes ''dora'') (gs_members s'') = None"
proof -
  have "trim (str_bytes ''anna'') \<noteq> []" by (simp add: toy_names) (simp add: str_bytes_def)
  moreover have "find_member (str_bytes ''anna'') (gs_members toy_group) = None"
    by (simp add: find_member_def toy_group_def) (simp add: str_bytes_def)
  moreover have "str_less (str_bytes ''anna'') (owner_user_id toy_group)"
    unfolding toy_group_owner by (simp add: str_bytes_def)
  ultimately show ?thesis using owner_takeover [OF toy_group_inv, of "str_bytes ''anna''" 9] unfolding toy_group_owner by blast
qed

subsection \<open>Invitations\<close>

definition member_bytes :: "PrivateGroupMember \<Rightarrow> bytes" where
  "member_bytes m = u16_to_be_bytes (of_nat (length (gm_user_id m))) @ gm_user_id m @ [role_to_byte (gm_role m)]"

lemma encode_member_list_Ok:
  "encode_member_list ms out = Ok bs \<Longrightarrow> bs = out @ concat (map member_bytes ms)
     \<and> (\<forall>m\<in>set ms. length (gm_user_id m) \<le> 65535)"
proof (induction ms arbitrary: out)
  case (Cons m ms)
  then have "encode_member_list ms (out @ member_bytes m) = Ok bs" "length (gm_user_id m) \<le> 65535"
    by (auto simp: member_bytes_def split: if_splits)
  with Cons.IH show ?case by fastforce
qed simp

lemma role_byte_roundtrip [simp]: "role_from_byte (role_to_byte r) = Ok r"
  by (cases r) (simp_all add: role_from_byte_def)

lemma decode_member_step:
  assumes "length (gm_user_id m) \<le> 65535" "valid_utf8 (gm_user_id m)"
  shows "decode_member_list (pre @ member_bytes m @ rest) (Suc n) (length pre) acc
    = decode_member_list (pre @ member_bytes m @ rest) n (length (pre @ member_bytes m)) (acc @ [m])"
proof -
  obtain a b where ab: "u16_to_be_bytes (of_nat (length (gm_user_id m))) = [a, b]"
    "u16_from_be_bytes [a, b] = of_nat (length (gm_user_id m))" using u16_two_bytes by blast
  have len: "unat (of_nat (length (gm_user_id m)) :: u16) = length (gm_user_id m)" using assms(1) by (simp add: unat_of_nat)
  have "(pre @ a # b # gm_user_id m @ role_to_byte (gm_role m) # rest) ! Suc (length pre) = b"
    by (simp add: nth_append)
  moreover have "(pre @ a # b # gm_user_id m @ role_to_byte (gm_role m) # rest) ! (length pre + 2 + length (gm_user_id m))
      = role_to_byte (gm_role m)"
    using nth_append_length [of "pre @ a # b # gm_user_id m" "role_to_byte (gm_role m)" rest] by simp
  moreover have m: "\<lparr>gm_user_id = gm_user_id m, gm_role = gm_role m\<rparr> = m" by (cases m) simp
  ultimately show ?thesis using assms(2) ab(2) len
    by (simp add: member_bytes_def ab(1) Let_def decode_utf8_field_def from_utf8_def m)
qed

lemma decode_member_list_encoded:
  "\<forall>m\<in>set ms. length (gm_user_id m) \<le> 65535 \<and> valid_utf8 (gm_user_id m) \<Longrightarrow>
    decode_member_list (pre @ concat (map member_bytes ms)) (length ms) (length pre) acc = Ok (acc @ ms)"
proof (induction ms arbitrary: pre acc)
  case (Cons m ms)
  have "decode_member_list (pre @ concat (map member_bytes (m # ms))) (length (m # ms)) (length pre) acc =
      decode_member_list ((pre @ member_bytes m) @ concat (map member_bytes ms)) (length ms) (length (pre @ member_bytes m)) (acc @ [m])"
    using decode_member_step [of m pre "concat (map member_bytes ms)" "length ms" acc] Cons.prems by (simp del: decode_member_list.simps)
  then show ?case using Cons.IH [of "pre @ member_bytes m" "acc @ [m]"] Cons.prems by (simp del: decode_member_list.simps)
qed simp

lemma decode_encode_members:
  assumes "encode_members ms = Ok bs" "\<forall>m\<in>set ms. valid_utf8 (gm_user_id m)"
  shows "decode_members bs = Ok ms"
proof -
  have n: "length ms \<le> 65535" using assms(1) by (auto simp: encode_members_def split: if_splits)
  have "encode_member_list ms (u16_to_be_bytes (of_nat (length ms))) = Ok bs"
    using assms(1) by (auto simp: encode_members_def split: if_splits)
  note enc = encode_member_list_Ok [OF this]
  obtain a b where ab: "u16_to_be_bytes (of_nat (length ms)) = [a, b]" "u16_from_be_bytes [a, b] = of_nat (length ms)"
    using u16_two_bytes by blast
  have "unat (of_nat (length ms) :: u16) = length ms" using n by (simp add: unat_of_nat)
  then show ?thesis using enc ab assms(2) decode_member_list_encoded [of ms "[a, b]" "[]"]
    by (simp add: decode_members_def numeral_2_eq_2 del: decode_member_list.simps)
qed

lemma upsert_role_skip:
  "\<forall>x\<in>set xs. str_less (gm_user_id x) u \<Longrightarrow> upsert_role u r (xs @ ys) = xs @ upsert_role u r ys"
  by (induction xs) (use str_less_asym in auto)

lemma normalize_sorted:
  assumes "sorted_wrt by_id (ms1 @ ms2)" "\<forall>m\<in>set ms2. trim (gm_user_id m) \<noteq> []"
    "\<forall>m\<in>set ms2. gm_user_id m = owner \<longrightarrow> gm_role m = Owner"
  shows "normalize_loop owner ms2 (ms1 @ (if owner \<in> gm_user_id ` set ms2 then [\<lparr>gm_user_id = owner, gm_role = Owner\<rparr>] else []))
    = Ok (ms1 @ ms2)"
  using assms
proof (induction ms2 arbitrary: ms1)
  case (Cons m ms2)
  have less: "\<forall>x\<in>set ms1. str_less (gm_user_id x) (gm_user_id m)" using Cons.prems(1) by (auto simp: sorted_wrt_append by_id_def)
  have after: "\<forall>x\<in>set ms2. str_less (gm_user_id m) (gm_user_id x)" using Cons.prems(1) by (auto simp: sorted_wrt_append by_id_def)
  note IH = Cons.IH [of "ms1 @ [m]"]
  show ?case
  proof (cases "gm_user_id m = owner")
    case True
    let ?o = "\<lparr>gm_user_id = owner, gm_role = Owner\<rparr>"
    have m: "m = ?o" using True Cons.prems(3) by (cases m) auto
    have "owner \<notin> gm_user_id ` set ms2" using True after by auto
    then have "normalize_loop owner ms2 ((ms1 @ [m]) @ []) = Ok ((ms1 @ [m]) @ ms2)" using IH Cons.prems by simp
    moreover have "upsert_role owner Owner (ms1 @ [?o]) = ms1 @ [?o]" using upsert_role_skip [OF less] True by simp
    ultimately show ?thesis using True Cons.prems(2) m by simp
  next
    case False
    let ?rest = "if owner \<in> gm_user_id ` set ms2 then [\<lparr>gm_user_id = owner, gm_role = Owner\<rparr>] else []"
    have "\<lparr>gm_user_id = gm_user_id m, gm_role = gm_role m\<rparr> = m" by (cases m) simp
    then have "upsert_role (gm_user_id m) (gm_role m) ?rest = m # ?rest" using after False by auto
    then have "upsert_role (gm_user_id m) (gm_role m) (ms1 @ ?rest) = (ms1 @ [m]) @ ?rest" using upsert_role_skip [OF less] by simp
    moreover have "normalize_loop owner ms2 ((ms1 @ [m]) @ ?rest) = Ok ((ms1 @ [m]) @ ms2)" by (rule IH) (use Cons.prems in auto)
    ultimately show ?thesis using False Cons.prems(2) by auto
  qed
qed simp

lemma normalize_group_inv:
  assumes "group_inv s"
  shows "normalize_members (owner_user_id s) (gs_members s) = Ok (gs_members s)"
proof -
  have sorted: "sorted_wrt by_id (gs_members s)" using assms by (simp add: group_inv_def)
  obtain o' where own: "o' \<in> set (gs_members s)" "gm_role o' = Owner" "gm_user_id o' = owner_user_id s"
    using owner_is_member assms by (auto simp: group_inv_def)
  have "gm_role m = Owner" if "m \<in> set (gs_members s)" "gm_user_id m = owner_user_id s" for m
    using find_member_in [OF sorted_by_id_distinct [OF sorted] that(1)]
      find_member_in [OF sorted_by_id_distinct [OF sorted] own(1)] that(2) own(2,3) by simp
  moreover have "owner_user_id s \<in> gm_user_id ` set (gs_members s)" using own(1,3) by (metis imageI)
  moreover have "trim (owner_user_id s) \<noteq> []" using assms own(1,3) by (metis group_inv_def)
  ultimately show ?thesis using normalize_sorted [of "[]" "gs_members s" "owner_user_id s"] sorted assms
    by (simp add: normalize_members_def group_inv_def)
qed

end
