(* ===== verification/Private_Groups_Crypto.thy ===== *)
theory Private_Groups_Crypto
  imports Private_Groups_Thms
begin

text \<open>
  The encrypted side of private groups: invitations restore the state they were made from, directly and
  through a share link, group messages are delivered and authentic, and what somebody who was
  removed can still read.
\<close>

subsection \<open>Snapshots\<close>

definition group_utf8 :: "PrivateGroupState \<Rightarrow> bool" where
  "group_utf8 s \<longleftrightarrow> list_all (\<lambda>m. valid_utf8 (gm_user_id m)) (gs_members s) \<and> valid_utf8 (ga_title (gs_attributes s))
     \<and> pred_option valid_utf8 (ga_description (gs_attributes s)) \<and> pred_option valid_utf8 (ga_avatar_hash_sha256 (gs_attributes s))"

lemma group_records_distinct: "distinct (map rec_ty (group_payload_records s em))"
  by (cases "ga_description (gs_attributes s)"; cases "ga_avatar_hash_sha256 (gs_attributes s)";
      cases "ga_disappearing_message_timer_seconds (gs_attributes s)")
    (simp_all add: group_payload_records_def tag_simps)

lemma group_records_known: "rec_ty ` set (group_payload_records s em) \<subseteq> set KNOWN_GROUP_PAYLOAD_TYPES"
  by (cases "ga_description (gs_attributes s)"; cases "ga_avatar_hash_sha256 (gs_attributes s)";
      cases "ga_disappearing_message_timer_seconds (gs_attributes s)")
    (simp_all add: group_payload_records_def KNOWN_GROUP_PAYLOAD_TYPES_def)

lemma find_value_records:
  "find_value (group_payload_records s em) TLV_OWNER_USER_ID = Some (owner_user_id s)"
  "find_value (group_payload_records s em) TLV_GROUP_TITLE = Some (ga_title (gs_attributes s))"
  "find_value (group_payload_records s em) TLV_GROUP_CREATED_AT = Some (u64_to_be_bytes (gs_created_at_unix_seconds s))"
  "find_value (group_payload_records s em) TLV_GROUP_UPDATED_AT = Some (u64_to_be_bytes (gs_updated_at_unix_seconds s))"
  "find_value (group_payload_records s em) TLV_GROUP_MEMBERS = Some em"
  "find_value (group_payload_records s em) TLV_GROUP_DESCRIPTION = ga_description (gs_attributes s)"
  "find_value (group_payload_records s em) TLV_GROUP_AVATAR_HASH = ga_avatar_hash_sha256 (gs_attributes s)"
  "find_value (group_payload_records s em) TLV_GROUP_TIMER_SECONDS
     = map_option u32_to_be_bytes (ga_disappearing_message_timer_seconds (gs_attributes s))"
  by (cases "ga_description (gs_attributes s)"; cases "ga_avatar_hash_sha256 (gs_attributes s)";
      cases "ga_disappearing_message_timer_seconds (gs_attributes s)";
      simp add: find_value_def group_payload_records_def tag_simps)+

lemma require_find_value: "require rs ty f = ok_or (find_value rs ty) (MissingField f)"
  by (simp add: require_def find_value_def)

lemma transpose_utf8 [simp]: "pred_option valid_utf8 v \<Longrightarrow> transpose_opt (map_option decode_utf8_field v) = Ok v"
  by (cases v) (simp_all add: decode_utf8_field_def from_utf8_def)

lemma transpose_u32 [simp]: "transpose_opt (map_option decode_u32_field (map_option u32_to_be_bytes v)) = Ok v"
  by (cases v) (simp_all add: decode_u32_field_def)

lemma owner_utf8: "group_inv s \<Longrightarrow> group_utf8 s \<Longrightarrow> valid_utf8 (owner_user_id s)"
  using owner_is_member [of s] by (auto simp: group_inv_def group_utf8_def list_all_iff)

lemma decode_encode_group_payload:
  assumes "group_inv s" "group_utf8 s" "encode_group_payload s = Ok payload"
  shows "decode_group_payload (gs_group_id s) (gs_epoch s) (gs_root_secret s) payload = Ok s"
proof -
  from assms(3) obtain em where em: "encode_members (gs_members s) = Ok em" "encode (group_payload_records s em) = Ok payload"
    by (auto simp: encode_group_payload_def)
  have members: "decode_members em = Ok (gs_members s)"
    using decode_encode_members [OF em(1)] assms(2) by (simp add: group_utf8_def list_all_iff)
  have dec: "decode_strict payload KNOWN_GROUP_PAYLOAD_TYPES = Ok (group_payload_records s em)"
    by (rule decode_strict_encode [OF em(2) group_records_distinct group_records_known])
  have utf: "decode_utf8_field (owner_user_id s) = Ok (owner_user_id s)"
      "decode_utf8_field (ga_title (gs_attributes s)) = Ok (ga_title (gs_attributes s))"
      "pred_option valid_utf8 (ga_description (gs_attributes s))" "pred_option valid_utf8 (ga_avatar_hash_sha256 (gs_attributes s))"
    using owner_utf8 [OF assms(1,2)] assms(2) by (simp_all add: decode_utf8_field_def from_utf8_def group_utf8_def)
  have valid: "validate_group_attributes (gs_attributes s) = Ok ()" using assms(1) by (simp add: group_inv_def)
  have u64: "decode_u64_field (u64_to_be_bytes w) = Ok w" for w by (simp add: decode_u64_field_def)
  have attrs: "\<lparr>ga_title = ga_title a, ga_description = ga_description a, ga_avatar_hash_sha256 = ga_avatar_hash_sha256 a,
      ga_disappearing_message_timer_seconds = ga_disappearing_message_timer_seconds a\<rparr> = a" for a :: PrivateGroupAttributes
    by (rule PrivateGroupAttributes.equality) simp_all
  show ?thesis
    unfolding decode_group_payload_def dec and_then_simps require_find_value find_value_records ok_or_simps utf(1,2) u64
      transpose_utf8 [OF utf(3)] transpose_utf8 [OF utf(4)] transpose_u32 members normalize_group_inv [OF assms(1)]
    using valid by (simp add: Let_def attrs)
qed

lemma encode_length_bound: "encode rs = Ok bs \<Longrightarrow> length bs \<le> 65539 * length rs"
proof -
  have "fits rs \<Longrightarrow> length (concat (map record_bytes rs)) \<le> 65539 * length rs"
    by (induction rs) (auto simp: record_bytes_def)
  then show "encode rs = Ok bs \<Longrightarrow> ?thesis" by (simp add: encode_eq_Ok_iff)
qed

lemma unpad_pad_block [simp]: "unpad_plaintext (pad_block bs) = Ok bs"
  using unpad_pad [OF pad_256_Some] by (simp add: pad_block_def)

lemma length_pad_block: "length (pad_block bs) = (length bs div 256 + 1) * 256"
  by (simp only: pad_block_def PADDING_BLOCK_SIZE_def length_pad_256)

lemma payload_fits_aead: "encode_group_payload s = Ok payload \<Longrightarrow> length (pad_block payload) < aead_max"
proof -
  assume "encode_group_payload s = Ok payload"
  then obtain em where "encode (group_payload_records s em) = Ok payload" by (auto simp: encode_group_payload_def)
  from encode_length_bound [OF this] have "length payload \<le> 65539 * 8"
    by (cases "ga_description (gs_attributes s)"; cases "ga_avatar_hash_sha256 (gs_attributes s)";
        cases "ga_disappearing_message_timer_seconds (gs_attributes s)") (simp_all add: group_payload_records_def)
  then show ?thesis unfolding length_pad_block by (simp add: aead_max_def)
qed

lemma group_encrypt_Ok:
  assumes "aead_ok c" "length key = 32" "length msg < aead_max"
  obtains ct where
    "encrypt_with_rng c key msg ad r = (Ok \<lparr>env_nonce = stake 12 r, env_ciphertext = ct, env_aad = ad\<rparr>, sdrop 12 r)"
    and "length ct = length msg + 16"
    and "aead_decrypt c key \<lparr>env_nonce = stake 12 r, env_ciphertext = ct, env_aad = ad\<rparr> = Ok msg"
  using aead_encrypt_Ok [OF assms(1,2) _ assms(3), of "stake 12 r" ad]
  by (auto simp: encrypt_with_rng_def fill_bytes_def)

lemma invite_restores:
  assumes "aead_ok c" "hkdf_ok c" "group_inv s" "group_utf8 s" "encode_group_payload s = Ok payload"
  obtains p r' where "export_invite_package_with_rng c s r = (Ok p, r')" "restore_from_invite_package c p = Ok s"
    "inv_group_id p = gs_group_id s" "inv_epoch p = gs_epoch s"
proof -
  obtain k where k: "derive_snapshot_key c (gs_root_secret s) (gs_group_id s) (gs_epoch s) = Ok k" "length k = 32"
    unfolding derive_snapshot_key_def by (rule hkdf_sha256_32_Ok [OF assms(2)])
  let ?ad = "snapshot_aad (gs_group_id s) (gs_epoch s)"
  obtain ct where ct: "encrypt_with_rng c k (pad_block payload) ?ad r
      = (Ok \<lparr>env_nonce = stake 12 r, env_ciphertext = ct, env_aad = ?ad\<rparr>, sdrop 12 r)"
    "aead_decrypt c k \<lparr>env_nonce = stake 12 r, env_ciphertext = ct, env_aad = ?ad\<rparr> = Ok (pad_block payload)"
    using group_encrypt_Ok [OF assms(1) k(2) payload_fits_aead [OF assms(5)], of ?ad r] by metis
  let ?p = "\<lparr>inv_group_id = gs_group_id s, inv_epoch = gs_epoch s, inv_root_secret = gs_root_secret s,
     inv_snapshot = \<lparr>sn_group_id = gs_group_id s, sn_epoch = gs_epoch s, sn_state_commitment_sha256 = sha256 c payload,
       sn_ciphertext = \<lparr>env_nonce = stake 12 r, env_ciphertext = ct, env_aad = ?ad\<rparr>\<rparr>\<rparr>"
  have "export_invite_package_with_rng c s r = (Ok ?p, sdrop 12 r)"
    using assms(5) k(1) ct(1) by (simp add: export_invite_package_with_rng_def encrypted_snapshot_with_rng_def)
  moreover have "restore_from_invite_package c ?p = Ok s"
    using k(1) ct(2) decode_encode_group_payload [OF assms(3-5)] by (simp add: restore_from_invite_package_def)
  ultimately show thesis by (rule that) simp_all
qed

lemma member_role_normalized:
  assumes "group_inv s" "find_member u (gs_members s) = Some m"
  shows "(if u = owner_user_id s then Owner else gm_role m) = gm_role m" "trim u \<noteq> []"
proof -
  note m = find_member_Some [OF assms(2)]
  have d: "distinct (map gm_user_id (gs_members s))" using assms(1) sorted_by_id_distinct by (simp add: group_inv_def)
  obtain o' where own: "o' \<in> set (gs_members s)" "gm_role o' = Owner" "gm_user_id o' = owner_user_id s"
    using owner_is_member assms(1) by (auto simp: group_inv_def)
  show "(if u = owner_user_id s then Owner else gm_role m) = gm_role m"
    using find_member_in [OF d own(1)] own(2,3) assms(2) by auto
  show "trim u \<noteq> []" using assms(1) m by (auto simp: group_inv_def)
qed

lemma join_package_restores:
  assumes "aead_ok c" "hkdf_ok c" "group_inv s" "group_utf8 s" "encode_group_payload s = Ok payload"
    and "find_member u (gs_members s) = Some m"
  obtains jp r' where "export_join_package_for_member_with_rng c s u r = (Ok jp, r')"
    "restore_state_and_credential c jp = Ok (s, jp_member_credential jp)"
    "mc_member_user_id (jp_member_credential jp) = u" "mc_role (jp_member_credential jp) = gm_role m"
proof -
  note role = member_role_normalized [OF assms(3,6)]
  define cred where "cred = \<lparr>mc_group_id = gs_group_id s, mc_epoch = gs_epoch s, mc_member_user_id = u, mc_role = gm_role m,
    mc_credential_secret = stake 32 r\<rparr>"
  have issued: "issue_member_credential_with_rng s u (gm_role m) r = (Ok cred, sdrop 32 r)"
    using role by (simp add: issue_member_credential_with_rng_def cred_def fill_bytes_def MEMBER_CREDENTIAL_SECRET_BYTES_def)
  obtain p r' where p: "export_invite_package_with_rng c s (sdrop 32 r) = (Ok p, r')" "restore_from_invite_package c p = Ok s"
    "inv_group_id p = gs_group_id s" "inv_epoch p = gs_epoch s"
    by (rule invite_restores [OF assms(1-5)])
  let ?jp = "\<lparr>jp_invite = p, jp_member_credential = cred\<rparr>"
  have "export_join_package_for_member_with_rng c s u r = (Ok ?jp, r')"
    using issued p(1) assms(6)
    by (simp add: export_join_package_for_member_with_rng_def export_join_package_for_member_credential_with_rng_def cred_def)
  moreover have "restore_state_and_credential c ?jp = Ok (s, cred)"
    using p(2-4) assms(6) by (simp add: restore_state_and_credential_def cred_def)
  ultimately show thesis using that [of ?jp r'] by (simp add: cred_def)
qed

definition json_ok :: "json_codec \<Rightarrow> bool" where
  "json_ok j \<longleftrightarrow> (\<forall>jp bs. json_to_vec j jp = Some bs \<longrightarrow> json_from_slice j bs = Some jp)"

lemma share_link_opens:
  assumes "aead_ok c" "hkdf_ok c" "json_ok j" "json_to_vec j jp = Some bs" "length bs < aead_max"
    and "restore_state_and_credential c jp = Ok x"
  obtains lm r' where "encrypt_for_share_link_with_rng c j jp r = (Ok lm, r')"
    "open_join_package c j (lm_envelope lm) (lm_invite_secret lm) = Ok jp"
proof -
  let ?g = "inv_group_id (jp_invite jp)" and ?e = "inv_epoch (jp_invite jp)" and ?s = "stake 32 r" and ?r = "sdrop 32 r"
  obtain k where k: "derive_link_invite_key c ?s ?g ?e = Ok k" "length k = 32"
    unfolding derive_link_invite_key_def by (rule hkdf_sha256_32_Ok [OF assms(2)])
  obtain ct where ct: "encrypt_with_rng c k bs (link_invite_aad ?g ?e) ?r
      = (Ok \<lparr>env_nonce = stake 12 ?r, env_ciphertext = ct, env_aad = link_invite_aad ?g ?e\<rparr>, sdrop 12 ?r)"
    "aead_decrypt c k \<lparr>env_nonce = stake 12 ?r, env_ciphertext = ct, env_aad = link_invite_aad ?g ?e\<rparr> = Ok bs"
    using group_encrypt_Ok [OF assms(1) k(2) assms(5), of "link_invite_aad ?g ?e" ?r] by metis
  let ?lm = "\<lparr>lm_invite_secret = ?s, lm_envelope = \<lparr>li_group_id = ?g, li_epoch = ?e, li_invite_commitment_sha256 = sha256 c ?s,
     li_ciphertext = \<lparr>env_nonce = stake 12 ?r, env_ciphertext = ct, env_aad = link_invite_aad ?g ?e\<rparr>\<rparr>\<rparr>"
  have "encrypt_for_share_link_with_rng c j jp r = (Ok ?lm, sdrop 12 ?r)"
    using assms(4) k(1) ct(1) by (simp add: encrypt_for_share_link_with_rng_def fill_bytes_def ROOT_SECRET_BYTES_def)
  moreover have "open_join_package c j (lm_envelope ?lm) (lm_invite_secret ?lm) = Ok jp"
    using assms(3,4,6) k(1) ct(2) by (simp add: open_join_package_def json_ok_def)
  ultimately show thesis by (rule that)
qed

text \<open>
  C28. Invitations restore the group. For a state that satisfies the invariant, whose texts are valid UTF-8 and
  whose payload fits the record format, every member can be given a join package; the package
  restores exactly the state of the group and the member's credential, and a share link made
  from the package, once it is serialised, opens to the package.
\<close>

theorem invitation_roundtrip:
  assumes "aead_ok c" "hkdf_ok c" "group_inv s" "group_utf8 s" "encode_group_payload s = Ok payload"
    and "find_member u (gs_members s) = Some m" "json_ok j"
  shows "\<exists>jp. fst (export_join_package_for_member_with_rng c s u r) = Ok jp
    \<and> restore_state_and_credential c jp = Ok (s, jp_member_credential jp)
    \<and> mc_member_user_id (jp_member_credential jp) = u \<and> mc_role (jp_member_credential jp) = gm_role m
    \<and> (\<forall>bs. json_to_vec j jp = Some bs \<and> length bs < aead_max \<longrightarrow>
         (\<exists>lm. fst (encrypt_for_share_link_with_rng c j jp r2) = Ok lm
            \<and> open_join_package c j (lm_envelope lm) (lm_invite_secret lm) = Ok jp))"
proof -
  obtain jp r' where jp: "export_join_package_for_member_with_rng c s u r = (Ok jp, r')"
    "restore_state_and_credential c jp = Ok (s, jp_member_credential jp)"
    "mc_member_user_id (jp_member_credential jp) = u" "mc_role (jp_member_credential jp) = gm_role m"
    by (rule join_package_restores [OF assms(1-6)])
  have "\<exists>lm. fst (encrypt_for_share_link_with_rng c j jp r2) = Ok lm
      \<and> open_join_package c j (lm_envelope lm) (lm_invite_secret lm) = Ok jp"
    if "json_to_vec j jp = Some bs" "length bs < aead_max" for bs
    using share_link_opens [OF assms(1,2,7) that jp(2), of r2] by (metis fst_conv)
  with jp show ?thesis by (metis fst_conv)
qed

lemma toy_group_payload: "\<exists>payload. encode_group_payload toy_group = Ok payload"
  by (simp add: encode_group_payload_def encode_members_def toy_group_def validate_user_id_def toy_names toy_attributes_def
      group_payload_records_def encode_fits owner_user_id_def) (simp add: str_bytes_def encode_fits)

lemma toy_group_utf8: "group_utf8 toy_group"
  by (simp add: group_utf8_def toy_group_def toy_attributes_def str_bytes_def)

definition toy_json :: "PrivateGroupJoinPackage \<Rightarrow> json_codec" where
  "toy_json jp = \<lparr>json_to_vec = (\<lambda>x. if x = jp then Some [1] else None), json_from_slice = (\<lambda>bs. if bs = [1] then Some jp else None)\<rparr>"

lemma toy_json_ok: "json_ok (toy_json jp)"
  by (auto simp: json_ok_def toy_json_def split: if_splits)

theorem invitation_roundtrip_witness:
  "\<exists>jp lm. fst (export_join_package_for_member_with_rng toy_crypto toy_group (str_bytes ''bob'') (sconst 0)) = Ok jp
    \<and> restore_state_and_credential toy_crypto jp = Ok (toy_group, jp_member_credential jp)
    \<and> fst (encrypt_for_share_link_with_rng toy_crypto (toy_json jp) jp (sconst 0)) = Ok lm
    \<and> open_join_package toy_crypto (toy_json jp) (lm_envelope lm) (lm_invite_secret lm) = Ok jp"
proof -
  obtain payload where p: "encode_group_payload toy_group = Ok payload" using toy_group_payload by blast
  have m: "find_member (str_bytes ''bob'') (gs_members toy_group) = Some \<lparr>gm_user_id = str_bytes ''bob'', gm_role = Member\<rparr>"
    by (simp add: find_member_def toy_group_def)
  note rt = invitation_roundtrip [OF toy_aead_ok toy_hkdf_ok toy_group_inv toy_group_utf8 p m toy_json_ok, of "sconst 0"]
  obtain jp where jp: "fst (export_join_package_for_member_with_rng toy_crypto toy_group (str_bytes ''bob'') (sconst 0)) = Ok jp"
    using rt by blast
  have "json_to_vec (toy_json jp) jp = Some [1]" "length [1 :: u8] < aead_max" by (simp_all add: toy_json_def aead_max_def)
  with rt [of jp "sconst 0"] jp show ?thesis by (metis Inr_inject)
qed

subsection \<open>Messages\<close>

text \<open>
  What sending produces, for a member and a body that fits: a message of the state's group and epoch,
  signed with both keys, whose ciphertext the message key of that epoch opens.
\<close>

lemma group_message_sent:
  assumes "aead_ok c" "hkdf_ok c" "ed25519_ok c" "length sk = 32" "pqsig_pair_ok pq pqpk pqsk"
    and "find_member sender (gs_members s) = Some m" "trim sender \<noteq> []" "trim body \<noteq> []" "length body < 65280"
    and "length (gs_group_id s) + length sender \<le> 65000"
  obtains msg r' os' t sig pqs k where
    "group_encrypt_message_with_rng c s sender sk pqsk body sent pq r os = (Ok msg, r', os')"
    "em_group_id msg = gs_group_id s" "em_epoch msg = gs_epoch s" "em_sender_user_id msg = sender" "em_sent_at_unix_ms msg = sent"
    "env_aad (em_ciphertext msg) = message_aad (gs_group_id s) (gs_epoch s) sender sent"
    "encode_message_signature_payload msg = Ok t" "hs_decode (em_sender_hybrid_signature msg) = Ok \<lparr>hs_ed25519_sig = sig, hs_pq_sig = pqs\<rparr>"
    "ed25519_sig_ok c sig" "ed25519_verify c (ed25519_public c sk) t sig" "pqsig_verify pq pqpk t pqs = Ok ()"
    "derive_message_key c (gs_root_secret s) (gs_group_id s) (gs_epoch s) = Ok k"
    "aead_decrypt c k (em_ciphertext msg) = Ok (pad_block body)"
proof -
  let ?ad = "message_aad (gs_group_id s) (gs_epoch s) sender sent"
  obtain k where k: "derive_message_key c (gs_root_secret s) (gs_group_id s) (gs_epoch s) = Ok k" "length k = 32"
    unfolding derive_message_key_def by (rule hkdf_sha256_32_Ok [OF assms(2)])
  have plen: "length (pad_block body) \<le> 65280" using assms(9) unfolding length_pad_block by simp
  then have "length (pad_block body) < aead_max" by (simp add: aead_max_def)
  from group_encrypt_Ok [OF assms(1) k(2) this, of ?ad r] obtain ct where ct:
    "encrypt_with_rng c k (pad_block body) ?ad r = (Ok \<lparr>env_nonce = stake 12 r, env_ciphertext = ct, env_aad = ?ad\<rparr>, sdrop 12 r)"
    "length ct = length (pad_block body) + 16"
    "aead_decrypt c k \<lparr>env_nonce = stake 12 r, env_ciphertext = ct, env_aad = ?ad\<rparr> = Ok (pad_block body)" by metis
  let ?msg = "\<lparr>em_group_id = gs_group_id s, em_epoch = gs_epoch s, em_sender_user_id = sender, em_sent_at_unix_ms = sent,
     em_ciphertext = \<lparr>env_nonce = stake 12 r, env_ciphertext = ct, env_aad = ?ad\<rparr>, em_sender_hybrid_signature = []\<rparr>"
  have "length GROUP_MESSAGE_AAD_LABEL \<le> 100" "length GROUP_MESSAGE_SIGNATURE_LABEL \<le> 100"
    by (simp_all add: GROUP_MESSAGE_AAD_LABEL_def GROUP_MESSAGE_SIGNATURE_LABEL_def str_bytes_def)
  then have "is_ok (encode_message_signature_payload ?msg)"
    using assms(10) ct(2) plen
    by (simp add: encode_message_signature_payload_def message_signature_records_def encode_fits message_aad_def)
  then obtain t where t: "encode_message_signature_payload ?msg = Ok t" by (auto simp: is_ok_iff)
  obtain pqs os' where pqs: "pqsig_sign pq pqsk t os = (Ok pqs, os')" "pqs \<noteq> []" "pqsig_verify pq pqpk t pqs = Ok ()"
    by (rule pqsig_pair_okD [OF assms(5)])
  let ?sig = "ed25519_sign c sk t"
  have ed: "length ?sig = 64" "ed25519_sig_ok c ?sig" "ed25519_verify c (ed25519_public c sk) t ?sig"
    using assms(3,4) by (simp_all add: ed25519_ok_def)
  let ?m = "?msg\<lparr>em_sender_hybrid_signature := hs_encode \<lparr>hs_ed25519_sig = ?sig, hs_pq_sig = pqs\<rparr>\<rparr>"
  have mem: "list_ex (\<lambda>m. gm_user_id m = sender) (gs_members s)" using find_member_Some [OF assms(6)] by (auto simp: list_ex_iff)
  have "group_encrypt_message_with_rng c s sender sk pqsk body sent pq r os = (Ok ?m, sdrop 12 r, os')"
    using assms(4,7,8) mem k(1) ct(1) t pqs(1)
    by (simp add: group_encrypt_message_with_rng_def decode_ed25519_signing_key_def Let_def)
  moreover have "encode_message_signature_payload ?m = Ok t"
    using t by (simp add: encode_message_signature_payload_def message_signature_records_def)
  moreover have "hs_decode (em_sender_hybrid_signature ?m) = Ok \<lparr>hs_ed25519_sig = ?sig, hs_pq_sig = pqs\<rparr>"
    using ed(1) pqs(2) by (simp add: hs_decode_def hs_encode_def)
  ultimately show thesis using that [of ?m "sdrop 12 r" os' t ?sig pqs k] ed(2,3) pqs(3) k(1) ct(3) by simp
qed

lemma group_message_read:
  assumes "em_group_id msg = gs_group_id s" "em_epoch msg = gs_epoch s" "find_member (em_sender_user_id msg) (gs_members s) = Some m"
    and "env_aad (em_ciphertext msg) = message_aad (gs_group_id s) (gs_epoch s) (em_sender_user_id msg) (em_sent_at_unix_ms msg)"
    and "encode_message_signature_payload msg = Ok t" "hs_decode (em_sender_hybrid_signature msg) = Ok \<lparr>hs_ed25519_sig = sig, hs_pq_sig = pqs\<rparr>"
    and "length pk = 32" "ed25519_key_ok c pk" "ed25519_sig_ok c sig" "ed25519_verify c pk t sig" "pqsig_verify pq pqpk t pqs = Ok ()"
    and "derive_message_key c (gs_root_secret s) (gs_group_id s) (gs_epoch s) = Ok k"
    and "aead_decrypt c k (em_ciphertext msg) = Ok (pad_block body)" "valid_utf8 body" "trim body \<noteq> []"
  shows "group_decrypt_message c s msg pk pqpk pq = Ok \<lparr>dm_group_id = gs_group_id s, dm_epoch = gs_epoch s,
    dm_sender_user_id = em_sender_user_id msg, dm_sent_at_unix_ms = em_sent_at_unix_ms msg, dm_body = body\<rparr>"
proof -
  have "list_ex (\<lambda>m. gm_user_id m = em_sender_user_id msg) (gs_members s)"
    using find_member_Some [OF assms(3)] by (auto simp: list_ex_iff)
  then show ?thesis using assms
    by (simp add: group_decrypt_message_def validate_private_group_message_membership_def decode_ed25519_verifying_key_def
        from_utf8_def)
qed

lemma group_message_delivered:
  assumes "aead_ok c" "hkdf_ok c" "ed25519_ok c" "length sk = 32" "pqsig_pair_ok pq pqpk pqsk" "group_inv s"
    and "find_member sender (gs_members s) = Some m" "trim body \<noteq> []" "valid_utf8 body" "length body < 65280"
    and "length (gs_group_id s) + length sender \<le> 65000"
  shows "\<exists>msg. fst (group_encrypt_message_with_rng c s sender sk pqsk body sent pq r os) = Ok msg
    \<and> group_decrypt_message c s msg (ed25519_public c sk) pqpk pq = Ok \<lparr>dm_group_id = gs_group_id s, dm_epoch = gs_epoch s,
        dm_sender_user_id = sender, dm_sent_at_unix_ms = sent, dm_body = body\<rparr>"
proof -
  have pk: "length (ed25519_public c sk) = 32" "ed25519_key_ok c (ed25519_public c sk)" using assms(3,4) by (simp_all add: ed25519_ok_def)
  note sent = group_message_sent [OF assms(1-5,7) member_role_normalized(2) [OF assms(6,7)] assms(8,10,11)]
  show ?thesis
    by (rule sent [of sent r os]) (use group_message_read [of _ s m _ _ _ "ed25519_public c sk" c pq pqpk _ body] pk assms(7-9) in auto)
qed

text \<open>
  C8. Group messages are delivered. What a member encrypts, every holder of the same group state decrypts to the
  same body, with the sender, the time and the epoch as sent, given the sender's verification keys.
\<close>

theorem group_message_delivery:
  assumes "aead_ok c" "hkdf_ok c" "ed25519_ok c" "length sk = 32" "pqsig_pair_ok pq pqpk pqsk" "group_inv s"
    and "find_member sender (gs_members s) = Some m" "trim body \<noteq> []" "valid_utf8 body" "length body < 65280"
    and "length (gs_group_id s) + length sender \<le> 65000"
  shows "\<exists>msg. fst (group_encrypt_message_with_rng c s sender sk pqsk body sent pq r os) = Ok msg
    \<and> group_decrypt_message c s msg (ed25519_public c sk) pqpk pq = Ok \<lparr>dm_group_id = gs_group_id s, dm_epoch = gs_epoch s,
        dm_sender_user_id = sender, dm_sent_at_unix_ms = sent, dm_body = body\<rparr>"
  using group_message_delivered [OF assms] .

lemma toy_body: "trim (str_bytes ''hi'') \<noteq> []" "valid_utf8 (str_bytes ''hi'')" "length (str_bytes ''hi'') < 65280"
proof -
  have "trim (str_bytes ''hi'') = str_bytes ''hi''"
    by (simp add: trim_plain str_bytes_def ws_prefix_len_def ws_suffix_len_def ws_chars_def)
  then show "trim (str_bytes ''hi'') \<noteq> []" by (simp add: str_bytes_def)
qed (simp_all add: str_bytes_def)

lemma toy_bob: "find_member (str_bytes ''bob'') (gs_members toy_group) = Some \<lparr>gm_user_id = str_bytes ''bob'', gm_role = Member\<rparr>"
  by (simp add: find_member_def toy_group_def)

lemma toy_group_id_length: "length (gs_group_id toy_group) + length (str_bytes ''bob'') \<le> 65000"
  by (simp add: toy_group_def hex_encode_def str_bytes_def length_concat comp_def sum_list_replicate)

lemma toy_signing: "length (replicate 32 (9 :: u8)) = 32" "pqsig_pair_ok toy_pqsig (replicate 32 5) (replicate 32 5)"
  by simp_all

theorem group_message_delivery_witness:
  "\<exists>msg d. fst (group_encrypt_message_with_rng toy_crypto toy_group (str_bytes ''bob'') (replicate 32 9) (replicate 32 5)
      (str_bytes ''hi'') 77 toy_pqsig (sconst 0) (sconst 1)) = Ok msg
    \<and> group_decrypt_message toy_crypto toy_group msg (ed25519_public toy_crypto (replicate 32 9)) (replicate 32 5) toy_pqsig = Ok d
    \<and> dm_body d = str_bytes ''hi''"
  using group_message_delivery [OF toy_aead_ok toy_hkdf_ok toy_ed25519_ok toy_signing toy_group_inv toy_bob toy_body toy_group_id_length,
      of 77 "sconst 0" "sconst 1"] by fastforce

text \<open>
  C9. Group messages are authentic. If a member decrypts a message, its sender is a member of the current epoch, both
  the Ed25519 and the post-quantum signature verify on a transcript, and the transcript determines
  every field of the message: no other group, epoch, sender, time or ciphertext has the same one.
\<close>

theorem group_message_authentic:
  assumes "group_decrypt_message c s msg pk pqpk pq = Ok d"
  shows "em_group_id msg = gs_group_id s \<and> em_epoch msg = gs_epoch s \<and> dm_sender_user_id d = em_sender_user_id msg
    \<and> find_member (dm_sender_user_id d) (gs_members s) \<noteq> None
    \<and> (\<exists>t hs. encode_message_signature_payload msg = Ok t \<and> hs_decode (em_sender_hybrid_signature msg) = Ok hs
        \<and> ed25519_verify c pk t (hs_ed25519_sig hs) \<and> pqsig_verify pq pqpk t (hs_pq_sig hs) = Ok ()
        \<and> (\<forall>msg'. encode_message_signature_payload msg' = Ok t \<longrightarrow>
             msg' = msg\<lparr>em_sender_hybrid_signature := em_sender_hybrid_signature msg'\<rparr>))"
proof -
  from assms obtain t hs where v: "validate_private_group_message_membership s msg = Ok ()"
    and t: "encode_message_signature_payload msg = Ok t" and hs: "hs_decode (em_sender_hybrid_signature msg) = Ok hs"
    and sig: "ed25519_verify c pk t (hs_ed25519_sig hs)" "pqsig_verify pq pqpk t (hs_pq_sig hs) = Ok ()"
    and d: "dm_sender_user_id d = em_sender_user_id msg"
    by (auto simp: group_decrypt_message_def decode_ed25519_verifying_key_def split: if_splits)
  have "msg' = msg\<lparr>em_sender_hybrid_signature := em_sender_hybrid_signature msg'\<rparr>"
    if "encode_message_signature_payload msg' = Ok t" for msg'
  proof -
    have "message_signature_records msg' = message_signature_records msg"
      using that t encode_inject unfolding encode_message_signature_payload_def by blast
    then have "em_group_id msg' = em_group_id msg" "em_epoch msg' = em_epoch msg" "em_sender_user_id msg' = em_sender_user_id msg"
      "em_sent_at_unix_ms msg' = em_sent_at_unix_ms msg" "em_ciphertext msg' = em_ciphertext msg"
      by (simp_all add: message_signature_records_def CiphertextEnvelope.equality)
    then show ?thesis by (intro PrivateGroupEncryptedMessage.equality) simp_all
  qed
  moreover from v have "em_group_id msg = gs_group_id s" "em_epoch msg = gs_epoch s"
    "find_member (em_sender_user_id msg) (gs_members s) \<noteq> None"
    by (auto simp: validate_private_group_message_membership_def find_member_def find_None_iff list_ex_iff split: if_splits)
  ultimately show ?thesis using t hs sig d by auto
qed

theorem group_message_authentic_witness:
  "\<exists>msg d. group_decrypt_message toy_crypto toy_group msg (ed25519_public toy_crypto (replicate 32 9)) (replicate 32 5) toy_pqsig = Ok d
    \<and> em_group_id msg = gs_group_id toy_group \<and> find_member (dm_sender_user_id d) (gs_members toy_group) \<noteq> None"
proof -
  have "\<exists>msg d. group_decrypt_message toy_crypto toy_group msg (ed25519_public toy_crypto (replicate 32 9)) (replicate 32 5) toy_pqsig = Ok d"
    using group_message_delivered [OF toy_aead_ok toy_hkdf_ok toy_ed25519_ok toy_signing toy_group_inv toy_bob toy_body toy_group_id_length] by blast
  then show ?thesis using group_message_authentic by blast
qed

text \<open>
  C29. A removed member reads on. After a member is removed and the epoch has moved on, the message that a remaining
  member sends decrypts with the state that the removed member had before the removal, its epoch
  counted up by one: the root secret, from which all message keys derive, is not renewed.
\<close>

theorem removed_member_reads:
  assumes "aead_ok c" "hkdf_ok c" "ed25519_ok c" "length sk = 32" "pqsig_pair_ok pq pqpk pqsk" "group_inv s"
    and "remove_member s removed t = Ok (True, s')" "gs_epoch s \<noteq> u64_MAX"
    and "find_member sender (gs_members s') = Some m" "trim body \<noteq> []" "valid_utf8 body" "length body < 65280"
    and "length (gs_group_id s) + length sender \<le> 65000"
  shows "find_member removed (gs_members s') = None
    \<and> (\<exists>msg. fst (group_encrypt_message_with_rng c s' sender sk pqsk body sent pq r os) = Ok msg
      \<and> group_decrypt_message c (s\<lparr>gs_epoch := gs_epoch s + 1\<rparr>) msg (ed25519_public c sk) pqpk pq
          = Ok \<lparr>dm_group_id = gs_group_id s, dm_epoch = gs_epoch s', dm_sender_user_id = sender,
              dm_sent_at_unix_ms = sent, dm_body = body\<rparr>)"
proof -
  have s': "gs_group_id s' = gs_group_id s" "gs_root_secret s' = gs_root_secret s" "gs_epoch s' = gs_epoch s + 1"
    "gs_members s' = filter (\<lambda>m. gm_user_id m \<noteq> removed) (gs_members s)"
    using assms(7,8) by (auto simp: remove_member_def Let_def bump_epoch_def split: if_splits)
  have inv': "group_inv s'" by (rule remove_member_inv [OF assms(6,7)])
  have "m \<in> set (gs_members s)" "gm_user_id m = sender" using find_member_Some [OF assms(9)] s'(4) by auto
  then have mem: "find_member sender (gs_members s) = Some m"
    using find_member_in sorted_by_id_distinct assms(6) unfolding group_inv_def by metis
  have pk: "length (ed25519_public c sk) = 32" "ed25519_key_ok c (ed25519_public c sk)" using assms(3,4) by (simp_all add: ed25519_ok_def)
  have len: "length (gs_group_id s') + length sender \<le> 65000" using assms(13) s'(1) by simp
  note sent = group_message_sent [OF assms(1-5,9) member_role_normalized(2) [OF inv' assms(9)] assms(10,12) len]
  let ?old = "s\<lparr>gs_epoch := gs_epoch s + 1\<rparr>"
  have "\<exists>msg. fst (group_encrypt_message_with_rng c s' sender sk pqsk body sent pq r os) = Ok msg
      \<and> group_decrypt_message c ?old msg (ed25519_public c sk) pqpk pq
          = Ok \<lparr>dm_group_id = gs_group_id s, dm_epoch = gs_epoch s', dm_sender_user_id = sender,
              dm_sent_at_unix_ms = sent, dm_body = body\<rparr>"
    by (rule sent [of sent r os])
      (use group_message_read [of _ ?old m _ _ _ "ed25519_public c sk" c pq pqpk _ body] pk mem assms(10,11) s' in auto)
  moreover have "find_member removed (gs_members s') = None" using s'(4) by (auto simp: find_member_None)
  ultimately show ?thesis by blast
qed

theorem removed_member_reads_witness:
  "\<exists>s' msg d. remove_member toy_group (str_bytes ''carol'') 9 = Ok (True, s') \<and> find_member (str_bytes ''carol'') (gs_members s') = None
    \<and> fst (group_encrypt_message_with_rng toy_crypto s' (str_bytes ''bob'') (replicate 32 9) (replicate 32 5)
      (str_bytes ''hi'') 77 toy_pqsig (sconst 0) (sconst 1)) = Ok msg
    \<and> group_decrypt_message toy_crypto (toy_group\<lparr>gs_epoch := 2\<rparr>) msg (ed25519_public toy_crypto (replicate 32 9)) (replicate 32 5) toy_pqsig = Ok d
    \<and> dm_body d = str_bytes ''hi''"
proof -
  have "\<exists>s'. remove_member toy_group (str_bytes ''carol'') 9 = Ok (True, s')
      \<and> find_member (str_bytes ''bob'') (gs_members s') = Some \<lparr>gm_user_id = str_bytes ''bob'', gm_role = Member\<rparr>"
    unfolding remove_member_def toy_group_owner by (simp add: toy_group_def find_member_def str_bytes_def)
  then obtain s' where s': "remove_member toy_group (str_bytes ''carol'') 9 = Ok (True, s')"
    "find_member (str_bytes ''bob'') (gs_members s') = Some \<lparr>gm_user_id = str_bytes ''bob'', gm_role = Member\<rparr>" by blast
  have e: "gs_epoch toy_group \<noteq> u64_MAX" "gs_epoch toy_group + 1 = 2" by (simp_all add: toy_group_def)
  from removed_member_reads [OF toy_aead_ok toy_hkdf_ok toy_ed25519_ok toy_signing toy_group_inv s'(1) e(1) s'(2) toy_body toy_group_id_length,
      of 77 "sconst 0" "sconst 1"] s'(1) show ?thesis unfolding e(2) by fastforce
qed

end
