(* ===== verification/Server_Validation.thy ===== *)
theory Server_Validation
  imports Handshake
begin

text \<open>
  \<^verbatim>\<open>error.rs\<close> and \<^verbatim>\<open>validation.rs\<close> of \<^verbatim>\<open>pqmsg-server\<close>: the checks on identifiers, names, tokens,
  encoded keys and signatures that every handler runs before it touches the database, with the limits
  from \<^verbatim>\<open>lib.rs\<close>. An error keeps the status and the title of the HTTP response and the detail text.
  An \<^verbatim>\<open>i64\<close> is a 64 bit word that \<open>sint\<close> reads. The engine of the \<^verbatim>\<open>base64\<close> crate is a parameter.
\<close>

type_synonym i64 = "64 word"

record AppError =
  ae_status :: nat
  ae_title :: string
  ae_detail :: rstr

type_synonym 'a app_result = "AppError + 'a"

definition bad_request :: "rstr \<Rightarrow> AppError" where
  "bad_request detail = \<lparr>ae_status = 400, ae_title = ''Bad Request'', ae_detail = detail\<rparr>"

definition not_found :: "rstr \<Rightarrow> AppError" where
  "not_found detail = \<lparr>ae_status = 404, ae_title = ''Not Found'', ae_detail = detail\<rparr>"

definition rate_limited :: "rstr \<Rightarrow> AppError" where
  "rate_limited detail = \<lparr>ae_status = 429, ae_title = ''Too Many Requests'', ae_detail = detail\<rparr>"

definition conflict :: "rstr \<Rightarrow> AppError" where
  "conflict detail = \<lparr>ae_status = 409, ae_title = ''Conflict'', ae_detail = detail\<rparr>"

definition forbidden :: "rstr \<Rightarrow> AppError" where
  "forbidden detail = \<lparr>ae_status = 403, ae_title = ''Forbidden'', ae_detail = detail\<rparr>"

definition internal :: "rstr \<Rightarrow> AppError" where
  "internal detail = \<lparr>ae_status = 500, ae_title = ''Internal Server Error'', ae_detail = detail\<rparr>"

text \<open>\<^verbatim>\<open>map_err\<close> with a constant error, and the conversion of a count to text in \<^verbatim>\<open>format!\<close>.\<close>

definition map_err :: "'f \<Rightarrow> 'e + 'a \<Rightarrow> 'f + 'a" where
  "map_err e r = (case r of Inl _ \<Rightarrow> Err e | Inr x \<Rightarrow> Ok x)"

lemma map_err_simps [simp]: "map_err e (Err e') = Err e" "map_err e (Ok x) = Ok x"
  by (simp_all add: map_err_def)

lemma map_err_eq_Ok [simp]: "map_err e r = Ok x \<longleftrightarrow> r = Ok x"
  by (cases r) auto

definition MAX_USER_ID_LEN :: usize where "MAX_USER_ID_LEN = 128"
definition MAX_DEVICE_ID_LEN :: usize where "MAX_DEVICE_ID_LEN = 128"
definition X25519_KEY_LEN :: usize where "X25519_KEY_LEN = 32"
definition SIG_PUB_KEY_LEN :: usize where "SIG_PUB_KEY_LEN = 32"
definition SIG_LEN :: usize where "SIG_LEN = 64"
definition PQ_SIG_PUB_KEY_LEN :: usize where "PQ_SIG_PUB_KEY_LEN = ML_DSA_65_PK_LEN"
definition PQ_SIG_LEN :: usize where "PQ_SIG_LEN = ML_DSA_65_SIG_LEN"
definition MAX_ONE_TIME_KEYS :: usize where "MAX_ONE_TIME_KEYS = 256"
definition MAX_PUSH_TOKEN_LEN :: usize where "MAX_PUSH_TOKEN_LEN = 4096"
definition MAX_CONTACT_ALIAS_LEN :: usize where "MAX_CONTACT_ALIAS_LEN = 128"
definition MAX_PROFILE_DISPLAY_NAME_LEN :: usize where "MAX_PROFILE_DISPLAY_NAME_LEN = 128"
definition MAX_USERNAME_LEN :: usize where "MAX_USERNAME_LEN = 32"
definition MAX_MIME_TYPE_LEN :: usize where "MAX_MIME_TYPE_LEN = 128"
definition MAX_FILE_ID_LEN :: usize where "MAX_FILE_ID_LEN = 128"
definition SHA256_HEX_LEN :: usize where "SHA256_HEX_LEN = 64"
definition MAX_DISCOVERY_HASHES :: usize where "MAX_DISCOVERY_HASHES = 4096"
definition MAX_GROUP_MEMBERS :: usize where "MAX_GROUP_MEMBERS = 512"
definition MAX_ROTATION_CHALLENGE_ID_LEN :: usize where "MAX_ROTATION_CHALLENGE_ID_LEN = 128"
definition PREKEY_LOW_WATERMARK :: i64 where "PREKEY_LOW_WATERMARK = 4"
definition ROTATE_SIG_TAG_USER_ID :: u16 where "ROTATE_SIG_TAG_USER_ID = critical_type 0x3101"
definition ROTATE_SIG_TAG_CHALLENGE_ID :: u16 where "ROTATE_SIG_TAG_CHALLENGE_ID = critical_type 0x3102"
definition ROTATE_SIG_TAG_CHALLENGE_NONCE :: u16 where "ROTATE_SIG_TAG_CHALLENGE_NONCE = critical_type 0x3103"
definition ROTATE_SIG_TAG_NEW_IDENTITY_X25519 :: u16 where "ROTATE_SIG_TAG_NEW_IDENTITY_X25519 = critical_type 0x3104"
definition ROTATE_SIG_TAG_NEW_IDENTITY_SIG :: u16 where "ROTATE_SIG_TAG_NEW_IDENTITY_SIG = critical_type 0x3105"
definition ROTATE_SIG_TAG_NEW_DEVICE_ID :: u16 where "ROTATE_SIG_TAG_NEW_DEVICE_ID = critical_type 0x3106"
definition ROTATE_SIG_TAG_NEW_IDENTITY_PQ_SIG :: u16 where "ROTATE_SIG_TAG_NEW_IDENTITY_PQ_SIG = critical_type 0x3107"

subsection \<open>Lists\<close>

text \<open>\<^verbatim>\<open>sort_unstable\<close> on strings; \<^verbatim>\<open>dedup\<close> removes adjacent duplicates.\<close>

fun str_insort :: "rstr \<Rightarrow> rstr list \<Rightarrow> rstr list" where
  "str_insort x [] = [x]"
| "str_insort x (y # ys) = (if str_le x y then x # y # ys else y # str_insort x ys)"

definition str_sort :: "rstr list \<Rightarrow> rstr list" where
  "str_sort xs = foldr str_insort xs []"

definition is_prekey_inventory_low :: "i64 \<Rightarrow> i64 \<Rightarrow> bool" where
  "is_prekey_inventory_low remaining_x remaining_pq \<longleftrightarrow>
     sint remaining_x \<le> sint PREKEY_LOW_WATERMARK \<or> sint remaining_pq \<le> sint PREKEY_LOW_WATERMARK"

definition validate_id :: "string \<Rightarrow> rstr \<Rightarrow> unit app_result" where
  "validate_id fld value =
     (let len = length (trim value) in
      if len = 0 \<or> len > MAX_USER_ID_LEN \<or> len > MAX_DEVICE_ID_LEN
      then Err (bad_request (str_bytes (fld @ '' must be 1..128 non-whitespace characters''))) else Ok ())"

definition normalize_group_members :: "rstr list \<Rightarrow> rstr list app_result" where
  "normalize_group_members raw_members =
     and_then (collect_ok (\<lambda>member. and_then (validate_id ''member_user_ids[]'' member) (\<lambda>_. Ok (trim member))) raw_members)
       (\<lambda>members. let members = remdups_adj (str_sort members) in
         if length members > MAX_GROUP_MEMBERS
         then Err (bad_request (str_bytes ''member_user_ids cannot exceed '' @ dec_digits MAX_GROUP_MEMBERS))
         else Ok members)"

definition normalize_message_ids :: "i64 list \<Rightarrow> i64 list" where
  "normalize_message_ids message_ids = remdups_adj (sort_key sint message_ids)"

definition hash_string_list_sha256 :: "crypto \<Rightarrow> rstr list \<Rightarrow> bytes" where
  "hash_string_list_sha256 c values = sha256 c (concat values)"

definition validate_rotation_challenge_id :: "rstr \<Rightarrow> unit app_result" where
  "validate_rotation_challenge_id value =
     (let trimmed = trim value in
      if trimmed = [] \<or> length trimmed > MAX_ROTATION_CHALLENGE_ID_LEN
      then Err (bad_request (str_bytes ''challenge_id must be 1..'' @ dec_digits MAX_ROTATION_CHALLENGE_ID_LEN
        @ str_bytes '' characters'')) else Ok ())"

definition validate_one_time_count :: "string \<Rightarrow> usize \<Rightarrow> unit app_result" where
  "validate_one_time_count fld count =
     (if count > MAX_ONE_TIME_KEYS
      then Err (bad_request (str_bytes (fld @ '' cannot contain more than '') @ dec_digits MAX_ONE_TIME_KEYS
        @ str_bytes '' items'')) else Ok ())"

subsection \<open>Push tokens\<close>

datatype PushProvider = Fcm | Apns

definition push_provider_as_str :: "PushProvider \<Rightarrow> rstr" where
  "push_provider_as_str p = (case p of Fcm \<Rightarrow> str_bytes ''fcm'' | Apns \<Rightarrow> str_bytes ''apns'')"

definition push_provider_parse :: "rstr \<Rightarrow> PushProvider option" where
  "push_provider_parse raw =
     (let s = to_ascii_lowercase (trim raw) in
      if s = str_bytes ''fcm'' then Some Fcm else if s = str_bytes ''apns'' then Some Apns else None)"

record RegisterPushTokenRequest =
  rpt_device_id :: rstr
  rpt_provider :: "rstr option"
  rpt_token :: "rstr option"
  rpt_fcm_token :: "rstr option"

definition resolve_push_token_payload :: "RegisterPushTokenRequest \<Rightarrow> (PushProvider \<times> rstr) app_result" where
  "resolve_push_token_payload request =
     and_then (case rpt_provider request of
         Some raw \<Rightarrow> ok_or (push_provider_parse raw) (bad_request (str_bytes ''provider must be one of: fcm, apns''))
       | None \<Rightarrow> Ok Fcm) (\<lambda>provider.
     and_then (ok_or (case rpt_token request of Some t \<Rightarrow> Some t | None \<Rightarrow> rpt_fcm_token request)
         (bad_request (str_bytes ''push token is required''))) (\<lambda>token.
     Ok (provider, token)))"

definition validate_push_token :: "PushProvider \<Rightarrow> rstr \<Rightarrow> rstr app_result" where
  "validate_push_token provider value =
     (let trimmed = trim value in
      if trimmed = [] \<or> length trimmed > MAX_PUSH_TOKEN_LEN
      then Err (bad_request (str_bytes ''token must be 1..='' @ dec_digits MAX_PUSH_TOKEN_LEN @ str_bytes '' characters''))
      else case provider of
        Fcm \<Rightarrow> Ok trimmed
      | Apns \<Rightarrow>
          if \<not> list_all is_ascii_hexdigit trimmed
          then Err (bad_request (str_bytes ''apns token must contain only hexadecimal characters''))
          else if length trimmed < 64 \<or> length trimmed > 512
          then Err (bad_request (str_bytes ''apns token must be 64..=512 hexadecimal characters''))
          else Ok trimmed)"

subsection \<open>Files, names and status\<close>

definition is_ascii_alphanumeric :: "u8 \<Rightarrow> bool" where
  "is_ascii_alphanumeric b \<longleftrightarrow> (0x30 \<le> b \<and> b \<le> 0x39) \<or> (0x41 \<le> b \<and> b \<le> 0x5A) \<or> (0x61 \<le> b \<and> b \<le> 0x7A)"

definition validate_file_id :: "rstr \<Rightarrow> unit app_result" where
  "validate_file_id value =
     (let trimmed = trim value in
      if trimmed = [] \<or> length trimmed > MAX_FILE_ID_LEN
      then Err (bad_request (str_bytes ''file_id must be 1..='' @ dec_digits MAX_FILE_ID_LEN @ str_bytes '' characters''))
      else if \<not> list_all (\<lambda>b. is_ascii_alphanumeric b \<or> b = of_char CHR ''-'' \<or> b = of_char CHR ''_'') trimmed
      then Err (bad_request (str_bytes ''file_id must contain only [A-Za-z0-9_-]''))
      else Ok ())"

definition validate_mime_type :: "string \<Rightarrow> rstr \<Rightarrow> rstr app_result" where
  "validate_mime_type fld value =
     (let trimmed = trim value in
      if trimmed = [] \<or> length trimmed > MAX_MIME_TYPE_LEN
      then Err (bad_request (str_bytes (fld @ '' must be 1..='') @ dec_digits MAX_MIME_TYPE_LEN @ str_bytes '' characters''))
      else if \<not> list_all (\<lambda>b. is_ascii_alphanumeric b \<or> b = of_char CHR ''/'' \<or> b = of_char CHR ''-''
          \<or> b = of_char CHR ''+'' \<or> b = of_char CHR ''.'') trimmed
      then Err (bad_request (str_bytes (fld @ '' contains invalid characters'')))
      else if of_char CHR ''/'' \<notin> set trimmed
      then Err (bad_request (str_bytes (fld @ '' must include type/subtype'')))
      else Ok (to_ascii_lowercase trimmed))"

definition validate_optional_mime_type :: "string \<Rightarrow> rstr option \<Rightarrow> rstr option app_result" where
  "validate_optional_mime_type fld value =
     (case value of
        None \<Rightarrow> Ok None
      | Some raw \<Rightarrow> let trimmed = trim raw in
          if trimmed = [] then Ok None
          else and_then (validate_mime_type fld trimmed) (\<lambda>v. Ok (Some v)))"

definition validate_optional_profile_display_name :: "rstr option \<Rightarrow> rstr option app_result" where
  "validate_optional_profile_display_name value =
     (case value of
        None \<Rightarrow> Ok None
      | Some raw \<Rightarrow> let trimmed = trim raw in
          if trimmed = [] then Ok None
          else if length trimmed > MAX_PROFILE_DISPLAY_NAME_LEN
          then Err (bad_request (str_bytes ''display_name must be <= '' @ dec_digits MAX_PROFILE_DISPLAY_NAME_LEN
            @ str_bytes '' characters''))
          else Ok (Some trimmed))"

definition is_valid_core :: "u8 \<Rightarrow> bool" where
  "is_valid_core b \<longleftrightarrow> (0x61 \<le> b \<and> b \<le> 0x7A) \<or> (0x30 \<le> b \<and> b \<le> 0x39)"

definition is_valid_punct :: "u8 \<Rightarrow> bool" where
  "is_valid_punct b \<longleftrightarrow> b = of_char CHR ''.'' \<or> b = of_char CHR ''_''"

fun username_loop :: "bool \<Rightarrow> bytes \<Rightarrow> unit app_result" where
  "username_loop previous_was_punct [] = Ok ()"
| "username_loop previous_was_punct (b # bs) =
     (if is_valid_core b then username_loop False bs
      else if \<not> is_valid_punct b
      then Err (bad_request (str_bytes ''username must contain only lowercase letters, digits, '' @ [39] @ str_bytes ''.''
        @ [39] @ str_bytes '' or '' @ [39] @ str_bytes ''_'' @ [39]))
      else if previous_was_punct then Err (bad_request (str_bytes ''username cannot contain consecutive punctuation''))
      else username_loop True bs)"

definition validate_username :: "rstr \<Rightarrow> rstr app_result" where
  "validate_username value =
     (let normalized = to_ascii_lowercase (dropWhile (\<lambda>b. b = of_char CHR ''@'') (trim value)) in
      if length normalized < 3 \<or> length normalized > MAX_USERNAME_LEN
      then Err (bad_request (str_bytes ''username must be 3..='' @ dec_digits MAX_USERNAME_LEN @ str_bytes '' characters''))
      else if \<not> is_valid_core (hd normalized) \<or> \<not> is_valid_core (last normalized)
      then Err (bad_request (str_bytes ''username must start and end with a letter or digit''))
      else and_then (username_loop False normalized) (\<lambda>_. Ok normalized))"

definition validate_optional_username :: "rstr option \<Rightarrow> rstr option app_result" where
  "validate_optional_username value =
     (case value of
        None \<Rightarrow> Ok None
      | Some raw \<Rightarrow> let trimmed = trim raw in
          if trimmed = [] then Ok None
          else and_then (validate_username trimmed) (\<lambda>v. Ok (Some v)))"

definition validate_presence_status :: "rstr \<Rightarrow> rstr app_result" where
  "validate_presence_status value =
     (let normalized = to_ascii_lowercase (trim value) in
      if normalized \<notin> set (map str_bytes [''offline'', ''online'', ''away'', ''busy''])
      then Err (bad_request (str_bytes ''status must be one of offline|online|away|busy''))
      else Ok normalized)"

definition validate_optional_contact_alias :: "rstr option \<Rightarrow> rstr option app_result" where
  "validate_optional_contact_alias value =
     (case value of
        None \<Rightarrow> Ok None
      | Some a \<Rightarrow> let trimmed = trim a in
          if trimmed = [] then Ok None
          else if length trimmed > MAX_CONTACT_ALIAS_LEN
          then Err (bad_request (str_bytes ''alias must be <= '' @ dec_digits MAX_CONTACT_ALIAS_LEN @ str_bytes '' characters''))
          else Ok (Some trimmed))"

subsection \<open>Hashes and encoded keys\<close>

definition validate_sha256_hex :: "string \<Rightarrow> rstr \<Rightarrow> rstr app_result" where
  "validate_sha256_hex fld value =
     (let normalized = to_ascii_lowercase (trim value) in
      if length normalized \<noteq> SHA256_HEX_LEN
      then Err (bad_request (str_bytes (fld @ '' value must be '') @ dec_digits SHA256_HEX_LEN @ str_bytes '' hex characters''))
      else if \<not> list_all is_ascii_hexdigit normalized
      then Err (bad_request (str_bytes (fld @ '' value must be lowercase hex'')))
      else Ok normalized)"

definition normalize_sha256_hashes :: "string \<Rightarrow> rstr list \<Rightarrow> rstr list app_result" where
  "normalize_sha256_hashes fld values =
     (if length values > MAX_DISCOVERY_HASHES
      then Err (bad_request (str_bytes (fld @ '' cannot exceed '') @ dec_digits MAX_DISCOVERY_HASHES @ str_bytes '' items''))
      else and_then (collect_ok (validate_sha256_hex fld) values) (\<lambda>hashes. Ok (remdups_adj (str_sort hashes))))"

definition validate_optional_fingerprint_sha256 :: "rstr option \<Rightarrow> rstr option app_result" where
  "validate_optional_fingerprint_sha256 value =
     (case value of
        None \<Rightarrow> Ok None
      | Some raw \<Rightarrow> and_then (validate_sha256_hex ''verified_fingerprint_sha256'' raw) (\<lambda>v. Ok (Some v)))"

record base64_engine =
  B64_encode :: "bytes \<Rightarrow> rstr"
  B64_decode :: "rstr \<Rightarrow> bytes option"

definition decode_base64_range :: "base64_engine \<Rightarrow> string \<Rightarrow> rstr \<Rightarrow> usize \<Rightarrow> usize \<Rightarrow> bytes app_result" where
  "decode_base64_range b64 fld value min_len max_len =
     (if value = [] then Err (bad_request (str_bytes (fld @ '' cannot be empty'')))
      else let max_encoded = (max_len + 2) div 3 * 4 + 8 in
      if length value > max_encoded then Err (bad_request (str_bytes (fld @ '' is too large'')))
      else and_then (ok_or (B64_decode b64 value) (bad_request (str_bytes (fld @ '' is not valid base64'')))) (\<lambda>decoded.
        if length decoded < min_len \<or> length decoded > max_len
        then Err (bad_request (str_bytes (fld @ '' decoded length must be between '') @ dec_digits min_len
          @ str_bytes '' and '' @ dec_digits max_len))
        else Ok decoded))"

definition server_decode_base64_exact :: "base64_engine \<Rightarrow> string \<Rightarrow> rstr \<Rightarrow> usize \<Rightarrow> bytes app_result" where
  "server_decode_base64_exact b64 fld value expected_len =
     and_then (decode_base64_range b64 fld value expected_len expected_len) (\<lambda>decoded. Ok decoded)"

definition decode_base64_max :: "base64_engine \<Rightarrow> string \<Rightarrow> rstr \<Rightarrow> usize \<Rightarrow> bytes app_result" where
  "decode_base64_max b64 fld value max_len = decode_base64_range b64 fld value 1 max_len"

subsection \<open>Signatures\<close>

definition verify_ed25519_signature :: "crypto \<Rightarrow> bytes \<Rightarrow> bytes \<Rightarrow> bytes \<Rightarrow> string \<Rightarrow> unit app_result" where
  "verify_ed25519_signature c public_key signature message fld =
     (if length public_key \<noteq> SIG_PUB_KEY_LEN then Err (bad_request (str_bytes ''identity_sig_pub must be 32 bytes''))
      else if \<not> ed25519_key_ok c public_key
      then Err (bad_request (str_bytes ''identity_sig_pub is not a valid Ed25519 public key''))
      else if length signature \<noteq> SIG_LEN then Err (bad_request (str_bytes (fld @ '' must be 64 bytes'')))
      else if \<not> ed25519_verify c public_key message signature
      then Err (bad_request (str_bytes (fld @ '' verification failed'')))
      else Ok ())"

definition validate_ed25519_public_key :: "crypto \<Rightarrow> bytes \<Rightarrow> unit app_result" where
  "validate_ed25519_public_key c identity_sig_pub =
     (if length identity_sig_pub \<noteq> SIG_PUB_KEY_LEN
      then Err (bad_request (str_bytes ''identity_sig_pub must be 32 bytes''))
      else if \<not> ed25519_key_ok c identity_sig_pub
      then Err (bad_request (str_bytes ''identity_sig_pub is not a valid Ed25519 public key''))
      else Ok ())"

definition validate_ml_dsa_public_key :: "bytes \<Rightarrow> unit app_result" where
  "validate_ml_dsa_public_key identity_pq_sig_pub =
     (if length identity_pq_sig_pub \<noteq> PQ_SIG_PUB_KEY_LEN
      then Err (bad_request (str_bytes ''identity_pq_sig_pub must be '' @ dec_digits PQ_SIG_PUB_KEY_LEN @ str_bytes '' bytes''))
      else Ok ())"

definition verify_ml_dsa_signature ::
  "features \<Rightarrow> sig_backend \<Rightarrow> bytes \<Rightarrow> bytes \<Rightarrow> bytes \<Rightarrow> string \<Rightarrow> unit app_result" where
  "verify_ml_dsa_signature ft be public_key signature message fld =
     and_then (validate_ml_dsa_public_key public_key) (\<lambda>_.
     if length signature \<noteq> PQ_SIG_LEN
     then Err (bad_request (str_bytes (fld @ '' must be '') @ dec_digits PQ_SIG_LEN @ str_bytes '' bytes''))
     else and_then (map_err (internal (str_bytes ''pq signature backend unavailable'')) (MlDsa65_new ft be)) (\<lambda>_.
       map_err (bad_request (str_bytes (fld @ '' verification failed''))) (MlDsa65_verify ft be public_key message signature)))"

definition rotation_signature_records :: "rstr \<Rightarrow> rstr \<Rightarrow> bytes \<Rightarrow> bytes \<Rightarrow> bytes \<Rightarrow> bytes \<Rightarrow> rstr \<Rightarrow> TlvRecord list" where
  "rotation_signature_records user_id challenge_id challenge_nonce new_identity_x25519 new_identity_sig
      new_identity_pq_sig new_device_id =
     [tlv ROTATE_SIG_TAG_USER_ID user_id,
      tlv ROTATE_SIG_TAG_CHALLENGE_ID challenge_id,
      tlv ROTATE_SIG_TAG_CHALLENGE_NONCE challenge_nonce,
      tlv ROTATE_SIG_TAG_NEW_IDENTITY_X25519 new_identity_x25519,
      tlv ROTATE_SIG_TAG_NEW_IDENTITY_SIG new_identity_sig,
      tlv ROTATE_SIG_TAG_NEW_IDENTITY_PQ_SIG new_identity_pq_sig,
      tlv ROTATE_SIG_TAG_NEW_DEVICE_ID new_device_id]"

definition rotation_signature_message ::
  "rstr \<Rightarrow> rstr \<Rightarrow> bytes \<Rightarrow> bytes \<Rightarrow> bytes \<Rightarrow> bytes \<Rightarrow> rstr \<Rightarrow> bytes app_result" where
  "rotation_signature_message user_id challenge_id challenge_nonce new_identity_x25519 new_identity_sig
      new_identity_pq_sig new_device_id =
     map_err (internal (str_bytes ''rotation signature transcript encoding failed''))
       (encode (rotation_signature_records user_id challenge_id challenge_nonce new_identity_x25519 new_identity_sig
          new_identity_pq_sig new_device_id))"

text \<open>\<^verbatim>\<open>hex::encode\<close>, lowercase.\<close>

definition hex_nibble :: "u8 \<Rightarrow> u8" where
  "hex_nibble n = (if n < 10 then 48 + n else 87 + n)"

definition hex_lower :: "bytes \<Rightarrow> rstr" where
  "hex_lower bs = concat (map (\<lambda>b. [hex_nibble (b div 16), hex_nibble (b mod 16)]) bs)"

definition identity_fingerprint_sha256 :: "crypto \<Rightarrow> bytes \<Rightarrow> bytes option \<Rightarrow> rstr" where
  "identity_fingerprint_sha256 c identity_key identity_pq_sig_pub =
     hex_lower (sha256 c (identity_key @ (case identity_pq_sig_pub of None \<Rightarrow> [] | Some pk \<Rightarrow> pk)))"

definition verify_hybrid_prekey_signatures ::
  "crypto \<Rightarrow> features \<Rightarrow> sig_backend \<Rightarrow> bytes \<Rightarrow> bytes \<Rightarrow> bytes \<Rightarrow> bytes \<Rightarrow> bytes \<Rightarrow> bytes \<Rightarrow> bytes \<Rightarrow> bytes \<Rightarrow> unit app_result" where
  "verify_hybrid_prekey_signatures c ft be identity_sig_pub identity_pq_sig_pub signed_prekey_x25519_pub sig_over_spk
      pq_signed_prekey_pub_mlkem768 sig_over_pqspk pq_sig_over_spk pq_sig_over_pqspk =
     (if length identity_sig_pub \<noteq> SIG_PUB_KEY_LEN
      then Err (bad_request (str_bytes ''identity_sig_pub must be 32 bytes''))
      else if \<not> ed25519_key_ok c identity_sig_pub
      then Err (bad_request (str_bytes ''identity_sig_pub is not a valid Ed25519 public key''))
      else if length signed_prekey_x25519_pub \<noteq> X25519_KEY_LEN
      then Err (bad_request (str_bytes ''signed_prekey_x25519_pub must be 32 bytes''))
      else if length sig_over_spk \<noteq> SIG_LEN then Err (bad_request (str_bytes ''sig_over_spk must be 64 bytes''))
      else and_then (map_err (bad_request (str_bytes ''failed to build SPK signature transcript''))
          (signed_prekey_signature_message PROTOCOL_VERSION_V1 signed_prekey_x25519_pub)) (\<lambda>spk_message.
      if \<not> ed25519_verify c identity_sig_pub spk_message sig_over_spk
      then Err (bad_request (str_bytes ''sig_over_spk verification failed''))
      else if length sig_over_pqspk \<noteq> SIG_LEN then Err (bad_request (str_bytes ''sig_over_pqspk must be 64 bytes''))
      else and_then (map_err (bad_request (str_bytes ''failed to build PQSPK signature transcript''))
          (pq_signed_prekey_signature_message PROTOCOL_VERSION_V1 pq_signed_prekey_pub_mlkem768)) (\<lambda>pq_message.
      if \<not> ed25519_verify c identity_sig_pub pq_message sig_over_pqspk
      then Err (bad_request (str_bytes ''sig_over_pqspk verification failed''))
      else and_then (validate_ml_dsa_public_key identity_pq_sig_pub) (\<lambda>_.
      if length pq_sig_over_spk \<noteq> PQ_SIG_LEN
      then Err (bad_request (str_bytes ''pq_sig_over_spk must be '' @ dec_digits PQ_SIG_LEN @ str_bytes '' bytes''))
      else if length pq_sig_over_pqspk \<noteq> PQ_SIG_LEN
      then Err (bad_request (str_bytes ''pq_sig_over_pqspk must be '' @ dec_digits PQ_SIG_LEN @ str_bytes '' bytes''))
      else and_then (map_err (internal (str_bytes ''failed to initialize ML-DSA verifier'')) (MlDsa65_new ft be)) (\<lambda>_.
      and_then (map_err (bad_request (str_bytes ''pq_sig_over_spk verification failed''))
          (MlDsa65_verify ft be identity_pq_sig_pub spk_message pq_sig_over_spk)) (\<lambda>_.
      map_err (bad_request (str_bytes ''pq_sig_over_pqspk verification failed''))
          (MlDsa65_verify ft be identity_pq_sig_pub pq_message pq_sig_over_pqspk)))))))"

end
