(* ===== verification/Server_Auth.thy ===== *)
theory Server_Auth
  imports Server_Validation
begin

text \<open>
  \<^verbatim>\<open>auth.rs\<close> of \<^verbatim>\<open>pqmsg-server\<close> and the replay cache of \<^verbatim>\<open>lib.rs\<close>: the authentication headers of a
  request, the transcript that each endpoint expects to be signed, and the verification with its clock
  and nonce checks. A header map gives for a name nothing, a value that is no text, or the text.
  The two queries of the verification on the users and devices are function arguments, whose answers may be errors of the
  database.
\<close>

definition AUTH_HEADER_USER :: string where "AUTH_HEADER_USER = ''x-pqmsg-auth-user''"
definition AUTH_HEADER_DEVICE :: string where "AUTH_HEADER_DEVICE = ''x-pqmsg-auth-device''"
definition AUTH_HEADER_TIMESTAMP :: string where "AUTH_HEADER_TIMESTAMP = ''x-pqmsg-auth-timestamp''"
definition AUTH_HEADER_NONCE :: string where "AUTH_HEADER_NONCE = ''x-pqmsg-auth-nonce''"
definition AUTH_HEADER_SIGNATURE :: string where "AUTH_HEADER_SIGNATURE = ''x-pqmsg-auth-signature''"
definition REQUEST_ID_HEADER :: string where "REQUEST_ID_HEADER = ''x-request-id''"
definition AUTH_MAX_NONCE_LEN :: usize where "AUTH_MAX_NONCE_LEN = 96"
definition MAX_REQUEST_ID_LEN :: usize where "MAX_REQUEST_ID_LEN = 128"
definition AUTH_MAX_CLOCK_SKEW_SECONDS :: i64 where "AUTH_MAX_CLOCK_SKEW_SECONDS = 300"
definition AUTH_REPLAY_WINDOW_SECONDS :: u64 where "AUTH_REPLAY_WINDOW_SECONDS = 600"
definition AUTH_REPLAY_MAX_ENTRIES :: usize where "AUTH_REPLAY_MAX_ENTRIES = 100000"
definition AUTH_TAG_ENDPOINT :: u16 where "AUTH_TAG_ENDPOINT = critical_type 0x3201"
definition AUTH_TAG_USER_ID :: u16 where "AUTH_TAG_USER_ID = critical_type 0x3202"
definition AUTH_TAG_DEVICE_ID :: u16 where "AUTH_TAG_DEVICE_ID = critical_type 0x3203"
definition AUTH_TAG_TIMESTAMP :: u16 where "AUTH_TAG_TIMESTAMP = critical_type 0x3204"
definition AUTH_TAG_NONCE :: u16 where "AUTH_TAG_NONCE = critical_type 0x3205"
definition AUTH_TAG_RECIPIENT_ID :: u16 where "AUTH_TAG_RECIPIENT_ID = critical_type 0x3206"
definition AUTH_TAG_SINCE :: u16 where "AUTH_TAG_SINCE = critical_type 0x3207"
definition AUTH_TAG_MESSAGE_BLOB :: u16 where "AUTH_TAG_MESSAGE_BLOB = critical_type 0x3208"
definition AUTH_TAG_PREKEY_SPK_HASH :: u16 where "AUTH_TAG_PREKEY_SPK_HASH = critical_type 0x3209"
definition AUTH_TAG_PREKEY_PQSPK_HASH :: u16 where "AUTH_TAG_PREKEY_PQSPK_HASH = critical_type 0x320A"
definition AUTH_TAG_ROTATE_NEW_X25519_HASH :: u16 where "AUTH_TAG_ROTATE_NEW_X25519_HASH = critical_type 0x320B"
definition AUTH_TAG_ROTATE_NEW_SIG_HASH :: u16 where "AUTH_TAG_ROTATE_NEW_SIG_HASH = critical_type 0x320C"
definition AUTH_TAG_ROTATE_CHALLENGE_ID :: u16 where "AUTH_TAG_ROTATE_CHALLENGE_ID = critical_type 0x320D"
definition AUTH_TAG_ROTATE_SIG_CURRENT_HASH :: u16 where "AUTH_TAG_ROTATE_SIG_CURRENT_HASH = critical_type 0x320E"
definition AUTH_TAG_ROTATE_SIG_NEW_HASH :: u16 where "AUTH_TAG_ROTATE_SIG_NEW_HASH = critical_type 0x320F"
definition AUTH_TAG_PUSH_DEVICE_ID :: u16 where "AUTH_TAG_PUSH_DEVICE_ID = critical_type 0x3210"
definition AUTH_TAG_PUSH_TOKEN_HASH :: u16 where "AUTH_TAG_PUSH_TOKEN_HASH = critical_type 0x3211"
definition AUTH_TAG_LINK_DEVICE_ID :: u16 where "AUTH_TAG_LINK_DEVICE_ID = critical_type 0x3212"
definition AUTH_TAG_REVOKE_DEVICE_ID :: u16 where "AUTH_TAG_REVOKE_DEVICE_ID = critical_type 0x3213"
definition AUTH_TAG_DELETE_IDS_HASH :: u16 where "AUTH_TAG_DELETE_IDS_HASH = critical_type 0x3214"
definition AUTH_TAG_DELETE_BEFORE_ID :: u16 where "AUTH_TAG_DELETE_BEFORE_ID = critical_type 0x3215"
definition AUTH_TAG_DISCOVERY_PHONE_HASHES_HASH :: u16 where "AUTH_TAG_DISCOVERY_PHONE_HASHES_HASH = critical_type 0x3216"
definition AUTH_TAG_DISCOVERY_EMAIL_HASHES_HASH :: u16 where "AUTH_TAG_DISCOVERY_EMAIL_HASHES_HASH = critical_type 0x3217"
definition AUTH_TAG_DISCOVERY_QUERY_HASHES_HASH :: u16 where "AUTH_TAG_DISCOVERY_QUERY_HASHES_HASH = critical_type 0x3218"
definition AUTH_TAG_CONTACT_USER_ID :: u16 where "AUTH_TAG_CONTACT_USER_ID = critical_type 0x3219"
definition AUTH_TAG_CONTACT_ALIAS_HASH :: u16 where "AUTH_TAG_CONTACT_ALIAS_HASH = critical_type 0x321A"
definition AUTH_TAG_CONTACT_VERIFIED_FLAG :: u16 where "AUTH_TAG_CONTACT_VERIFIED_FLAG = critical_type 0x321B"
definition AUTH_TAG_CONTACT_FINGERPRINT :: u16 where "AUTH_TAG_CONTACT_FINGERPRINT = critical_type 0x321C"
definition AUTH_TAG_GROUP_ID :: u16 where "AUTH_TAG_GROUP_ID = critical_type 0x321D"
definition AUTH_TAG_GROUP_MEMBER_USER_ID :: u16 where "AUTH_TAG_GROUP_MEMBER_USER_ID = critical_type 0x321E"
definition AUTH_TAG_GROUP_MEMBERS_HASH :: u16 where "AUTH_TAG_GROUP_MEMBERS_HASH = critical_type 0x321F"
definition AUTH_TAG_GROUP_SENDER_USER_ID :: u16 where "AUTH_TAG_GROUP_SENDER_USER_ID = critical_type 0x3220"
definition AUTH_TAG_FILE_ID :: u16 where "AUTH_TAG_FILE_ID = critical_type 0x3222"
definition AUTH_TAG_FILE_RECIPIENT_ID :: u16 where "AUTH_TAG_FILE_RECIPIENT_ID = critical_type 0x3223"
definition AUTH_TAG_FILE_BLOB_HASH :: u16 where "AUTH_TAG_FILE_BLOB_HASH = critical_type 0x3224"
definition AUTH_TAG_FILE_MIME_HASH :: u16 where "AUTH_TAG_FILE_MIME_HASH = critical_type 0x3225"
definition AUTH_TAG_PROFILE_DISPLAY_NAME_HASH :: u16 where "AUTH_TAG_PROFILE_DISPLAY_NAME_HASH = critical_type 0x3226"
definition AUTH_TAG_PROFILE_AVATAR_HASH :: u16 where "AUTH_TAG_PROFILE_AVATAR_HASH = critical_type 0x3227"
definition AUTH_TAG_PROFILE_AVATAR_MIME_HASH :: u16 where "AUTH_TAG_PROFILE_AVATAR_MIME_HASH = critical_type 0x3228"
definition AUTH_TAG_PRESENCE_STATUS :: u16 where "AUTH_TAG_PRESENCE_STATUS = critical_type 0x3229"
definition AUTH_TAG_TYPING_PEER_ID :: u16 where "AUTH_TAG_TYPING_PEER_ID = critical_type 0x322A"
definition AUTH_TAG_TYPING_STATE_FLAG :: u16 where "AUTH_TAG_TYPING_STATE_FLAG = critical_type 0x322B"
definition AUTH_TAG_GROUP_RECIPIENTS_HASH :: u16 where "AUTH_TAG_GROUP_RECIPIENTS_HASH = critical_type 0x322C"
definition AUTH_TAG_PROFILE_USERNAME_HASH :: u16 where "AUTH_TAG_PROFILE_USERNAME_HASH = critical_type 0x322D"
definition AUTH_TAG_PROFILE_USERNAME_LOOKUP_ENABLED :: u16 where "AUTH_TAG_PROFILE_USERNAME_LOOKUP_ENABLED = critical_type 0x322E"
definition AUTH_TAG_ROTATE_NEW_PQ_SIG_HASH :: u16 where "AUTH_TAG_ROTATE_NEW_PQ_SIG_HASH = critical_type 0x3230"
definition AUTH_TAG_ROTATE_PQ_SIG_CURRENT_HASH :: u16 where "AUTH_TAG_ROTATE_PQ_SIG_CURRENT_HASH = critical_type 0x3231"
definition AUTH_TAG_ROTATE_PQ_SIG_NEW_HASH :: u16 where "AUTH_TAG_ROTATE_PQ_SIG_NEW_HASH = critical_type 0x3232"
definition AUTH_TAG_DISCOVERY_PURPOSE :: u16 where "AUTH_TAG_DISCOVERY_PURPOSE = critical_type 0x3233"

lemma auth_tags [tag_simps]:
  "AUTH_TAG_ENDPOINT = 0xB201" "AUTH_TAG_USER_ID = 0xB202" "AUTH_TAG_DEVICE_ID = 0xB203"
  "AUTH_TAG_TIMESTAMP = 0xB204" "AUTH_TAG_NONCE = 0xB205" "AUTH_TAG_RECIPIENT_ID = 0xB206"
  "AUTH_TAG_SINCE = 0xB207" "AUTH_TAG_MESSAGE_BLOB = 0xB208" "AUTH_TAG_PREKEY_SPK_HASH = 0xB209"
  "AUTH_TAG_PREKEY_PQSPK_HASH = 0xB20A" "AUTH_TAG_ROTATE_NEW_X25519_HASH = 0xB20B"
  "AUTH_TAG_ROTATE_NEW_SIG_HASH = 0xB20C" "AUTH_TAG_ROTATE_CHALLENGE_ID = 0xB20D"
  "AUTH_TAG_ROTATE_SIG_CURRENT_HASH = 0xB20E" "AUTH_TAG_ROTATE_SIG_NEW_HASH = 0xB20F"
  "AUTH_TAG_PUSH_DEVICE_ID = 0xB210" "AUTH_TAG_PUSH_TOKEN_HASH = 0xB211" "AUTH_TAG_LINK_DEVICE_ID = 0xB212"
  "AUTH_TAG_REVOKE_DEVICE_ID = 0xB213" "AUTH_TAG_DELETE_IDS_HASH = 0xB214" "AUTH_TAG_DELETE_BEFORE_ID = 0xB215"
  "AUTH_TAG_DISCOVERY_PHONE_HASHES_HASH = 0xB216" "AUTH_TAG_DISCOVERY_EMAIL_HASHES_HASH = 0xB217"
  "AUTH_TAG_DISCOVERY_QUERY_HASHES_HASH = 0xB218" "AUTH_TAG_CONTACT_USER_ID = 0xB219"
  "AUTH_TAG_CONTACT_ALIAS_HASH = 0xB21A" "AUTH_TAG_CONTACT_VERIFIED_FLAG = 0xB21B"
  "AUTH_TAG_CONTACT_FINGERPRINT = 0xB21C" "AUTH_TAG_GROUP_ID = 0xB21D" "AUTH_TAG_GROUP_MEMBER_USER_ID = 0xB21E"
  "AUTH_TAG_GROUP_MEMBERS_HASH = 0xB21F" "AUTH_TAG_GROUP_SENDER_USER_ID = 0xB220" "AUTH_TAG_FILE_ID = 0xB222"
  "AUTH_TAG_FILE_RECIPIENT_ID = 0xB223" "AUTH_TAG_FILE_BLOB_HASH = 0xB224" "AUTH_TAG_FILE_MIME_HASH = 0xB225"
  "AUTH_TAG_PROFILE_DISPLAY_NAME_HASH = 0xB226" "AUTH_TAG_PROFILE_AVATAR_HASH = 0xB227"
  "AUTH_TAG_PROFILE_AVATAR_MIME_HASH = 0xB228" "AUTH_TAG_PRESENCE_STATUS = 0xB229"
  "AUTH_TAG_TYPING_PEER_ID = 0xB22A" "AUTH_TAG_TYPING_STATE_FLAG = 0xB22B"
  "AUTH_TAG_GROUP_RECIPIENTS_HASH = 0xB22C" "AUTH_TAG_PROFILE_USERNAME_HASH = 0xB22D"
  "AUTH_TAG_PROFILE_USERNAME_LOOKUP_ENABLED = 0xB22E" "AUTH_TAG_ROTATE_NEW_PQ_SIG_HASH = 0xB230"
  "AUTH_TAG_ROTATE_PQ_SIG_CURRENT_HASH = 0xB231" "AUTH_TAG_ROTATE_PQ_SIG_NEW_HASH = 0xB232"
  "AUTH_TAG_DISCOVERY_PURPOSE = 0xB233"
  by (simp_all add: critical_type_def CRITICAL_BIT_def
      AUTH_TAG_ENDPOINT_def AUTH_TAG_USER_ID_def AUTH_TAG_DEVICE_ID_def AUTH_TAG_TIMESTAMP_def AUTH_TAG_NONCE_def
      AUTH_TAG_RECIPIENT_ID_def AUTH_TAG_SINCE_def AUTH_TAG_MESSAGE_BLOB_def AUTH_TAG_PREKEY_SPK_HASH_def
      AUTH_TAG_PREKEY_PQSPK_HASH_def AUTH_TAG_ROTATE_NEW_X25519_HASH_def AUTH_TAG_ROTATE_NEW_SIG_HASH_def
      AUTH_TAG_ROTATE_CHALLENGE_ID_def AUTH_TAG_ROTATE_SIG_CURRENT_HASH_def AUTH_TAG_ROTATE_SIG_NEW_HASH_def
      AUTH_TAG_PUSH_DEVICE_ID_def AUTH_TAG_PUSH_TOKEN_HASH_def AUTH_TAG_LINK_DEVICE_ID_def
      AUTH_TAG_REVOKE_DEVICE_ID_def AUTH_TAG_DELETE_IDS_HASH_def AUTH_TAG_DELETE_BEFORE_ID_def
      AUTH_TAG_DISCOVERY_PHONE_HASHES_HASH_def AUTH_TAG_DISCOVERY_EMAIL_HASHES_HASH_def
      AUTH_TAG_DISCOVERY_QUERY_HASHES_HASH_def AUTH_TAG_CONTACT_USER_ID_def AUTH_TAG_CONTACT_ALIAS_HASH_def
      AUTH_TAG_CONTACT_VERIFIED_FLAG_def AUTH_TAG_CONTACT_FINGERPRINT_def AUTH_TAG_GROUP_ID_def
      AUTH_TAG_GROUP_MEMBER_USER_ID_def AUTH_TAG_GROUP_MEMBERS_HASH_def AUTH_TAG_GROUP_SENDER_USER_ID_def
      AUTH_TAG_FILE_ID_def AUTH_TAG_FILE_RECIPIENT_ID_def AUTH_TAG_FILE_BLOB_HASH_def AUTH_TAG_FILE_MIME_HASH_def
      AUTH_TAG_PROFILE_DISPLAY_NAME_HASH_def AUTH_TAG_PROFILE_AVATAR_HASH_def
      AUTH_TAG_PROFILE_AVATAR_MIME_HASH_def AUTH_TAG_PRESENCE_STATUS_def AUTH_TAG_TYPING_PEER_ID_def
      AUTH_TAG_TYPING_STATE_FLAG_def AUTH_TAG_GROUP_RECIPIENTS_HASH_def AUTH_TAG_PROFILE_USERNAME_HASH_def
      AUTH_TAG_PROFILE_USERNAME_LOOKUP_ENABLED_def AUTH_TAG_ROTATE_NEW_PQ_SIG_HASH_def
      AUTH_TAG_ROTATE_PQ_SIG_CURRENT_HASH_def AUTH_TAG_ROTATE_PQ_SIG_NEW_HASH_def AUTH_TAG_DISCOVERY_PURPOSE_def)

subsection \<open>Headers\<close>

type_synonym HeaderMap = "string \<Rightarrow> rstr option option"

record RequestAuth =
  ra_user_id :: rstr
  ra_device_id :: rstr
  ra_timestamp :: i64
  ra_nonce :: rstr
  ra_signature :: bytes

definition require_header_value :: "HeaderMap \<Rightarrow> string \<Rightarrow> usize \<Rightarrow> rstr app_result" where
  "require_header_value headers name max_len =
     and_then (ok_or (headers name) (bad_request (str_bytes ''missing header '' @ [39] @ str_bytes name @ [39]))) (\<lambda>value.
     and_then (ok_or value (bad_request (str_bytes ''header '' @ [39] @ str_bytes name @ [39] @ str_bytes '' must be ASCII''))) (\<lambda>value.
     let trimmed = trim value in
     if trimmed = [] \<or> length trimmed > max_len
     then Err (bad_request (str_bytes ''header '' @ [39] @ str_bytes name @ [39] @ str_bytes '' must be 1..='' @ dec_digits max_len
       @ str_bytes '' characters''))
     else Ok trimmed))"

text \<open>\<^verbatim>\<open>str::parse::<i64>\<close>: an optional sign, at least one digit, a value in range.\<close>

definition is_ascii_digit :: "u8 \<Rightarrow> bool" where
  "is_ascii_digit b \<longleftrightarrow> 0x30 \<le> b \<and> b \<le> 0x39"

definition dec_value :: "rstr \<Rightarrow> int" where
  "dec_value ds = foldl (\<lambda>n d. 10 * n + (uint d - 48)) 0 ds"

definition parse_i64 :: "rstr \<Rightarrow> i64 option" where
  "parse_i64 s =
     (let (neg, ds) = (case s of [] \<Rightarrow> (False, [])
         | b # bs \<Rightarrow> if b = 0x2D then (True, bs) else if b = 0x2B then (False, bs) else (False, s));
          n = (if neg then - dec_value ds else dec_value ds)
      in if ds = [] \<or> \<not> list_all is_ascii_digit ds \<or> n < - (2 ^ 63) \<or> n \<ge> 2 ^ 63 then None
         else Some (word_of_int n))"

definition parse_request_auth :: "base64_engine \<Rightarrow> HeaderMap \<Rightarrow> RequestAuth app_result" where
  "parse_request_auth b64 headers =
     and_then (require_header_value headers AUTH_HEADER_USER MAX_USER_ID_LEN) (\<lambda>user_id.
     and_then (require_header_value headers AUTH_HEADER_DEVICE MAX_DEVICE_ID_LEN) (\<lambda>device_id.
     and_then (validate_id ''auth.user_id'' user_id) (\<lambda>_.
     and_then (validate_id ''auth.device_id'' device_id) (\<lambda>_.
     and_then (require_header_value headers AUTH_HEADER_TIMESTAMP 32) (\<lambda>timestamp_raw.
     and_then (ok_or (parse_i64 timestamp_raw) (bad_request (str_bytes ''x-pqmsg-auth-timestamp must be an integer''))) (\<lambda>timestamp.
     and_then (require_header_value headers AUTH_HEADER_NONCE AUTH_MAX_NONCE_LEN) (\<lambda>nonce.
     and_then (require_header_value headers AUTH_HEADER_SIGNATURE 256) (\<lambda>signature_b64.
     and_then (server_decode_base64_exact b64 AUTH_HEADER_SIGNATURE signature_b64 SIG_LEN) (\<lambda>signature.
     Ok \<lparr>ra_user_id = user_id, ra_device_id = device_id, ra_timestamp = timestamp, ra_nonce = nonce,
         ra_signature = signature\<rparr>)))))))))"

definition request_id_from_header :: "HeaderMap \<Rightarrow> rstr option" where
  "request_id_from_header headers =
     (case headers REQUEST_ID_HEADER of
        Some (Some value) \<Rightarrow> let value = trim value in
          if value = [] \<or> length value > MAX_REQUEST_ID_LEN then None else Some value
      | _ \<Rightarrow> None)"

subsection \<open>Transcripts\<close>

definition i64_to_be_bytes :: "i64 \<Rightarrow> bytes" where
  "i64_to_be_bytes x = u64_to_be_bytes x"

definition unwrap_or_default :: "bytes option \<Rightarrow> bytes" where
  "unwrap_or_default x = (case x of None \<Rightarrow> [] | Some b \<Rightarrow> b)"

record DeleteInboxRequest =
  di_message_ids :: "i64 list"
  di_delete_before_id :: "i64 option"

record PublishPrekeysRequest =
  pp_signed_prekey_x25519_pub :: rstr
  pp_sig_over_spk :: rstr
  pp_pq_signed_prekey_pub_mlkem768 :: rstr
  pp_sig_over_pqspk :: rstr
  pp_pq_sig_over_spk :: rstr
  pp_pq_sig_over_pqspk :: rstr
  pp_one_time_prekeys_x25519 :: "rstr list"
  pp_one_time_prekeys_mlkem768 :: "rstr list"

record RotateInitRequest =
  ri_new_identity_x25519_pub :: rstr
  ri_new_identity_sig_pub :: rstr
  ri_new_identity_pq_sig_pub :: rstr
  ri_new_device_id :: rstr

record RotateConfirmRequest =
  rc_challenge_id :: rstr
  rc_sig_by_current_identity :: rstr
  rc_sig_by_new_identity :: rstr
  rc_pq_sig_by_current_identity :: rstr
  rc_pq_sig_by_new_identity :: rstr

definition auth_common_records :: "RequestAuth \<Rightarrow> string \<Rightarrow> TlvRecord list" where
  "auth_common_records auth endpoint =
     [tlv AUTH_TAG_ENDPOINT (str_bytes endpoint),
      tlv AUTH_TAG_USER_ID (ra_user_id auth),
      tlv AUTH_TAG_DEVICE_ID (ra_device_id auth),
      tlv AUTH_TAG_TIMESTAMP (i64_to_be_bytes (ra_timestamp auth)),
      tlv AUTH_TAG_NONCE (ra_nonce auth)]"

text \<open>A stable sort by recipient.\<close>

fun insort_recipient :: "rstr \<times> bytes \<Rightarrow> (rstr \<times> bytes) list \<Rightarrow> (rstr \<times> bytes) list" where
  "insort_recipient x [] = [x]"
| "insort_recipient x (y # ys) = (if str_le (fst x) (fst y) then x # y # ys else y # insort_recipient x ys)"

definition group_recipients_bytes :: "crypto \<Rightarrow> (rstr \<times> bytes) list \<Rightarrow> bytes" where
  "group_recipients_bytes c recipients =
     concat (map (\<lambda>(recipient_user_id, message_hash). recipient_user_id @ [0x00] @ message_hash @ [0x01])
       (foldr insort_recipient (map (\<lambda>(recipient_user_id, message_blob). (recipient_user_id, sha256 c message_blob)) recipients) []))"

definition hash_group_recipients_sha256 :: "crypto \<Rightarrow> (rstr \<times> bytes) list \<Rightarrow> bytes" where
  "hash_group_recipients_sha256 c recipients = sha256 c (group_recipients_bytes c recipients)"

definition relay_auth_message :: "RequestAuth \<Rightarrow> rstr \<Rightarrow> bytes \<Rightarrow> bytes app_result" where
  "relay_auth_message auth recipient_user_id message_blob =
     map_err (internal (str_bytes ''failed to encode relay auth transcript''))
       (encode (auth_common_records auth ''relay''
        @ [tlv AUTH_TAG_RECIPIENT_ID recipient_user_id, tlv AUTH_TAG_MESSAGE_BLOB message_blob]))"

definition inbox_auth_message :: "RequestAuth \<Rightarrow> rstr \<Rightarrow> i64 \<Rightarrow> bytes app_result" where
  "inbox_auth_message auth user_id since =
     map_err (internal (str_bytes ''failed to encode inbox auth transcript''))
       (encode (auth_common_records auth ''inbox''
        @ [tlv AUTH_TAG_RECIPIENT_ID user_id, tlv AUTH_TAG_SINCE (i64_to_be_bytes since)]))"

definition sealed_inbox_auth_message :: "RequestAuth \<Rightarrow> rstr \<Rightarrow> i64 \<Rightarrow> bytes app_result" where
  "sealed_inbox_auth_message auth user_id since =
     map_err (internal (str_bytes ''failed to encode sealed-inbox auth transcript''))
       (encode (auth_common_records auth ''sealed-inbox''
        @ [tlv AUTH_TAG_RECIPIENT_ID user_id, tlv AUTH_TAG_SINCE (i64_to_be_bytes since)]))"

definition sender_certificate_auth_message :: "RequestAuth \<Rightarrow> rstr \<Rightarrow> bytes app_result" where
  "sender_certificate_auth_message auth user_id =
     map_err (internal (str_bytes ''failed to encode sender-certificate auth transcript''))
       (encode (auth_common_records auth ''sender-certificate''
        @ [tlv AUTH_TAG_RECIPIENT_ID user_id]))"

definition contact_discovery_ticket_auth_message :: "RequestAuth \<Rightarrow> rstr \<Rightarrow> rstr \<Rightarrow> bytes app_result" where
  "contact_discovery_ticket_auth_message auth user_id purpose =
     map_err (internal (str_bytes ''failed to encode contact-discovery-ticket auth transcript''))
       (encode (auth_common_records auth ''contact-discovery-ticket''
        @ [tlv AUTH_TAG_RECIPIENT_ID user_id, tlv AUTH_TAG_DISCOVERY_PURPOSE purpose]))"

definition inbox_delete_auth_message :: "crypto \<Rightarrow> RequestAuth \<Rightarrow> rstr \<Rightarrow> DeleteInboxRequest \<Rightarrow> bytes app_result" where
  "inbox_delete_auth_message c auth user_id request =
     map_err (internal (str_bytes ''failed to encode inbox-delete auth transcript''))
       (encode (auth_common_records auth ''inbox-delete''
        @ [tlv AUTH_TAG_RECIPIENT_ID user_id,
          tlv AUTH_TAG_DELETE_IDS_HASH (sha256 c (concat (map i64_to_be_bytes (normalize_message_ids (di_message_ids request)))))]
        @ push_opt AUTH_TAG_DELETE_BEFORE_ID (map_option i64_to_be_bytes (di_delete_before_id request))))"

definition ws_inbox_auth_message :: "RequestAuth \<Rightarrow> rstr \<Rightarrow> i64 \<Rightarrow> bytes app_result" where
  "ws_inbox_auth_message auth user_id since =
     map_err (internal (str_bytes ''failed to encode ws-inbox auth transcript''))
       (encode (auth_common_records auth ''ws-inbox''
        @ [tlv AUTH_TAG_RECIPIENT_ID user_id, tlv AUTH_TAG_SINCE (i64_to_be_bytes since)]))"

definition list_devices_auth_message :: "RequestAuth \<Rightarrow> rstr \<Rightarrow> bytes app_result" where
  "list_devices_auth_message auth user_id =
     map_err (internal (str_bytes ''failed to encode devices-list auth transcript''))
       (encode (auth_common_records auth ''devices-list''
        @ [tlv AUTH_TAG_RECIPIENT_ID user_id]))"

definition link_device_auth_message :: "RequestAuth \<Rightarrow> rstr \<Rightarrow> rstr \<Rightarrow> bytes app_result" where
  "link_device_auth_message auth user_id new_device_id =
     map_err (internal (str_bytes ''failed to encode devices-link auth transcript''))
       (encode (auth_common_records auth ''devices-link''
        @ [tlv AUTH_TAG_RECIPIENT_ID user_id, tlv AUTH_TAG_LINK_DEVICE_ID new_device_id]))"

definition revoke_device_auth_message :: "RequestAuth \<Rightarrow> rstr \<Rightarrow> rstr \<Rightarrow> bytes app_result" where
  "revoke_device_auth_message auth user_id target_device_id =
     map_err (internal (str_bytes ''failed to encode devices-revoke auth transcript''))
       (encode (auth_common_records auth ''devices-revoke''
        @ [tlv AUTH_TAG_RECIPIENT_ID user_id, tlv AUTH_TAG_REVOKE_DEVICE_ID target_device_id]))"

definition retire_current_device_auth_message :: "RequestAuth \<Rightarrow> rstr \<Rightarrow> bytes app_result" where
  "retire_current_device_auth_message auth user_id =
     map_err (internal (str_bytes ''failed to encode devices-retire auth transcript''))
       (encode (auth_common_records auth ''devices-retire''
        @ [tlv AUTH_TAG_RECIPIENT_ID user_id, tlv AUTH_TAG_REVOKE_DEVICE_ID (ra_device_id auth)]))"

definition delete_account_auth_message :: "RequestAuth \<Rightarrow> rstr \<Rightarrow> bytes app_result" where
  "delete_account_auth_message auth user_id =
     map_err (internal (str_bytes ''failed to encode account-delete auth transcript''))
       (encode (auth_common_records auth ''account-delete''
        @ [tlv AUTH_TAG_RECIPIENT_ID user_id]))"

definition discovery_handles_auth_message :: "crypto \<Rightarrow> RequestAuth \<Rightarrow> rstr \<Rightarrow> rstr list \<Rightarrow> rstr list \<Rightarrow> bytes app_result" where
  "discovery_handles_auth_message c auth user_id phone_hashes email_hashes =
     map_err (internal (str_bytes ''failed to encode discovery-handles auth transcript''))
       (encode (auth_common_records auth ''discovery-handles''
        @ [tlv AUTH_TAG_RECIPIENT_ID user_id,
          tlv AUTH_TAG_DISCOVERY_PHONE_HASHES_HASH (hash_string_list_sha256 c phone_hashes),
          tlv AUTH_TAG_DISCOVERY_EMAIL_HASHES_HASH (hash_string_list_sha256 c email_hashes)]))"

definition discovery_match_auth_message :: "crypto \<Rightarrow> RequestAuth \<Rightarrow> rstr \<Rightarrow> rstr list \<Rightarrow> bytes app_result" where
  "discovery_match_auth_message c auth user_id query_hashes =
     map_err (internal (str_bytes ''failed to encode discovery-match auth transcript''))
       (encode (auth_common_records auth ''discovery-match''
        @ [tlv AUTH_TAG_RECIPIENT_ID user_id,
          tlv AUTH_TAG_DISCOVERY_QUERY_HASHES_HASH (hash_string_list_sha256 c query_hashes)]))"

definition contacts_list_auth_message :: "RequestAuth \<Rightarrow> rstr \<Rightarrow> bytes app_result" where
  "contacts_list_auth_message auth user_id =
     map_err (internal (str_bytes ''failed to encode contacts-list auth transcript''))
       (encode (auth_common_records auth ''contacts-list''
        @ [tlv AUTH_TAG_RECIPIENT_ID user_id]))"

definition contact_invite_create_auth_message :: "RequestAuth \<Rightarrow> rstr \<Rightarrow> bytes app_result" where
  "contact_invite_create_auth_message auth user_id =
     map_err (internal (str_bytes ''failed to encode contact-invite-create auth transcript''))
       (encode (auth_common_records auth ''contact-invite-create''
        @ [tlv AUTH_TAG_RECIPIENT_ID user_id]))"

definition contacts_upsert_auth_message :: "crypto \<Rightarrow> RequestAuth \<Rightarrow> rstr \<Rightarrow> rstr \<Rightarrow> rstr option \<Rightarrow> bool \<Rightarrow> rstr option \<Rightarrow> bytes app_result" where
  "contacts_upsert_auth_message c auth user_id contact_user_id alias verified_by_qr verified_fingerprint_sha256 =
     map_err (internal (str_bytes ''failed to encode contacts-upsert auth transcript''))
       (encode (auth_common_records auth ''contacts-upsert''
        @ [tlv AUTH_TAG_RECIPIENT_ID user_id, tlv AUTH_TAG_CONTACT_USER_ID contact_user_id,
          tlv AUTH_TAG_CONTACT_ALIAS_HASH (sha256 c (unwrap_or_default alias)),
          tlv AUTH_TAG_CONTACT_VERIFIED_FLAG [if verified_by_qr then 1 else 0]]
        @ push_opt AUTH_TAG_CONTACT_FINGERPRINT verified_fingerprint_sha256))"

definition contacts_remove_auth_message :: "RequestAuth \<Rightarrow> rstr \<Rightarrow> rstr \<Rightarrow> bytes app_result" where
  "contacts_remove_auth_message auth user_id contact_user_id =
     map_err (internal (str_bytes ''failed to encode contacts-remove auth transcript''))
       (encode (auth_common_records auth ''contacts-remove''
        @ [tlv AUTH_TAG_RECIPIENT_ID user_id, tlv AUTH_TAG_CONTACT_USER_ID contact_user_id]))"

definition group_create_auth_message :: "crypto \<Rightarrow> RequestAuth \<Rightarrow> rstr \<Rightarrow> rstr list \<Rightarrow> bytes app_result" where
  "group_create_auth_message c auth group_id member_user_ids =
     map_err (internal (str_bytes ''failed to encode groups-create auth transcript''))
       (encode (auth_common_records auth ''groups-create''
        @ [tlv AUTH_TAG_GROUP_ID group_id,
          tlv AUTH_TAG_GROUP_MEMBERS_HASH (hash_string_list_sha256 c member_user_ids)]))"

definition user_groups_list_auth_message :: "RequestAuth \<Rightarrow> rstr \<Rightarrow> bytes app_result" where
  "user_groups_list_auth_message auth user_id =
     map_err (internal (str_bytes ''failed to encode groups-list auth transcript''))
       (encode (auth_common_records auth ''groups-list''
        @ [tlv AUTH_TAG_RECIPIENT_ID user_id]))"

definition group_members_list_auth_message :: "RequestAuth \<Rightarrow> rstr \<Rightarrow> bytes app_result" where
  "group_members_list_auth_message auth group_id =
     map_err (internal (str_bytes ''failed to encode groups-members-list auth transcript''))
       (encode (auth_common_records auth ''groups-members-list''
        @ [tlv AUTH_TAG_GROUP_ID group_id]))"

definition group_members_add_auth_message :: "RequestAuth \<Rightarrow> rstr \<Rightarrow> rstr \<Rightarrow> bytes app_result" where
  "group_members_add_auth_message auth group_id member_user_id =
     map_err (internal (str_bytes ''failed to encode groups-members-add auth transcript''))
       (encode (auth_common_records auth ''groups-members-add''
        @ [tlv AUTH_TAG_GROUP_ID group_id, tlv AUTH_TAG_GROUP_MEMBER_USER_ID member_user_id]))"

definition group_members_remove_auth_message :: "RequestAuth \<Rightarrow> rstr \<Rightarrow> rstr \<Rightarrow> bytes app_result" where
  "group_members_remove_auth_message auth group_id member_user_id =
     map_err (internal (str_bytes ''failed to encode groups-members-remove auth transcript''))
       (encode (auth_common_records auth ''groups-members-remove''
        @ [tlv AUTH_TAG_GROUP_ID group_id, tlv AUTH_TAG_GROUP_MEMBER_USER_ID member_user_id]))"

definition group_relay_auth_message :: "crypto \<Rightarrow> RequestAuth \<Rightarrow> rstr \<Rightarrow> rstr \<Rightarrow> (rstr \<times> bytes) list \<Rightarrow> bytes app_result" where
  "group_relay_auth_message c auth group_id sender_user_id recipients =
     map_err (internal (str_bytes ''failed to encode groups-relay auth transcript''))
       (encode (auth_common_records auth ''groups-relay''
        @ [tlv AUTH_TAG_GROUP_ID group_id, tlv AUTH_TAG_GROUP_SENDER_USER_ID sender_user_id,
          tlv AUTH_TAG_GROUP_RECIPIENTS_HASH (hash_group_recipients_sha256 c recipients)]))"

definition identity_log_auth_message :: "RequestAuth \<Rightarrow> rstr \<Rightarrow> bytes app_result" where
  "identity_log_auth_message auth user_id =
     map_err (internal (str_bytes ''failed to encode identity-log auth transcript''))
       (encode (auth_common_records auth ''identity-log''
        @ [tlv AUTH_TAG_RECIPIENT_ID user_id]))"

definition prekeys_status_auth_message :: "RequestAuth \<Rightarrow> rstr \<Rightarrow> bytes app_result" where
  "prekeys_status_auth_message auth user_id =
     map_err (internal (str_bytes ''failed to encode prekeys-status auth transcript''))
       (encode (auth_common_records auth ''prekeys-status''
        @ [tlv AUTH_TAG_RECIPIENT_ID user_id]))"

definition prekeys_auth_message :: "crypto \<Rightarrow> RequestAuth \<Rightarrow> PublishPrekeysRequest \<Rightarrow> bytes app_result" where
  "prekeys_auth_message c auth request =
     map_err (internal (str_bytes ''failed to encode prekeys auth transcript''))
       (encode (auth_common_records auth ''prekeys''
        @ [tlv AUTH_TAG_PREKEY_SPK_HASH (sha256 c (pp_signed_prekey_x25519_pub request)),
          tlv AUTH_TAG_PREKEY_PQSPK_HASH (sha256 c (pp_pq_signed_prekey_pub_mlkem768 request))]))"

definition push_token_auth_message :: "crypto \<Rightarrow> RequestAuth \<Rightarrow> rstr \<Rightarrow> rstr \<Rightarrow> bytes app_result" where
  "push_token_auth_message c auth device_id push_token =
     map_err (internal (str_bytes ''failed to encode push-token auth transcript''))
       (encode (auth_common_records auth ''push-token''
        @ [tlv AUTH_TAG_RECIPIENT_ID (ra_user_id auth), tlv AUTH_TAG_PUSH_DEVICE_ID device_id,
          tlv AUTH_TAG_PUSH_TOKEN_HASH (sha256 c push_token)]))"

definition file_upload_auth_message :: "crypto \<Rightarrow> RequestAuth \<Rightarrow> rstr \<Rightarrow> bytes \<Rightarrow> rstr \<Rightarrow> bytes app_result" where
  "file_upload_auth_message c auth recipient_user_id file_blob mime_type =
     map_err (internal (str_bytes ''failed to encode files-upload auth transcript''))
       (encode (auth_common_records auth ''files-upload''
        @ [tlv AUTH_TAG_FILE_RECIPIENT_ID recipient_user_id, tlv AUTH_TAG_FILE_BLOB_HASH (sha256 c file_blob),
          tlv AUTH_TAG_FILE_MIME_HASH (sha256 c mime_type)]))"

definition file_download_auth_message :: "RequestAuth \<Rightarrow> rstr \<Rightarrow> bytes app_result" where
  "file_download_auth_message auth file_id =
     map_err (internal (str_bytes ''failed to encode files-download auth transcript''))
       (encode (auth_common_records auth ''files-download''
        @ [tlv AUTH_TAG_FILE_ID file_id]))"

definition profile_upsert_auth_message :: "crypto \<Rightarrow> RequestAuth \<Rightarrow> rstr \<Rightarrow> rstr option \<Rightarrow> rstr option \<Rightarrow> bool \<Rightarrow> rstr option \<Rightarrow> bytes option \<Rightarrow> bytes app_result" where
  "profile_upsert_auth_message c auth user_id display_name username username_lookup_enabled avatar_mime avatar_blob =
     map_err (internal (str_bytes ''failed to encode profile-upsert auth transcript''))
       (encode (auth_common_records auth ''profile-upsert''
        @ [tlv AUTH_TAG_RECIPIENT_ID user_id,
          tlv AUTH_TAG_PROFILE_DISPLAY_NAME_HASH (sha256 c (unwrap_or_default display_name)),
          tlv AUTH_TAG_PROFILE_USERNAME_HASH (sha256 c (unwrap_or_default username)),
          tlv AUTH_TAG_PROFILE_USERNAME_LOOKUP_ENABLED [if username_lookup_enabled then 1 else 0],
          tlv AUTH_TAG_PROFILE_AVATAR_HASH (sha256 c (unwrap_or_default avatar_blob)),
          tlv AUTH_TAG_PROFILE_AVATAR_MIME_HASH (sha256 c (unwrap_or_default avatar_mime))]))"

definition profile_get_auth_message :: "RequestAuth \<Rightarrow> rstr \<Rightarrow> bytes app_result" where
  "profile_get_auth_message auth user_id =
     map_err (internal (str_bytes ''failed to encode profile-get auth transcript''))
       (encode (auth_common_records auth ''profile-get''
        @ [tlv AUTH_TAG_RECIPIENT_ID user_id]))"

definition presence_update_auth_message :: "RequestAuth \<Rightarrow> rstr \<Rightarrow> rstr \<Rightarrow> bytes app_result" where
  "presence_update_auth_message auth user_id status =
     map_err (internal (str_bytes ''failed to encode presence-update auth transcript''))
       (encode (auth_common_records auth ''presence-update''
        @ [tlv AUTH_TAG_RECIPIENT_ID user_id, tlv AUTH_TAG_PRESENCE_STATUS status]))"

definition presence_get_auth_message :: "RequestAuth \<Rightarrow> rstr \<Rightarrow> bytes app_result" where
  "presence_get_auth_message auth user_id =
     map_err (internal (str_bytes ''failed to encode presence-get auth transcript''))
       (encode (auth_common_records auth ''presence-get''
        @ [tlv AUTH_TAG_RECIPIENT_ID user_id]))"

definition typing_update_auth_message :: "RequestAuth \<Rightarrow> rstr \<Rightarrow> bool \<Rightarrow> bytes app_result" where
  "typing_update_auth_message auth peer_user_id is_typing =
     map_err (internal (str_bytes ''failed to encode typing-update auth transcript''))
       (encode (auth_common_records auth ''typing-update''
        @ [tlv AUTH_TAG_TYPING_PEER_ID peer_user_id,
          tlv AUTH_TAG_TYPING_STATE_FLAG [if is_typing then 1 else 0]]))"

definition typing_get_auth_message :: "RequestAuth \<Rightarrow> rstr \<Rightarrow> bytes app_result" where
  "typing_get_auth_message auth user_id =
     map_err (internal (str_bytes ''failed to encode typing-get auth transcript''))
       (encode (auth_common_records auth ''typing-get''
        @ [tlv AUTH_TAG_RECIPIENT_ID user_id]))"

definition rotate_init_auth_message :: "crypto \<Rightarrow> RequestAuth \<Rightarrow> RotateInitRequest \<Rightarrow> bytes app_result" where
  "rotate_init_auth_message c auth request =
     map_err (internal (str_bytes ''failed to encode rotate-init auth transcript''))
       (encode (auth_common_records auth ''rotate-init''
        @ [tlv AUTH_TAG_ROTATE_NEW_X25519_HASH (sha256 c (ri_new_identity_x25519_pub request)),
          tlv AUTH_TAG_ROTATE_NEW_SIG_HASH (sha256 c (ri_new_identity_sig_pub request)),
          tlv AUTH_TAG_ROTATE_NEW_PQ_SIG_HASH (sha256 c (ri_new_identity_pq_sig_pub request))]))"

definition rotate_confirm_auth_message :: "crypto \<Rightarrow> RequestAuth \<Rightarrow> RotateConfirmRequest \<Rightarrow> bytes app_result" where
  "rotate_confirm_auth_message c auth request =
     map_err (internal (str_bytes ''failed to encode rotate-confirm auth transcript''))
       (encode (auth_common_records auth ''rotate-confirm''
        @ [tlv AUTH_TAG_ROTATE_CHALLENGE_ID (rc_challenge_id request),
          tlv AUTH_TAG_ROTATE_SIG_CURRENT_HASH (sha256 c (rc_sig_by_current_identity request)),
          tlv AUTH_TAG_ROTATE_SIG_NEW_HASH (sha256 c (rc_sig_by_new_identity request)),
          tlv AUTH_TAG_ROTATE_PQ_SIG_CURRENT_HASH (sha256 c (rc_pq_sig_by_current_identity request)),
          tlv AUTH_TAG_ROTATE_PQ_SIG_NEW_HASH (sha256 c (rc_pq_sig_by_new_identity request))]))"

subsection \<open>The replay cache\<close>

text \<open>
  Instants and durations are counted in nanoseconds. The hash map is the list of its entries; \<open>iter\<close> is the
  order in which the library iterates over them. With a Redis backend \<open>set_nx\<close> is the answer of the
  server to \<^verbatim>\<open>SET key 1 NX EX ttl\<close>, nothing when the connection or the command failed; each request
  comes with an answer of its own. That the lock of the map may be poisoned is left out: nothing panics while it is held.
\<close>

type_synonym seen_map = "(rstr \<times> nat) list"

record AuthReplayCache =
  arc_max_entries :: usize
  arc_ttl :: nat
  arc_inner :: seen_map
  arc_redis_backend :: "(rstr \<times> u64) option"

definition arc_new :: "usize \<Rightarrow> nat \<Rightarrow> AuthReplayCache" where
  "arc_new max_entries ttl = \<lparr>arc_max_entries = max_entries, arc_ttl = ttl, arc_inner = [], arc_redis_backend = None\<rparr>"

fun min_by_seen :: "seen_map \<Rightarrow> (rstr \<times> nat) option" where
  "min_by_seen [] = None"
| "min_by_seen (x # xs) = (case min_by_seen xs of None \<Rightarrow> Some x | Some y \<Rightarrow> if snd x \<le> snd y then Some x else Some y)"

definition observe_in_memory :: "(seen_map \<Rightarrow> seen_map) \<Rightarrow> nat \<Rightarrow> rstr \<Rightarrow> AuthReplayCache \<Rightarrow> bool \<times> AuthReplayCache" where
  "observe_in_memory iter now key cache =
     (let m = filter (\<lambda>(k, seen). now - seen \<le> arc_ttl cache) (arc_inner cache) in
      if key \<in> fst ` set m then (False, cache\<lparr>arc_inner := m\<rparr>)
      else let m = (if length m \<ge> arc_max_entries cache
                    then case min_by_seen (iter m) of None \<Rightarrow> m | Some e \<Rightarrow> filter (\<lambda>(k, seen). k \<noteq> fst e) m
                    else m)
           in (True, cache\<lparr>arc_inner := (key, now) # m\<rparr>))"

definition observe_redis ::
  "(rstr \<Rightarrow> u64 \<Rightarrow> bool option) \<Rightarrow> (seen_map \<Rightarrow> seen_map) \<Rightarrow> rstr \<times> u64 \<Rightarrow> nat \<Rightarrow> rstr \<Rightarrow> AuthReplayCache \<Rightarrow> bool \<times> AuthReplayCache" where
  "observe_redis set_nx iter backend now key cache =
     (case set_nx (fst backend @ str_bytes ''replay:'' @ key) (snd backend) of
        Some was_set \<Rightarrow> (was_set, cache)
      | None \<Rightarrow> observe_in_memory iter now key cache)"

definition replay_key :: "rstr \<Rightarrow> rstr \<Rightarrow> rstr" where
  "replay_key user_id nonce = user_id @ str_bytes '':'' @ nonce"

definition observe ::
  "(rstr \<Rightarrow> u64 \<Rightarrow> bool option) \<Rightarrow> (seen_map \<Rightarrow> seen_map) \<Rightarrow> nat \<Rightarrow> rstr \<Rightarrow> rstr \<Rightarrow> AuthReplayCache \<Rightarrow> bool \<times> AuthReplayCache" where
  "observe set_nx iter now user_id nonce cache =
     (let key = replay_key user_id nonce in
      case arc_redis_backend cache of
        Some backend \<Rightarrow> observe_redis set_nx iter backend now key cache
      | None \<Rightarrow> observe_in_memory iter now key cache)"

subsection \<open>Verification\<close>

text \<open>
  \<open>abs\<close> of an \<^verbatim>\<open>i64\<close> wraps at the smallest value, as a release build does. The result carries the cache,
  which changes on every path that reaches it.
\<close>

definition i64_abs :: "i64 \<Rightarrow> i64" where
  "i64_abs x = (if sint x < 0 then - x else x)"

record auth_env =
  env_crypto :: crypto
  env_iter :: "seen_map \<Rightarrow> seen_map"

text \<open>
  The row of a user is an error of the query, nothing, or the stored key, whose decoding may fail as well and
  is looked at after the query for the device.
\<close>

definition verify_request_auth_any ::
  "auth_env \<Rightarrow> (rstr \<Rightarrow> u64 \<Rightarrow> bool option) \<Rightarrow> (rstr \<Rightarrow> bytes app_result option app_result) \<Rightarrow> (rstr \<Rightarrow> rstr \<Rightarrow> bool app_result)
     \<Rightarrow> i64 \<Rightarrow> nat \<Rightarrow> RequestAuth \<Rightarrow> bytes list \<Rightarrow> AuthReplayCache \<Rightarrow> unit app_result \<times> AuthReplayCache" where
  "verify_request_auth_any env set_nx sig_pub_of device_active now instant auth messages cache =
     (if sint (i64_abs (now - ra_timestamp auth)) > sint AUTH_MAX_CLOCK_SKEW_SECONDS
      then (Err (bad_request (str_bytes ''request timestamp outside allowed skew'')), cache)
      else let (fresh, cache) = observe set_nx (env_iter env) instant (ra_user_id auth) (ra_nonce auth) cache in
      if \<not> fresh then (Err (conflict (str_bytes ''request nonce replayed'')), cache)
      else (and_then (sig_pub_of (ra_user_id auth)) (\<lambda>user_row. case user_row of
          None \<Rightarrow> Err (not_found (str_bytes ''auth user not found''))
        | Some row \<Rightarrow>
            and_then (device_active (ra_user_id auth) (ra_device_id auth)) (\<lambda>active.
            if \<not> active then Err (bad_request (str_bytes ''auth device mismatch for user or device revoked''))
            else and_then row (\<lambda>identity_sig_pub.
            if \<not> list_ex (\<lambda>message. is_ok (verify_ed25519_signature (env_crypto env) identity_sig_pub
                (ra_signature auth) message AUTH_HEADER_SIGNATURE)) messages
            then Err (bad_request (str_bytes ''x-pqmsg-auth-signature verification failed''))
            else Ok ()))), cache))"

definition verify_request_auth ::
  "auth_env \<Rightarrow> (rstr \<Rightarrow> u64 \<Rightarrow> bool option) \<Rightarrow> (rstr \<Rightarrow> bytes app_result option app_result) \<Rightarrow> (rstr \<Rightarrow> rstr \<Rightarrow> bool app_result)
     \<Rightarrow> i64 \<Rightarrow> nat \<Rightarrow> RequestAuth \<Rightarrow> bytes \<Rightarrow> AuthReplayCache \<Rightarrow> unit app_result \<times> AuthReplayCache" where
  "verify_request_auth env set_nx sig_pub_of device_active now instant auth message cache =
     verify_request_auth_any env set_nx sig_pub_of device_active now instant auth [message] cache"

end
