(* ===== verification/Server_Replay.thy ===== *)
theory Server_Replay
  imports Server_Auth
begin

text \<open>
  The replay protection of authenticated requests: how long a nonce stays in the cache, whatever other
  requests arrive, and how the cache can be emptied.
\<close>

subsection \<open>One observation\<close>

definition iter_ok :: "(seen_map \<Rightarrow> seen_map) \<Rightarrow> bool" where
  "iter_ok iter \<longleftrightarrow> (\<forall>m. set (iter m) = set m)"

definition replay_ok :: "AuthReplayCache \<Rightarrow> bool" where
  "replay_ok cache \<longleftrightarrow> distinct (map fst (arc_inner cache)) \<and> arc_redis_backend cache = None"

lemma min_by_seen_None [simp]: "min_by_seen xs = None \<longleftrightarrow> xs = []"
  by (cases xs) (auto split: option.splits)

lemma min_by_seen_Some: "min_by_seen xs = Some e \<Longrightarrow> e \<in> set xs \<and> (\<forall>x \<in> set xs. snd e \<le> snd x)"
proof (induction xs arbitrary: e)
  case (Cons x xs)
  show ?case
  proof (cases "min_by_seen xs")
    case None
    then show ?thesis using Cons.prems by auto
  next
    case (Some y)
    then have "y \<in> set xs" "\<forall>z \<in> set xs. snd y \<le> snd z" using Cons.IH by auto
    with Some Cons.prems show ?thesis by (cases "snd x \<le> snd y") (auto intro: order_trans)
  qed
qed simp

text \<open>The entries that are not expired, and what is left of them after an eviction.\<close>

definition live :: "nat \<Rightarrow> AuthReplayCache \<Rightarrow> seen_map" where
  "live now cache = filter (\<lambda>(k, seen). now - seen \<le> arc_ttl cache) (arc_inner cache)"

definition evict :: "(seen_map \<Rightarrow> seen_map) \<Rightarrow> usize \<Rightarrow> seen_map \<Rightarrow> seen_map" where
  "evict iter max_entries m = (if length m \<ge> max_entries
     then case min_by_seen (iter m) of None \<Rightarrow> m | Some e \<Rightarrow> filter (\<lambda>(k, seen). k \<noteq> fst e) m else m)"

lemma observe_in_memory_live:
  "observe_in_memory iter now key cache =
     (if key \<in> fst ` set (live now cache) then (False, cache\<lparr>arc_inner := live now cache\<rparr>)
      else (True, cache\<lparr>arc_inner := (key, now) # evict iter (arc_max_entries cache) (live now cache)\<rparr>))"
  by (simp add: observe_in_memory_def live_def evict_def Let_def)

lemma set_live: "e \<in> set (live now cache) \<longleftrightarrow> e \<in> set (arc_inner cache) \<and> now - snd e \<le> arc_ttl cache"
  by (auto simp: live_def)

lemma evict_cases:
  assumes "iter_ok iter"
  obtains "evict iter n m = m" "length m < n \<or> m = []"
    | e where "n \<le> length m" "e \<in> set m" "\<forall>x \<in> set m. snd e \<le> snd x" "evict iter n m = filter (\<lambda>(k, seen). k \<noteq> fst e) m"
proof (cases "min_by_seen (iter m)")
  case None
  then have "m = []" using assms by (auto simp: iter_ok_def) (metis list.set(1) set_empty2)
  then show ?thesis using that(1) None by (simp add: evict_def)
next
  case (Some e)
  from min_by_seen_Some [OF this] have "e \<in> set m" "\<forall>x \<in> set m. snd e \<le> snd x" using assms by (auto simp: iter_ok_def)
  then show ?thesis using that Some by (cases "n \<le> length m") (auto simp: evict_def)
qed

lemma distinct_filter_fst: "distinct (map fst m) \<Longrightarrow> distinct (map fst (filter P m))"
  by (induction m) auto

lemma evict_subset:
  assumes "iter_ok iter"
  shows "set (evict iter n m) \<subseteq> set m" "length (evict iter n m) \<le> length m" "distinct (map fst m) \<Longrightarrow> distinct (map fst (evict iter n m))"
  by (rule evict_cases [OF assms, of n m]; auto simp: distinct_filter_fst)+

lemma replay_ok_observe:
  assumes "iter_ok iter" "replay_ok cache"
  shows "replay_ok (snd (observe_in_memory iter now key cache))"
proof -
  have d: "distinct (map fst (live now cache))" using assms(2) by (simp add: replay_ok_def live_def distinct_filter_fst)
  with evict_subset [OF assms(1), where n = "arc_max_entries cache" and m = "live now cache"] assms(2)
  show ?thesis by (auto simp: observe_in_memory_live replay_ok_def)
qed

subsection \<open>An entry stays\<close>

definition recent :: "nat \<Rightarrow> AuthReplayCache \<Rightarrow> nat" where
  "recent t cache = length (filter (\<lambda>e. t \<le> snd e) (arc_inner cache))"

definition kept :: "rstr \<Rightarrow> nat \<Rightarrow> nat \<Rightarrow> AuthReplayCache \<Rightarrow> bool" where
  "kept key t n cache \<longleftrightarrow> replay_ok cache \<and> (key, t) \<in> set (arc_inner cache) \<and> recent t cache \<le> n"

lemma kept_evict:
  assumes "iter_ok iter" "distinct (map fst m)" "(key, t) \<in> set m" "length (filter (\<lambda>e. t \<le> snd e) m) < n"
  shows "(key, t) \<in> set (evict iter n m)"
proof (rule evict_cases [OF assms(1), of n m])
  fix e
  assume e: "n \<le> length m" "e \<in> set m" "\<forall>x \<in> set m. snd e \<le> snd x"
    and ev: "evict iter n m = filter (\<lambda>(k, seen). k \<noteq> fst e) m"
  have "fst e \<noteq> key"
  proof
    assume "fst e = key"
    with assms(2,3) e(2) have "e = (key, t)" by (metis eq_key_imp_eq_value prod.collapse)
    with e(3) have "filter (\<lambda>e. t \<le> snd e) m = m" by (simp add: filter_id_conv)
    with assms(4) e(1) show False by simp
  qed
  with assms(3) ev show ?thesis by auto
qed (use assms in auto)

lemma length_filter_mono: "(\<And>x. P x \<Longrightarrow> Q x) \<Longrightarrow> length (filter P xs) \<le> length (filter Q xs)"
  by (induction xs) auto

lemma length_filter_filter: "length (filter P (filter Q xs)) \<le> length (filter P xs)"
  by (induction xs) auto

lemma recent_evict:
  assumes "iter_ok iter"
  shows "length (filter P (evict iter n (live now cache))) \<le> length (filter P (arc_inner cache))"
  by (rule evict_cases [OF assms, of n "live now cache"])
    (auto simp: live_def intro: length_filter_mono)

lemma kept_observe:
  assumes "iter_ok iter" "kept key t n cache" "n < arc_max_entries cache" "t \<le> now" "now - t \<le> arc_ttl cache"
  shows "kept key t (Suc n) (snd (observe_in_memory iter now k cache))"
proof -
  have l: "(key, t) \<in> set (live now cache)" using assms by (simp add: set_live kept_def)
  have d: "distinct (map fst (live now cache))" using assms by (simp add: kept_def replay_ok_def live_def distinct_filter_fst)
  have r: "length (filter (\<lambda>e. t \<le> snd e) (live now cache)) \<le> n" using assms(2) length_filter_filter
    unfolding kept_def recent_def live_def by (meson order_trans)
  have "(key, t) \<in> set (evict iter (arc_max_entries cache) (live now cache))"
    by (rule kept_evict [OF assms(1) d l]) (use r assms(3) in simp)
  moreover have "length (filter (\<lambda>e. t \<le> snd e) (evict iter (arc_max_entries cache) (live now cache))) \<le> n"
    using recent_evict [OF assms(1)] assms(2) unfolding kept_def recent_def by (meson order_trans)
  moreover have "replay_ok (snd (observe_in_memory iter now k cache))"
    by (rule replay_ok_observe) (use assms in \<open>auto simp: kept_def\<close>)
  ultimately show ?thesis using l r by (auto simp: kept_def recent_def observe_in_memory_live)
qed

subsection \<open>Any number of requests\<close>

record attempt =
  at_set_nx :: "rstr \<Rightarrow> u64 \<Rightarrow> bool option"
  at_sig_pub_of :: "rstr \<Rightarrow> bytes app_result option app_result"
  at_device_active :: "rstr \<Rightarrow> rstr \<Rightarrow> bool app_result"
  at_now :: i64
  at_instant :: nat
  at_auth :: RequestAuth
  at_messages :: "bytes list"

definition verify_attempt :: "auth_env \<Rightarrow> attempt \<Rightarrow> AuthReplayCache \<Rightarrow> unit app_result \<times> AuthReplayCache" where
  "verify_attempt env a cache = verify_request_auth_any env (at_set_nx a) (at_sig_pub_of a) (at_device_active a) (at_now a) (at_instant a)
     (at_auth a) (at_messages a) cache"

definition at_key :: "attempt \<Rightarrow> rstr" where
  "at_key a = replay_key (ra_user_id (at_auth a)) (ra_nonce (at_auth a))"

definition skew_ok :: "attempt \<Rightarrow> bool" where
  "skew_ok a \<longleftrightarrow> sint (i64_abs (at_now a - ra_timestamp (at_auth a))) \<le> 300"

fun run_attempts :: "auth_env \<Rightarrow> attempt list \<Rightarrow> AuthReplayCache \<Rightarrow> AuthReplayCache" where
  "run_attempts env [] cache = cache"
| "run_attempts env (a # as) cache = run_attempts env as (snd (verify_attempt env a cache))"

text \<open>What a verification answers when the request is fresh.\<close>

definition check_signature :: "auth_env \<Rightarrow> attempt \<Rightarrow> unit app_result" where
  "check_signature env a = and_then (at_sig_pub_of a (ra_user_id (at_auth a))) (\<lambda>user_row. case user_row of
     None \<Rightarrow> Err (not_found (str_bytes ''auth user not found''))
   | Some row \<Rightarrow>
       and_then (at_device_active a (ra_user_id (at_auth a)) (ra_device_id (at_auth a))) (\<lambda>active.
       if \<not> active then Err (bad_request (str_bytes ''auth device mismatch for user or device revoked''))
       else and_then row (\<lambda>identity_sig_pub.
       if \<not> list_ex (\<lambda>message. is_ok (verify_ed25519_signature (env_crypto env) identity_sig_pub
           (ra_signature (at_auth a)) message AUTH_HEADER_SIGNATURE)) (at_messages a)
       then Err (bad_request (str_bytes ''x-pqmsg-auth-signature verification failed''))
       else Ok ())))"

lemma verify_attempt_eq:
  assumes "arc_redis_backend cache = None"
  shows "verify_attempt env a cache =
    (if \<not> skew_ok a then (Err (bad_request (str_bytes ''request timestamp outside allowed skew'')), cache)
     else if \<not> fst (observe_in_memory (env_iter env) (at_instant a) (at_key a) cache)
     then (Err (conflict (str_bytes ''request nonce replayed'')), snd (observe_in_memory (env_iter env) (at_instant a) (at_key a) cache))
     else (check_signature env a, snd (observe_in_memory (env_iter env) (at_instant a) (at_key a) cache)))"
proof -
  have "sint AUTH_MAX_CLOCK_SKEW_SECONDS = 300" by (simp add: AUTH_MAX_CLOCK_SKEW_SECONDS_def)
  with assms show ?thesis
    by (cases "observe_in_memory (env_iter env) (at_instant a) (at_key a) cache")
      (simp add: verify_attempt_def verify_request_auth_any_def observe_def at_key_def skew_ok_def check_signature_def not_less
        Let_def cong: option.case_cong)
qed

lemma snd_verify_attempt:
  "arc_redis_backend cache = None \<Longrightarrow> snd (verify_attempt env a cache) =
    (if skew_ok a then snd (observe_in_memory (env_iter env) (at_instant a) (at_key a) cache) else cache)"
  by (simp add: verify_attempt_eq)

lemma observe_in_memory_config [simp]:
  "arc_max_entries (snd (observe_in_memory iter now k cache)) = arc_max_entries cache"
  "arc_ttl (snd (observe_in_memory iter now k cache)) = arc_ttl cache"
  "arc_redis_backend (snd (observe_in_memory iter now k cache)) = arc_redis_backend cache"
  by (simp_all add: observe_in_memory_live)

lemma run_attempts_kept:
  assumes "iter_ok (env_iter env)" "kept key t n cache" "n + length as \<le> arc_max_entries cache"
    "\<forall>a \<in> set as. t \<le> at_instant a \<and> at_instant a - t \<le> arc_ttl cache"
  shows "kept key t (n + length as) (run_attempts env as cache)
    \<and> arc_ttl (run_attempts env as cache) = arc_ttl cache"
  using assms(2-4)
proof (induction as arbitrary: n cache)
  case (Cons a as)
  have redis: "arc_redis_backend cache = None" using Cons.prems(1) by (simp add: kept_def replay_ok_def)
  show ?case
  proof (cases "skew_ok a")
    case True
    have "kept key t (Suc n) (snd (observe_in_memory (env_iter env) (at_instant a) (at_key a) cache))"
      by (rule kept_observe [OF assms(1) Cons.prems(1)]) (use Cons.prems in auto)
    from Cons.IH [OF this] Cons.prems show ?thesis by (simp add: snd_verify_attempt [OF redis] True)
  next
    case False
    have "kept key t (Suc n) cache" using Cons.prems(1) by (simp add: kept_def)
    from Cons.IH [OF this] Cons.prems show ?thesis by (simp add: snd_verify_attempt [OF redis] False)
  qed
qed simp

subsection \<open>The clock\<close>

text \<open>The wall clock in seconds and the monotonic clock in nanoseconds advance together.\<close>

definition clock_ok :: "nat \<Rightarrow> attempt \<Rightarrow> bool" where
  "clock_ok off a \<longleftrightarrow> at_now a = word_of_nat (off + at_instant a div 10 ^ 9) \<and> off + at_instant a div 10 ^ 9 < 2 ^ 62"

lemma clock_later:
  assumes "clock_ok off a" "clock_ok off a'" "at_instant a \<le> at_instant a'"
  defines "d \<equiv> at_instant a' div 10 ^ 9 - at_instant a div 10 ^ 9"
  shows "at_now a' = at_now a + word_of_nat d" "d < 2 ^ 62"
proof -
  have "at_instant a div 10 ^ 9 \<le> at_instant a' div 10 ^ 9" using assms(3) by (rule div_le_mono)
  then have "at_instant a' div 10 ^ 9 = at_instant a div 10 ^ 9 + d" unfolding d_def by simp
  then have "off + at_instant a' div 10 ^ 9 = (off + at_instant a div 10 ^ 9) + d" by simp
  with assms(1,2) show "at_now a' = at_now a + word_of_nat d" "d < 2 ^ 62"
    unfolding clock_ok_def by (metis of_nat_add, linarith)
qed

lemma sint_cases: "- (2 ^ 63) \<le> sint (x :: i64)" "sint (x :: i64) < 2 ^ 63"
  using sint_ge [of x] sint_lt [of x] by simp_all

lemma sint_neg_i64: "sint (x :: i64) \<noteq> - (2 ^ 63) \<Longrightarrow> sint (- x) = - sint x"
  using sint_cases [of x] by (simp add: sint_word_ariths signed_take_bit_int_eq_self)

lemma skew_sint: "skew_ok a \<longleftrightarrow>
  (let d = sint (at_now a - ra_timestamp (at_auth a)) in d = - (2 ^ 63) \<or> - 300 \<le> d \<and> d \<le> 300)"
proof -
  define x where "x = at_now a - ra_timestamp (at_auth a)"
  have "sint (i64_abs x) \<le> 300 \<longleftrightarrow> sint x = - (2 ^ 63) \<or> - 300 \<le> sint x \<and> sint x \<le> 300"
  proof (cases "sint x = - (2 ^ 63)")
    case True
    have "x = word_of_int (sint x)" by simp
    then have "x = word_of_int (- (2 ^ 63))" unfolding True .
    then have "sint (- x) = - (2 ^ 63)" by simp
    with True show ?thesis by (simp add: i64_abs_def)
  next
    case False
    then show ?thesis using sint_neg_i64 [OF False] by (auto simp: i64_abs_def)
  qed
  then show ?thesis by (simp add: skew_ok_def x_def Let_def)
qed

lemma skew_much_later:
  assumes "skew_ok a" "at_auth a' = at_auth a" "at_now a' = at_now a + word_of_nat d" "601 \<le> d" "d < 2 ^ 62"
  shows "\<not> skew_ok a'"
proof -
  define s where "s = sint (at_now a - ra_timestamp (at_auth a))"
  have s: "s = - (2 ^ 63) \<or> - 300 \<le> s \<and> s \<le> 300" using assms(1) by (simp add: skew_sint s_def Let_def)
  have dd: "sint (word_of_nat d :: i64) = int d" using assms(5) by (simp add: sint_uint signed_take_bit_int_eq_self unsigned_of_nat take_bit_nat_eq_self)
  have "at_now a' - ra_timestamp (at_auth a') = (at_now a - ra_timestamp (at_auth a)) + word_of_nat d" using assms(2,3) by simp
  then have "sint (at_now a' - ra_timestamp (at_auth a')) = signed_take_bit 63 (s + int d)"
    by (simp add: sint_word_ariths s_def dd)
  also have "\<dots> = s + int d" using s assms(4,5) by (intro signed_take_bit_int_eq_self) auto
  finally show ?thesis using s assms(4,5) by (auto simp: skew_sint Let_def)
qed

subsection \<open>Replays are refused\<close>

lemma verify_attempt_Ok:
  assumes "replay_ok cache" "fst (verify_attempt env a cache) = Ok ()"
  shows "skew_ok a" "at_key a \<notin> fst ` set (live (at_instant a) cache)" "check_signature env a = Ok ()"
    "snd (verify_attempt env a cache) =
      cache\<lparr>arc_inner := (at_key a, at_instant a) # evict (env_iter env) (arc_max_entries cache) (live (at_instant a) cache)\<rparr>"
  using assms by (auto simp: verify_attempt_eq replay_ok_def observe_in_memory_live split: if_splits)

lemma verify_attempt_replay_ok:
  assumes "iter_ok (env_iter env)" "replay_ok cache"
  shows "replay_ok (snd (verify_attempt env a cache))"
proof -
  have "arc_redis_backend cache = None" using assms(2) by (simp add: replay_ok_def)
  then show ?thesis using replay_ok_observe [OF assms] assms(2) by (simp add: snd_verify_attempt)
qed

lemma run_attempts_replay_ok:
  "iter_ok (env_iter env) \<Longrightarrow> replay_ok cache \<Longrightarrow> replay_ok (run_attempts env as cache)"
  by (induction as arbitrary: cache) (auto intro: verify_attempt_replay_ok)

lemma accepted_kept:
  assumes "iter_ok (env_iter env)" "replay_ok cache" "\<forall>e \<in> set (arc_inner cache). snd e < at_instant a"
    "fst (verify_attempt env a cache) = Ok ()"
  shows "kept (at_key a) (at_instant a) 1 (snd (verify_attempt env a cache))"
proof -
  have "set (evict (env_iter env) (arc_max_entries cache) (live (at_instant a) cache)) \<subseteq> set (arc_inner cache)"
    using evict_subset(1) [OF assms(1)] set_live by blast
  then have "filter (\<lambda>e. at_instant a \<le> snd e) (evict (env_iter env) (arc_max_entries cache) (live (at_instant a) cache)) = []"
    using assms(3) unfolding filter_empty_conv not_le by blast
  with verify_attempt_replay_ok [OF assms(1,2), of a] verify_attempt_Ok(4) [OF assms(2,4)] show ?thesis
    by (simp add: kept_def recent_def)
qed

lemma kept_refused:
  assumes "kept (at_key a) t n cache" "at_instant a - t \<le> arc_ttl cache"
  shows "\<exists>e. fst (verify_attempt env a cache) = Err e"
proof -
  have "at_key a \<in> fst ` set (live (at_instant a) cache)" using assms by (force simp: set_live kept_def)
  moreover have "arc_redis_backend cache = None" using assms(1) by (simp add: kept_def replay_ok_def)
  ultimately show ?thesis by (simp add: verify_attempt_eq observe_in_memory_live)
qed

text \<open>
  C11. Once a request was accepted, the same request is refused at any later time by a server that keeps the
  nonces in memory, whatever fewer than \<^verbatim>\<open>max_entries\<close> other requests it has seen in
  between: within the replay window because the nonce is still cached, and from 601 seconds on because its
  timestamp is too old. The second between the two is not covered.
\<close>

theorem replay_rejected:
  assumes "iter_ok (env_iter env)" "replay_ok cache" "\<forall>e \<in> set (arc_inner cache). snd e < at_instant a"
    "arc_ttl cache = 600 * 10 ^ 9" "fst (verify_attempt env a cache) = Ok ()"
    "\<forall>b \<in> set bs. at_instant a \<le> at_instant b \<and> at_instant b \<le> at_instant a'" "length bs < arc_max_entries cache"
    "at_auth a' = at_auth a" "clock_ok off a" "clock_ok off a'" "at_instant a \<le> at_instant a'"
    "at_instant a' - at_instant a \<le> 600 * 10 ^ 9 \<or> 601 * 10 ^ 9 \<le> at_instant a' - at_instant a"
  shows "\<exists>e. fst (verify_attempt env a' (run_attempts env bs (snd (verify_attempt env a cache)))) = Err e"
  using assms(12)
proof
  assume early: "at_instant a' - at_instant a \<le> 600 * 10 ^ 9"
  define cache1 where "cache1 = snd (verify_attempt env a cache)"
  have c1: "arc_ttl cache1 = arc_ttl cache" "arc_max_entries cache1 = arc_max_entries cache"
    using verify_attempt_Ok(4) [OF assms(2,5)] by (simp_all add: cache1_def)
  have "kept (at_key a) (at_instant a) 1 cache1" unfolding cache1_def by (rule accepted_kept [OF assms(1,2,3,5)])
  from run_attempts_kept [OF assms(1) this, of bs] assms(4,6,7) early c1
  have "kept (at_key a) (at_instant a) (1 + length bs) (run_attempts env bs cache1)" "arc_ttl (run_attempts env bs cache1) = 600 * 10 ^ 9"
    by fastforce+
  moreover have "at_key a' = at_key a" using assms(8) by (simp add: at_key_def)
  ultimately show ?thesis using kept_refused [of a'] early by (simp add: cache1_def)
next
  assume late: "601 * 10 ^ 9 \<le> at_instant a' - at_instant a"
  define d where "d = at_instant a' div 10 ^ 9 - at_instant a div 10 ^ 9"
  have "601 * 10 ^ 9 + at_instant a \<le> at_instant a'" using late by simp
  then have "601 + at_instant a div 10 ^ 9 \<le> at_instant a' div 10 ^ 9"
    using div_le_mono [of "601 * 10 ^ 9 + at_instant a" "at_instant a'" "10 ^ 9"] by simp
  then have "601 \<le> d" by (simp add: d_def)
  from skew_much_later [OF verify_attempt_Ok(1) [OF assms(2,5)] assms(8) _ this] clock_later [OF assms(9-11)]
  have "\<not> skew_ok a'" by (simp add: d_def)
  moreover have "arc_redis_backend (run_attempts env bs (snd (verify_attempt env a cache))) = None"
    using run_attempts_replay_ok [OF assms(1) verify_attempt_replay_ok [OF assms(1,2)]] by (simp add: replay_ok_def)
  ultimately show ?thesis by (simp add: verify_attempt_eq)
qed

subsection \<open>Emptying the cache\<close>

definition newer :: "nat \<Rightarrow> seen_map \<Rightarrow> rstr set" where
  "newer t m = fst ` {e \<in> set m. t < snd e}"

definition filling :: "nat \<Rightarrow> rstr set \<Rightarrow> AuthReplayCache \<Rightarrow> bool" where
  "filling t K cache \<longleftrightarrow> replay_ok cache \<and> length (arc_inner cache) \<le> arc_max_entries cache \<and> newer t (arc_inner cache) = K"

lemma finite_newer [simp]: "finite (newer t m)"
  by (simp add: newer_def)

lemma newer_Cons: "t < snd e \<Longrightarrow> newer t (e # m) = insert (fst e) (newer t m)"
proof -
  assume "t < snd e"
  then have "{x \<in> set (e # m). t < snd x} = insert e {x \<in> set m. t < snd x}" by auto
  then show ?thesis by (simp add: newer_def)
qed

lemma card_newer_full:
  assumes "length m \<le> card (newer t m)"
  shows "newer t m = fst ` set m"
proof (rule card_seteq)
  show "newer t m \<subseteq> fst ` set m" by (auto simp: newer_def)
  have "card (fst ` set m) \<le> length m" by (metis card_length length_map list.set_map)
  with assms show "card (fst ` set m) \<le> card (newer t m)" by simp
qed simp

lemma newer_evict:
  assumes "iter_ok iter" "distinct (map fst m)" "card (newer t m) < n"
  shows "newer t (evict iter n m) = newer t m"
proof (rule evict_cases [OF assms(1), of n m])
  fix e
  assume e: "n \<le> length m" "e \<in> set m" "\<forall>x \<in> set m. snd e \<le> snd x"
    and ev: "evict iter n m = filter (\<lambda>(k, seen). k \<noteq> fst e) m"
  have "\<not> (\<forall>x \<in> set m. t < snd x)"
  proof
    assume "\<forall>x \<in> set m. t < snd x"
    then have "newer t m = set (map fst m)" by (auto simp: newer_def)
    with assms(2,3) e(1) show False by (metis distinct_card length_map not_less)
  qed
  with e(3) have old: "snd e \<le> t" by (meson not_less order_trans)
  have "fst x \<noteq> fst e" if "x \<in> set m" "t < snd x" for x
    using that old e(2) assms(2) by (metis eq_key_imp_eq_value not_less prod.collapse)
  then show ?thesis unfolding newer_def ev by (force simp: case_prod_beta)
qed simp

lemma evict_room:
  assumes "iter_ok iter" "length m \<le> n" "0 < n"
  shows "length (evict iter n m) < n"
proof (rule evict_cases [OF assms(1), of n m])
  fix e
  assume e: "e \<in> set m" and ev: "evict iter n m = filter (\<lambda>(k, seen). k \<noteq> fst e) m"
  have "length (filter (\<lambda>(k, seen). k \<noteq> fst e) m) < length m" using e by (intro length_filter_less [of e]) auto
  with ev assms(2) show ?thesis by simp
qed (use assms in auto)

lemma filling_observe:
  assumes "iter_ok iter" "filling t K cache" "key \<notin> fst ` set (arc_inner cache)" "t < now" "now - t \<le> arc_ttl cache"
    "card K < arc_max_entries cache"
  shows "filling t (insert key K) (snd (observe_in_memory iter now key cache))"
    "fst ` set (arc_inner (snd (observe_in_memory iter now key cache))) \<subseteq> insert key (fst ` set (arc_inner cache))"
proof -
  define m where "m = live now cache"
  have sub: "set m \<subseteq> set (arc_inner cache)" by (auto simp: m_def set_live)
  have fresh: "key \<notin> fst ` set m" using assms(3) sub by blast
  have "newer t m = newer t (arc_inner cache)" using assms(5) unfolding newer_def m_def
    by (intro arg_cong [where f = "image fst"]) (auto simp: set_live)
  then have K: "newer t m = K" using assms(2) by (simp add: filling_def)
  have d: "distinct (map fst m)" "length m \<le> arc_max_entries cache"
    using assms(2) unfolding m_def live_def filling_def replay_ok_def by (auto simp: distinct_filter_fst intro: order_trans [OF length_filter_le])
  have obs: "snd (observe_in_memory iter now key cache) = cache\<lparr>arc_inner := (key, now) # evict iter (arc_max_entries cache) m\<rparr>"
    using fresh by (simp add: observe_in_memory_live m_def)
  have "newer t (evict iter (arc_max_entries cache) m) = K" using newer_evict [OF assms(1) d(1)] K assms(6) by simp
  then have "newer t ((key, now) # evict iter (arc_max_entries cache) m) = insert key K"
    using assms(4) by (simp add: newer_Cons)
  moreover have "length (evict iter (arc_max_entries cache) m) < arc_max_entries cache"
    using evict_room [OF assms(1) d(2)] assms(6) by simp
  moreover have "replay_ok (snd (observe_in_memory iter now key cache))"
    by (rule replay_ok_observe [OF assms(1)]) (use assms(2) in \<open>simp add: filling_def\<close>)
  ultimately show "filling t (insert key K) (snd (observe_in_memory iter now key cache))"
    by (simp add: filling_def obs)
  show "fst ` set (arc_inner (snd (observe_in_memory iter now key cache))) \<subseteq> insert key (fst ` set (arc_inner cache))"
    using evict_subset(1) [OF assms(1), where n = "arc_max_entries cache" and m = m] sub by (auto simp: obs)
qed

lemma run_attempts_filling:
  assumes "iter_ok (env_iter env)"
  shows "filling t K cache \<Longrightarrow> distinct (map at_key bs) \<Longrightarrow> card K + length bs \<le> arc_max_entries cache \<Longrightarrow>
    \<forall>b \<in> set bs. skew_ok b \<and> t < at_instant b \<and> at_instant b - t \<le> arc_ttl cache \<and> at_key b \<notin> fst ` set (arc_inner cache) \<Longrightarrow>
    filling t (K \<union> at_key ` set bs) (run_attempts env bs cache) \<and> arc_max_entries (run_attempts env bs cache) = arc_max_entries cache"
proof (induction bs arbitrary: K cache)
  case (Cons b bs)
  define cache1 where "cache1 = snd (observe_in_memory (env_iter env) (at_instant b) (at_key b) cache)"
  have redis: "arc_redis_backend cache = None" using Cons.prems(1) by (simp add: filling_def replay_ok_def)
  have f: "finite K" using Cons.prems(1) by (auto simp: filling_def)
  have step: "filling t (insert (at_key b) K) cache1" "fst ` set (arc_inner cache1) \<subseteq> insert (at_key b) (fst ` set (arc_inner cache))"
    unfolding cache1_def using filling_observe [OF assms Cons.prems(1), of "at_key b" "at_instant b"] Cons.prems(3,4) by simp_all
  have cfg: "arc_max_entries cache1 = arc_max_entries cache" "arc_ttl cache1 = arc_ttl cache" by (simp_all add: cache1_def)
  have fr: "at_key b' \<notin> fst ` set (arc_inner cache1)" if "b' \<in> set bs" for b'
  proof -
    have "at_key b' \<in> at_key ` set bs" using that by (rule imageI)
    then have "at_key b' \<noteq> at_key b" using Cons.prems(2) by auto
    moreover have "at_key b' \<notin> fst ` set (arc_inner cache)" using that Cons.prems(4) by simp
    ultimately show ?thesis using subsetD [OF step(2), of "at_key b'"] by (metis insertE)
  qed
  have "card (insert (at_key b) K) \<le> Suc (card K)" using f by (simp add: card_insert_if)
  then have "filling t (insert (at_key b) K \<union> at_key ` set bs) (run_attempts env bs cache1)
      \<and> arc_max_entries (run_attempts env bs cache1) = arc_max_entries cache1"
    using Cons.prems(2-4) cfg fr by (intro Cons.IH [OF step(1)]) simp_all
  moreover have "run_attempts env (b # bs) cache = run_attempts env bs cache1"
    using Cons.prems(4) by (simp add: snd_verify_attempt [OF redis] cache1_def)
  ultimately show ?case using cfg by simp
qed simp

text \<open>
  C26. The nonce is recorded before the signature is checked, and a full in-memory cache drops its oldest
  entry. After an accepted request, as many further requests as the cache has entries, with fresh names or
  nonces and with whatever signatures, make the server accept the first request a second time inside the
  replay window.
\<close>

theorem nonce_cache_flushed:
  assumes "iter_ok (env_iter env)" "replay_ok cache" "length (arc_inner cache) \<le> arc_max_entries cache"
    "\<forall>e \<in> set (arc_inner cache). snd e \<le> at_instant a" "fst (verify_attempt env a cache) = Ok ()"
    "length bs = arc_max_entries cache" "bs \<noteq> []" "distinct (map at_key bs)"
    "\<forall>b \<in> set bs. skew_ok b \<and> at_instant a < at_instant b \<and> at_instant b - at_instant a \<le> arc_ttl cache
       \<and> at_key b \<noteq> at_key a \<and> at_key b \<notin> fst ` set (arc_inner cache)"
    "at_auth a' = at_auth a" "skew_ok a'" "check_signature env a' = Ok ()"
  shows "fst (verify_attempt env a' (run_attempts env bs (snd (verify_attempt env a cache)))) = Ok ()"
proof -
  define cache1 where "cache1 = snd (verify_attempt env a cache)"
  define m where "m = evict (env_iter env) (arc_max_entries cache) (live (at_instant a) cache)"
  have c1: "cache1 = cache\<lparr>arc_inner := (at_key a, at_instant a) # m\<rparr>"
    unfolding cache1_def m_def by (rule verify_attempt_Ok(4) [OF assms(2,5)])
  have sub: "set m \<subseteq> set (arc_inner cache)" using evict_subset(1) [OF assms(1)] set_live unfolding m_def by blast
  have "length (live (at_instant a) cache) \<le> arc_max_entries cache" using assms(3) length_filter_le order_trans unfolding live_def by blast
  moreover have "0 < arc_max_entries cache" using assms(6,7) by (metis length_greater_0_conv)
  ultimately have l: "length m < arc_max_entries cache" unfolding m_def by (rule evict_room [OF assms(1)])
  have "newer (at_instant a) (arc_inner cache1) = {}" proof -
    have "\<not> at_instant a < snd e" if "e \<in> set (arc_inner cache1)" for e 
    proof (cases "e \<in> set m")
      case True
      then have "snd e \<le> at_instant a" using subsetD [OF sub] assms(4) by blast
      then show ?thesis by simp
    next
      case False
      then show ?thesis using that by (simp add: c1)
    qed
    then show ?thesis unfolding newer_def by simp
  qed
  moreover have "replay_ok cache1" unfolding cache1_def by (rule verify_attempt_replay_ok [OF assms(1,2)])
  ultimately have f1: "filling (at_instant a) {} cache1" using l by (simp add: filling_def c1)
  have keys: "fst ` set (arc_inner cache1) \<subseteq> insert (at_key a) (fst ` set (arc_inner cache))" using sub by (auto simp: c1)
  have cfg: "arc_max_entries cache1 = arc_max_entries cache" "arc_ttl cache1 = arc_ttl cache" by (simp_all add: c1)
  have fresh: "\<forall>b \<in> set bs. skew_ok b \<and> at_instant a < at_instant b \<and> at_instant b - at_instant a \<le> arc_ttl cache1
      \<and> at_key b \<notin> fst ` set (arc_inner cache1)"
  proof
    fix b assume "b \<in> set bs"
    with assms(9) have b: "skew_ok b" "at_instant a < at_instant b" "at_instant b - at_instant a \<le> arc_ttl cache"
      "at_key b \<noteq> at_key a" "at_key b \<notin> fst ` set (arc_inner cache)" by simp_all
    then have "at_key b \<notin> fst ` set (arc_inner cache1)" using subsetD [OF keys, of "at_key b"] by (metis insertE)
    with b cfg(2) show "skew_ok b \<and> at_instant a < at_instant b \<and> at_instant b - at_instant a \<le> arc_ttl cache1
      \<and> at_key b \<notin> fst ` set (arc_inner cache1)" by simp
  qed
  define cache2 where "cache2 = run_attempts env bs cache1"
  from run_attempts_filling [OF assms(1) f1 assms(8) _ fresh] assms(6) cfg(1)
  have f2: "filling (at_instant a) (at_key ` set bs) cache2" "arc_max_entries cache2 = arc_max_entries cache"
    by (simp_all add: cache2_def)
  have "card (at_key ` set bs) = length bs" using assms(8) by (metis distinct_card length_map list.set_map)
  with f2 assms(6) have "fst ` set (arc_inner cache2) = at_key ` set bs"
    using card_newer_full [of "arc_inner cache2" "at_instant a"] by (simp add: filling_def)
  moreover have "at_key a' = at_key a" using assms(10) by (simp add: at_key_def)
  ultimately have "at_key a' \<notin> fst ` set (arc_inner cache2)" using assms(9) by (metis imageE)
  then have "at_key a' \<notin> fst ` set (live (at_instant a') cache2)" using set_live by blast
  moreover have "arc_redis_backend cache2 = None" using f2(1) by (simp add: filling_def replay_ok_def)
  ultimately show ?thesis using assms(11,12)
    by (simp add: verify_attempt_eq observe_in_memory_live cache2_def [symmetric] cache1_def [symmetric])
qed

text \<open>
  C27. In the second after the replay window a request can be accepted twice. Let its timestamp be five
  minutes ahead of the server's clock when it is first accepted. At every later instant that is more than
  600 seconds after that and at which the wall clock, read in whole seconds, has advanced by 600 only, the
  nonce has expired while the timestamp still counts as recent, and the server accepts the request again.
  These are the instants later than 600 seconds in the same second of the clock; there are none if the first
  acceptance falls on the last nanosecond of a second. The server keeps the nonces in memory.
\<close>

theorem replay_window_gap:
  assumes "iter_ok (env_iter env)" "replay_ok cache" "arc_ttl cache = 600 * 10 ^ 9" "fst (verify_attempt env a cache) = Ok ()"
    "ra_timestamp (at_auth a) = at_now a + 300" "at_instant a + 600 * 10 ^ 9 < at_instant a'"
    "at_instant a' div 10 ^ 9 = at_instant a div 10 ^ 9 + 600" "clock_ok off a" "clock_ok off a'"
    "at_auth a' = at_auth a" "check_signature env a' = Ok ()"
  shows "fst (verify_attempt env a' (snd (verify_attempt env a cache))) = Ok ()"
proof -
  define cache1 where "cache1 = snd (verify_attempt env a cache)"
  have ok: "replay_ok cache1" unfolding cache1_def by (rule verify_attempt_replay_ok [OF assms(1,2)])
  have c1: "(at_key a, at_instant a) \<in> set (arc_inner cache1)" "arc_ttl cache1 = 600 * 10 ^ 9"
    using verify_attempt_Ok(4) [OF assms(2,4)] assms(3) by (simp_all add: cache1_def)
  have only: "snd e = at_instant a" if "e \<in> set (arc_inner cache1)" "fst e = at_key a" for e
    using eq_key_imp_eq_value [of "arc_inner cache1" "at_key a" "snd e" "at_instant a"] ok c1(1) that
    by (metis prod.collapse replay_ok_def)
  have "at_key a' = at_key a" using assms(10) by (simp add: at_key_def)
  then have fresh: "at_key a' \<notin> fst ` set (live (at_instant a') cache1)"
    using only assms(6) c1(2) by (force simp: set_live)
  have "at_now a' = at_now a + 600" using clock_later(1) [OF assms(8,9)] assms(6,7) by simp
  then have "at_now a' - ra_timestamp (at_auth a') = 300" using assms(5,10) by simp
  then have "skew_ok a'" by (simp add: skew_ok_def i64_abs_def)
  with fresh ok assms(11) show ?thesis
    by (simp add: verify_attempt_eq replay_ok_def observe_in_memory_live cache1_def [symmetric])
qed

subsection \<open>Concrete instances\<close>

definition toy_env :: auth_env where
  "toy_env = \<lparr>env_crypto = toy_crypto, env_iter = (\<lambda>m. m)\<rparr>"

definition toy_attempt :: "nat \<Rightarrow> i64 \<Rightarrow> rstr \<Rightarrow> attempt" where
  "toy_attempt t ts nonce = \<lparr>at_set_nx = (\<lambda>_ _. None), at_sig_pub_of = (\<lambda>_. Ok (Some (Ok (replicate 32 1)))),
     at_device_active = (\<lambda>_ _. Ok True),
     at_now = word_of_nat (1000 + t div 10 ^ 9), at_instant = t,
     at_auth = \<lparr>ra_user_id = [97], ra_device_id = [100], ra_timestamp = ts, ra_nonce = nonce,
       ra_signature = ed25519_sign toy_crypto (replicate 32 1) []\<rparr>,
     at_messages = [[]]\<rparr>"

lemma toy_env_iter [simp]: "iter_ok (env_iter toy_env)"
  by (simp add: iter_ok_def toy_env_def)

lemma toy_new_ok [simp]: "replay_ok (arc_new n ttl)" "arc_inner (arc_new n ttl) = []" "arc_ttl (arc_new n ttl) = ttl"
  "arc_max_entries (arc_new n ttl) = n" "arc_redis_backend (arc_new n ttl) = None"
  by (simp_all add: replay_ok_def arc_new_def)

lemma toy_check [simp]: "check_signature toy_env (toy_attempt t ts nonce) = Ok ()"
  by (simp add: check_signature_def toy_attempt_def toy_env_def verify_ed25519_signature_def SIG_PUB_KEY_LEN_def SIG_LEN_def
      toy_crypto_def min_def)

lemma toy_attempt_simps [simp]:
  "at_instant (toy_attempt t ts nonce) = t" "at_key (toy_attempt t ts nonce) = [97, 58] @ nonce"
  "at_now (toy_attempt t ts nonce) = word_of_nat (1000 + t div 10 ^ 9)"
  by (simp_all add: toy_attempt_def at_key_def replay_key_def str_bytes_def)

definition toy_auth :: "i64 \<Rightarrow> rstr \<Rightarrow> RequestAuth" where
  "toy_auth ts nonce = at_auth (toy_attempt 0 ts nonce)"

lemma toy_attempt_auth [simp]: "at_auth (toy_attempt t ts nonce) = toy_auth ts nonce" "ra_timestamp (toy_auth ts nonce) = ts"
  by (simp_all add: toy_attempt_def toy_auth_def)

lemma toy_clock: "t div 10 ^ 9 < 10 ^ 6 \<Longrightarrow> clock_ok 1000 (toy_attempt t ts nonce)"
  by (simp add: clock_ok_def)

lemma toy_skew [simp]: "skew_ok (toy_attempt 0 1300 nonce)"
  by (simp add: skew_ok_def i64_abs_def)

lemma toy_accepted [simp]:
  "fst (verify_attempt toy_env (toy_attempt 0 1300 nonce) (arc_new n ttl)) = Ok ()"
  by (simp add: verify_attempt_eq observe_in_memory_live live_def)

theorem replay_rejected_witness:
  "\<exists>e. fst (verify_attempt toy_env (toy_attempt (2 * 10 ^ 9) 1300 [1])
     (run_attempts toy_env [toy_attempt (10 ^ 9) 1300 [2]]
       (snd (verify_attempt toy_env (toy_attempt 0 1300 [1]) (arc_new 5 (600 * 10 ^ 9)))))) = Err e"
  by (rule replay_rejected [where off = 1000]) (simp_all add: toy_clock)

theorem nonce_cache_flushed_witness:
  "fst (verify_attempt toy_env (toy_attempt (2 * 10 ^ 9) 1300 [1])
     (run_attempts toy_env [toy_attempt (10 ^ 9) 1300 [2], toy_attempt (10 ^ 9) 1300 [3]]
       (snd (verify_attempt toy_env (toy_attempt 0 1300 [1]) (arc_new 2 (600 * 10 ^ 9)))))) = Ok ()"
  by (rule nonce_cache_flushed) (simp_all add: skew_ok_def i64_abs_def)

theorem replay_window_gap_witness:
  "fst (verify_attempt toy_env (toy_attempt (600 * 10 ^ 9 + 700000000) 1300 [1])
     (snd (verify_attempt toy_env (toy_attempt 500000000 1300 [1]) (arc_new 5 (600 * 10 ^ 9))))) = Ok ()"
  by (rule replay_window_gap [where off = 1000]) (simp_all add: toy_clock verify_attempt_eq observe_in_memory_live live_def skew_ok_def i64_abs_def)


end
