(* ===== verification/Server_Thms.thy ===== *)
theory Server_Thms
  imports Server_Auth
begin

text \<open>
  What the server's checks mean to its clients: the prekeys it accepts are those the clients accept, and the
  transcript of a request determines what was asked.
\<close>

subsection \<open>Prekeys\<close>

text \<open>The clients' verifier, the same in \<^verbatim>\<open>pqmsg-cli\<close> and in the mobile bindings.\<close>

definition Ed25519SignatureVerifier_verify :: "crypto \<Rightarrow> signature_verifier" where
  "Ed25519SignatureVerifier_verify c public_key message signature =
     (if length public_key \<noteq> 32 then Err (InvalidLength ''signature.public_key'' 32 (length public_key))
      else if length signature \<noteq> 64 then Err (InvalidLength ''signature.signature'' 64 (length signature))
      else if \<not> ed25519_key_ok c public_key then Err SignatureVerificationFailed
      else if ed25519_verify c public_key message signature then Ok () else Err SignatureVerificationFailed)"

text \<open>
  C25. The server stores signed prekeys exactly when its ML-DSA verifier is available, key and signatures
  have the prescribed lengths, and a client would accept them: for a bundle of protocol version 1 with both
  kinds of signatures, the check of \<^verbatim>\<open>validation.rs\<close> agrees with the client's
  validation in \<^verbatim>\<open>handshake.rs\<close>.
\<close>

theorem server_prekeys_client_valid:
  assumes "pb_protocol_version b = PROTOCOL_VERSION_V1" "pb_pq_sig_public_key b = Some pq_pk"
    "pb_pq_spk_signature b = Some s1" "pb_pq_pqspk_signature b = Some s2"
  shows "verify_hybrid_prekey_signatures c ft be (pb_signature_public_key b) pq_pk (pb_signed_prekey b) (pb_spk_signature b)
      (pb_pq_signed_prekey b) (pb_pqspk_signature b) s1 s2 = Ok () \<longleftrightarrow>
    length (pb_signed_prekey b) = 32 \<and> length pq_pk = 1952 \<and> length s1 = 3309 \<and> length s2 = 3309 \<and> MlDsa65_new ft be = Ok ()
    \<and> validate_hybrid_prekey_bundle_signatures b (Ed25519SignatureVerifier_verify c) (mldsa_provider ft be) = Ok ()"
  using assms
  by (cases "signed_prekey_signature_message PROTOCOL_VERSION_V1 (pb_signed_prekey b)";
      cases "pq_signed_prekey_signature_message PROTOCOL_VERSION_V1 (pb_pq_signed_prekey b)")
    (auto simp: verify_hybrid_prekey_signatures_def validate_hybrid_prekey_bundle_signatures_def
      validate_prekey_bundle_signatures_def validate_pq_prekey_bundle_signatures_def Ed25519SignatureVerifier_verify_def
      validate_ml_dsa_public_key_def mldsa_provider_def and_then_Ok_iff SIG_PUB_KEY_LEN_def SIG_LEN_def X25519_KEY_LEN_def
      PQ_SIG_PUB_KEY_LEN_def PQ_SIG_LEN_def ML_DSA_65_PK_LEN_def ML_DSA_65_SIG_LEN_def split: if_splits)

subsection \<open>Transcripts\<close>

text \<open>The requests that are authenticated, one constructor for each transcript of \<^verbatim>\<open>auth.rs\<close>.\<close>

datatype auth_call =
    RelayCall rstr bytes
  | InboxCall rstr i64
  | SealedInboxCall rstr i64
  | SenderCertificateForCall rstr
  | ContactDiscoveryTicketCall rstr rstr
  | InboxDeleteCall rstr DeleteInboxRequest
  | WsInboxCall rstr i64
  | ListDevicesCall rstr
  | LinkDeviceCall rstr rstr
  | RevokeDeviceCall rstr rstr
  | RetireCurrentDeviceCall rstr
  | DeleteAccountCall rstr
  | DiscoveryHandlesCall rstr "rstr list" "rstr list"
  | DiscoveryMatchCall rstr "rstr list"
  | ContactsListCall rstr
  | ContactInviteCreateCall rstr
  | ContactsUpsertCall rstr rstr "rstr option" bool "rstr option"
  | ContactsRemoveCall rstr rstr
  | GroupCreateCall rstr "rstr list"
  | UserGroupsListCall rstr
  | GroupMembersListCall rstr
  | GroupMembersAddCall rstr rstr
  | GroupMembersRemoveCall rstr rstr
  | GroupRelayCall rstr rstr "(rstr \<times> bytes) list"
  | IdentityLogCall rstr
  | PrekeysStatusCall rstr
  | PrekeysCall PublishPrekeysRequest
  | PushTokenCall rstr rstr
  | FileUploadCall rstr bytes rstr
  | FileDownloadCall rstr
  | ProfileUpsertCall rstr "rstr option" "rstr option" bool "rstr option" "bytes option"
  | ProfileGetCall rstr
  | PresenceUpdateCall rstr rstr
  | PresenceGetCall rstr
  | TypingUpdateCall rstr bool
  | TypingGetCall rstr
  | RotateInitCall RotateInitRequest
  | RotateConfirmCall RotateConfirmRequest

definition auth_message :: "crypto \<Rightarrow> RequestAuth \<Rightarrow> auth_call \<Rightarrow> bytes app_result" where
  "auth_message c auth call = (case call of
       RelayCall recipient_user_id message_blob \<Rightarrow> relay_auth_message auth recipient_user_id message_blob
     | InboxCall user_id since \<Rightarrow> inbox_auth_message auth user_id since
     | SealedInboxCall user_id since \<Rightarrow> sealed_inbox_auth_message auth user_id since
     | SenderCertificateForCall user_id \<Rightarrow> sender_certificate_auth_message auth user_id
     | ContactDiscoveryTicketCall user_id purpose \<Rightarrow> contact_discovery_ticket_auth_message auth user_id purpose
     | InboxDeleteCall user_id request \<Rightarrow> inbox_delete_auth_message c auth user_id request
     | WsInboxCall user_id since \<Rightarrow> ws_inbox_auth_message auth user_id since
     | ListDevicesCall user_id \<Rightarrow> list_devices_auth_message auth user_id
     | LinkDeviceCall user_id new_device_id \<Rightarrow> link_device_auth_message auth user_id new_device_id
     | RevokeDeviceCall user_id target_device_id \<Rightarrow> revoke_device_auth_message auth user_id target_device_id
     | RetireCurrentDeviceCall user_id \<Rightarrow> retire_current_device_auth_message auth user_id
     | DeleteAccountCall user_id \<Rightarrow> delete_account_auth_message auth user_id
     | DiscoveryHandlesCall user_id phone_hashes email_hashes \<Rightarrow> discovery_handles_auth_message c auth user_id phone_hashes email_hashes
     | DiscoveryMatchCall user_id query_hashes \<Rightarrow> discovery_match_auth_message c auth user_id query_hashes
     | ContactsListCall user_id \<Rightarrow> contacts_list_auth_message auth user_id
     | ContactInviteCreateCall user_id \<Rightarrow> contact_invite_create_auth_message auth user_id
     | ContactsUpsertCall user_id contact_user_id alias verified_by_qr verified_fingerprint_sha256 \<Rightarrow> contacts_upsert_auth_message c auth user_id contact_user_id alias verified_by_qr verified_fingerprint_sha256
     | ContactsRemoveCall user_id contact_user_id \<Rightarrow> contacts_remove_auth_message auth user_id contact_user_id
     | GroupCreateCall group_id member_user_ids \<Rightarrow> group_create_auth_message c auth group_id member_user_ids
     | UserGroupsListCall user_id \<Rightarrow> user_groups_list_auth_message auth user_id
     | GroupMembersListCall group_id \<Rightarrow> group_members_list_auth_message auth group_id
     | GroupMembersAddCall group_id member_user_id \<Rightarrow> group_members_add_auth_message auth group_id member_user_id
     | GroupMembersRemoveCall group_id member_user_id \<Rightarrow> group_members_remove_auth_message auth group_id member_user_id
     | GroupRelayCall group_id sender_user_id recipients \<Rightarrow> group_relay_auth_message c auth group_id sender_user_id recipients
     | IdentityLogCall user_id \<Rightarrow> identity_log_auth_message auth user_id
     | PrekeysStatusCall user_id \<Rightarrow> prekeys_status_auth_message auth user_id
     | PrekeysCall request \<Rightarrow> prekeys_auth_message c auth request
     | PushTokenCall device_id push_token \<Rightarrow> push_token_auth_message c auth device_id push_token
     | FileUploadCall recipient_user_id file_blob mime_type \<Rightarrow> file_upload_auth_message c auth recipient_user_id file_blob mime_type
     | FileDownloadCall file_id \<Rightarrow> file_download_auth_message auth file_id
     | ProfileUpsertCall user_id display_name username username_lookup_enabled avatar_mime avatar_blob \<Rightarrow> profile_upsert_auth_message c auth user_id display_name username username_lookup_enabled avatar_mime avatar_blob
     | ProfileGetCall user_id \<Rightarrow> profile_get_auth_message auth user_id
     | PresenceUpdateCall user_id status \<Rightarrow> presence_update_auth_message auth user_id status
     | PresenceGetCall user_id \<Rightarrow> presence_get_auth_message auth user_id
     | TypingUpdateCall peer_user_id is_typing \<Rightarrow> typing_update_auth_message auth peer_user_id is_typing
     | TypingGetCall user_id \<Rightarrow> typing_get_auth_message auth user_id
     | RotateInitCall request \<Rightarrow> rotate_init_auth_message c auth request
     | RotateConfirmCall request \<Rightarrow> rotate_confirm_auth_message c auth request)"

fun auth_endpoint :: "auth_call \<Rightarrow> string" where
  "auth_endpoint (RelayCall _ _) = ''relay''"
| "auth_endpoint (InboxCall _ _) = ''inbox''"
| "auth_endpoint (SealedInboxCall _ _) = ''sealed-inbox''"
| "auth_endpoint (SenderCertificateForCall _) = ''sender-certificate''"
| "auth_endpoint (ContactDiscoveryTicketCall _ _) = ''contact-discovery-ticket''"
| "auth_endpoint (InboxDeleteCall _ _) = ''inbox-delete''"
| "auth_endpoint (WsInboxCall _ _) = ''ws-inbox''"
| "auth_endpoint (ListDevicesCall _) = ''devices-list''"
| "auth_endpoint (LinkDeviceCall _ _) = ''devices-link''"
| "auth_endpoint (RevokeDeviceCall _ _) = ''devices-revoke''"
| "auth_endpoint (RetireCurrentDeviceCall _) = ''devices-retire''"
| "auth_endpoint (DeleteAccountCall _) = ''account-delete''"
| "auth_endpoint (DiscoveryHandlesCall _ _ _) = ''discovery-handles''"
| "auth_endpoint (DiscoveryMatchCall _ _) = ''discovery-match''"
| "auth_endpoint (ContactsListCall _) = ''contacts-list''"
| "auth_endpoint (ContactInviteCreateCall _) = ''contact-invite-create''"
| "auth_endpoint (ContactsUpsertCall _ _ _ _ _) = ''contacts-upsert''"
| "auth_endpoint (ContactsRemoveCall _ _) = ''contacts-remove''"
| "auth_endpoint (GroupCreateCall _ _) = ''groups-create''"
| "auth_endpoint (UserGroupsListCall _) = ''groups-list''"
| "auth_endpoint (GroupMembersListCall _) = ''groups-members-list''"
| "auth_endpoint (GroupMembersAddCall _ _) = ''groups-members-add''"
| "auth_endpoint (GroupMembersRemoveCall _ _) = ''groups-members-remove''"
| "auth_endpoint (GroupRelayCall _ _ _) = ''groups-relay''"
| "auth_endpoint (IdentityLogCall _) = ''identity-log''"
| "auth_endpoint (PrekeysStatusCall _) = ''prekeys-status''"
| "auth_endpoint (PrekeysCall _) = ''prekeys''"
| "auth_endpoint (PushTokenCall _ _) = ''push-token''"
| "auth_endpoint (FileUploadCall _ _ _) = ''files-upload''"
| "auth_endpoint (FileDownloadCall _) = ''files-download''"
| "auth_endpoint (ProfileUpsertCall _ _ _ _ _ _) = ''profile-upsert''"
| "auth_endpoint (ProfileGetCall _) = ''profile-get''"
| "auth_endpoint (PresenceUpdateCall _ _) = ''presence-update''"
| "auth_endpoint (PresenceGetCall _) = ''presence-get''"
| "auth_endpoint (TypingUpdateCall _ _) = ''typing-update''"
| "auth_endpoint (TypingGetCall _) = ''typing-get''"
| "auth_endpoint (RotateInitCall _) = ''rotate-init''"
| "auth_endpoint (RotateConfirmCall _) = ''rotate-confirm''"

text \<open>
  What the transcript says besides the endpoint, the user, the device, the time and the nonce: the tag,
  whether the value is hashed, and the value, which for a hash is the string that is hashed.
\<close>

fun auth_fields :: "crypto \<Rightarrow> RequestAuth \<Rightarrow> auth_call \<Rightarrow> (u16 \<times> bool \<times> bytes) list" where
  "auth_fields c auth (RelayCall recipient_user_id message_blob) =
     [(AUTH_TAG_RECIPIENT_ID, False, recipient_user_id), (AUTH_TAG_MESSAGE_BLOB, False, message_blob)]"
| "auth_fields c auth (InboxCall user_id since) =
     [(AUTH_TAG_RECIPIENT_ID, False, user_id), (AUTH_TAG_SINCE, False, i64_to_be_bytes since)]"
| "auth_fields c auth (SealedInboxCall user_id since) =
     [(AUTH_TAG_RECIPIENT_ID, False, user_id), (AUTH_TAG_SINCE, False, i64_to_be_bytes since)]"
| "auth_fields c auth (SenderCertificateForCall user_id) =
     [(AUTH_TAG_RECIPIENT_ID, False, user_id)]"
| "auth_fields c auth (ContactDiscoveryTicketCall user_id purpose) =
     [(AUTH_TAG_RECIPIENT_ID, False, user_id), (AUTH_TAG_DISCOVERY_PURPOSE, False, purpose)]"
| "auth_fields c auth (InboxDeleteCall user_id request) =
     [(AUTH_TAG_RECIPIENT_ID, False, user_id),
      (AUTH_TAG_DELETE_IDS_HASH, True, concat (map i64_to_be_bytes (normalize_message_ids (di_message_ids request))))]
      @ (case map_option i64_to_be_bytes (di_delete_before_id request) of None \<Rightarrow> [] | Some v \<Rightarrow> [(AUTH_TAG_DELETE_BEFORE_ID, False, v)])"
| "auth_fields c auth (WsInboxCall user_id since) =
     [(AUTH_TAG_RECIPIENT_ID, False, user_id), (AUTH_TAG_SINCE, False, i64_to_be_bytes since)]"
| "auth_fields c auth (ListDevicesCall user_id) =
     [(AUTH_TAG_RECIPIENT_ID, False, user_id)]"
| "auth_fields c auth (LinkDeviceCall user_id new_device_id) =
     [(AUTH_TAG_RECIPIENT_ID, False, user_id), (AUTH_TAG_LINK_DEVICE_ID, False, new_device_id)]"
| "auth_fields c auth (RevokeDeviceCall user_id target_device_id) =
     [(AUTH_TAG_RECIPIENT_ID, False, user_id), (AUTH_TAG_REVOKE_DEVICE_ID, False, target_device_id)]"
| "auth_fields c auth (RetireCurrentDeviceCall user_id) =
     [(AUTH_TAG_RECIPIENT_ID, False, user_id), (AUTH_TAG_REVOKE_DEVICE_ID, False, ra_device_id auth)]"
| "auth_fields c auth (DeleteAccountCall user_id) =
     [(AUTH_TAG_RECIPIENT_ID, False, user_id)]"
| "auth_fields c auth (DiscoveryHandlesCall user_id phone_hashes email_hashes) =
     [(AUTH_TAG_RECIPIENT_ID, False, user_id),
      (AUTH_TAG_DISCOVERY_PHONE_HASHES_HASH, True, concat phone_hashes),
      (AUTH_TAG_DISCOVERY_EMAIL_HASHES_HASH, True, concat email_hashes)]"
| "auth_fields c auth (DiscoveryMatchCall user_id query_hashes) =
     [(AUTH_TAG_RECIPIENT_ID, False, user_id),
      (AUTH_TAG_DISCOVERY_QUERY_HASHES_HASH, True, concat query_hashes)]"
| "auth_fields c auth (ContactsListCall user_id) =
     [(AUTH_TAG_RECIPIENT_ID, False, user_id)]"
| "auth_fields c auth (ContactInviteCreateCall user_id) =
     [(AUTH_TAG_RECIPIENT_ID, False, user_id)]"
| "auth_fields c auth (ContactsUpsertCall user_id contact_user_id alias verified_by_qr verified_fingerprint_sha256) =
     [(AUTH_TAG_RECIPIENT_ID, False, user_id), (AUTH_TAG_CONTACT_USER_ID, False, contact_user_id),
      (AUTH_TAG_CONTACT_ALIAS_HASH, True, unwrap_or_default alias),
      (AUTH_TAG_CONTACT_VERIFIED_FLAG, False, [if verified_by_qr then 1 else 0])]
      @ (case verified_fingerprint_sha256 of None \<Rightarrow> [] | Some v \<Rightarrow> [(AUTH_TAG_CONTACT_FINGERPRINT, False, v)])"
| "auth_fields c auth (ContactsRemoveCall user_id contact_user_id) =
     [(AUTH_TAG_RECIPIENT_ID, False, user_id), (AUTH_TAG_CONTACT_USER_ID, False, contact_user_id)]"
| "auth_fields c auth (GroupCreateCall group_id member_user_ids) =
     [(AUTH_TAG_GROUP_ID, False, group_id), (AUTH_TAG_GROUP_MEMBERS_HASH, True, concat member_user_ids)]"
| "auth_fields c auth (UserGroupsListCall user_id) =
     [(AUTH_TAG_RECIPIENT_ID, False, user_id)]"
| "auth_fields c auth (GroupMembersListCall group_id) =
     [(AUTH_TAG_GROUP_ID, False, group_id)]"
| "auth_fields c auth (GroupMembersAddCall group_id member_user_id) =
     [(AUTH_TAG_GROUP_ID, False, group_id), (AUTH_TAG_GROUP_MEMBER_USER_ID, False, member_user_id)]"
| "auth_fields c auth (GroupMembersRemoveCall group_id member_user_id) =
     [(AUTH_TAG_GROUP_ID, False, group_id), (AUTH_TAG_GROUP_MEMBER_USER_ID, False, member_user_id)]"
| "auth_fields c auth (GroupRelayCall group_id sender_user_id recipients) =
     [(AUTH_TAG_GROUP_ID, False, group_id), (AUTH_TAG_GROUP_SENDER_USER_ID, False, sender_user_id),
      (AUTH_TAG_GROUP_RECIPIENTS_HASH, True, group_recipients_bytes c recipients)]"
| "auth_fields c auth (IdentityLogCall user_id) =
     [(AUTH_TAG_RECIPIENT_ID, False, user_id)]"
| "auth_fields c auth (PrekeysStatusCall user_id) =
     [(AUTH_TAG_RECIPIENT_ID, False, user_id)]"
| "auth_fields c auth (PrekeysCall request) =
     [(AUTH_TAG_PREKEY_SPK_HASH, True, pp_signed_prekey_x25519_pub request),
      (AUTH_TAG_PREKEY_PQSPK_HASH, True, pp_pq_signed_prekey_pub_mlkem768 request)]"
| "auth_fields c auth (PushTokenCall device_id push_token) =
     [(AUTH_TAG_RECIPIENT_ID, False, ra_user_id auth), (AUTH_TAG_PUSH_DEVICE_ID, False, device_id),
      (AUTH_TAG_PUSH_TOKEN_HASH, True, push_token)]"
| "auth_fields c auth (FileUploadCall recipient_user_id file_blob mime_type) =
     [(AUTH_TAG_FILE_RECIPIENT_ID, False, recipient_user_id), (AUTH_TAG_FILE_BLOB_HASH, True, file_blob),
      (AUTH_TAG_FILE_MIME_HASH, True, mime_type)]"
| "auth_fields c auth (FileDownloadCall file_id) =
     [(AUTH_TAG_FILE_ID, False, file_id)]"
| "auth_fields c auth (ProfileUpsertCall user_id display_name username username_lookup_enabled avatar_mime avatar_blob) =
     [(AUTH_TAG_RECIPIENT_ID, False, user_id),
      (AUTH_TAG_PROFILE_DISPLAY_NAME_HASH, True, unwrap_or_default display_name),
      (AUTH_TAG_PROFILE_USERNAME_HASH, True, unwrap_or_default username),
      (AUTH_TAG_PROFILE_USERNAME_LOOKUP_ENABLED, False, [if username_lookup_enabled then 1 else 0]),
      (AUTH_TAG_PROFILE_AVATAR_HASH, True, unwrap_or_default avatar_blob),
      (AUTH_TAG_PROFILE_AVATAR_MIME_HASH, True, unwrap_or_default avatar_mime)]"
| "auth_fields c auth (ProfileGetCall user_id) =
     [(AUTH_TAG_RECIPIENT_ID, False, user_id)]"
| "auth_fields c auth (PresenceUpdateCall user_id status) =
     [(AUTH_TAG_RECIPIENT_ID, False, user_id), (AUTH_TAG_PRESENCE_STATUS, False, status)]"
| "auth_fields c auth (PresenceGetCall user_id) =
     [(AUTH_TAG_RECIPIENT_ID, False, user_id)]"
| "auth_fields c auth (TypingUpdateCall peer_user_id is_typing) =
     [(AUTH_TAG_TYPING_PEER_ID, False, peer_user_id),
      (AUTH_TAG_TYPING_STATE_FLAG, False, [if is_typing then 1 else 0])]"
| "auth_fields c auth (TypingGetCall user_id) =
     [(AUTH_TAG_RECIPIENT_ID, False, user_id)]"
| "auth_fields c auth (RotateInitCall request) =
     [(AUTH_TAG_ROTATE_NEW_X25519_HASH, True, ri_new_identity_x25519_pub request),
      (AUTH_TAG_ROTATE_NEW_SIG_HASH, True, ri_new_identity_sig_pub request),
      (AUTH_TAG_ROTATE_NEW_PQ_SIG_HASH, True, ri_new_identity_pq_sig_pub request)]"
| "auth_fields c auth (RotateConfirmCall request) =
     [(AUTH_TAG_ROTATE_CHALLENGE_ID, False, rc_challenge_id request),
      (AUTH_TAG_ROTATE_SIG_CURRENT_HASH, True, rc_sig_by_current_identity request),
      (AUTH_TAG_ROTATE_SIG_NEW_HASH, True, rc_sig_by_new_identity request),
      (AUTH_TAG_ROTATE_PQ_SIG_CURRENT_HASH, True, rc_pq_sig_by_current_identity request),
      (AUTH_TAG_ROTATE_PQ_SIG_NEW_HASH, True, rc_pq_sig_by_new_identity request)]"

definition hashed_tags :: "u16 set" where
  "hashed_tags = {AUTH_TAG_CONTACT_ALIAS_HASH, AUTH_TAG_DELETE_IDS_HASH, AUTH_TAG_DISCOVERY_EMAIL_HASHES_HASH, AUTH_TAG_DISCOVERY_PHONE_HASHES_HASH, AUTH_TAG_DISCOVERY_QUERY_HASHES_HASH, AUTH_TAG_FILE_BLOB_HASH, AUTH_TAG_FILE_MIME_HASH, AUTH_TAG_GROUP_MEMBERS_HASH, AUTH_TAG_GROUP_RECIPIENTS_HASH, AUTH_TAG_PREKEY_PQSPK_HASH, AUTH_TAG_PREKEY_SPK_HASH, AUTH_TAG_PROFILE_AVATAR_HASH, AUTH_TAG_PROFILE_AVATAR_MIME_HASH, AUTH_TAG_PROFILE_DISPLAY_NAME_HASH, AUTH_TAG_PROFILE_USERNAME_HASH, AUTH_TAG_PUSH_TOKEN_HASH, AUTH_TAG_ROTATE_NEW_PQ_SIG_HASH, AUTH_TAG_ROTATE_NEW_SIG_HASH, AUTH_TAG_ROTATE_NEW_X25519_HASH, AUTH_TAG_ROTATE_PQ_SIG_CURRENT_HASH, AUTH_TAG_ROTATE_PQ_SIG_NEW_HASH, AUTH_TAG_ROTATE_SIG_CURRENT_HASH, AUTH_TAG_ROTATE_SIG_NEW_HASH}"

definition field_record :: "crypto \<Rightarrow> u16 \<times> bool \<times> bytes \<Rightarrow> TlvRecord" where
  "field_record c f = (case f of (t, h, v) \<Rightarrow> tlv t (if h then sha256 c v else v))"

lemma auth_message_encode:
  "auth_message c auth call = Ok m \<longleftrightarrow>
    encode (auth_common_records auth (auth_endpoint call) @ map (field_record c) (auth_fields c auth call)) = Ok m"
  by (cases call) (simp_all add: auth_message_def field_record_def push_opt_def hash_string_list_sha256_def
      hash_group_recipients_sha256_def
      relay_auth_message_def inbox_auth_message_def sealed_inbox_auth_message_def
      sender_certificate_auth_message_def contact_discovery_ticket_auth_message_def
      inbox_delete_auth_message_def ws_inbox_auth_message_def list_devices_auth_message_def
      link_device_auth_message_def revoke_device_auth_message_def retire_current_device_auth_message_def
      delete_account_auth_message_def discovery_handles_auth_message_def discovery_match_auth_message_def
      contacts_list_auth_message_def contact_invite_create_auth_message_def contacts_upsert_auth_message_def
      contacts_remove_auth_message_def group_create_auth_message_def user_groups_list_auth_message_def
      group_members_list_auth_message_def group_members_add_auth_message_def
      group_members_remove_auth_message_def group_relay_auth_message_def identity_log_auth_message_def
      prekeys_status_auth_message_def prekeys_auth_message_def push_token_auth_message_def
      file_upload_auth_message_def file_download_auth_message_def profile_upsert_auth_message_def
      profile_get_auth_message_def presence_update_auth_message_def presence_get_auth_message_def
      typing_update_auth_message_def typing_get_auth_message_def rotate_init_auth_message_def
      rotate_confirm_auth_message_def split: option.splits)

definition collision :: "crypto \<Rightarrow> (u16 \<times> bool \<times> bytes) list \<Rightarrow> (u16 \<times> bool \<times> bytes) list \<Rightarrow> bool" where
  "collision c fs fs' \<longleftrightarrow> (\<exists>t v v'. (t, True, v) \<in> set fs \<and> (t, True, v') \<in> set fs' \<and> v \<noteq> v' \<and> sha256 c v = sha256 c v')"

lemma collision_Cons: "collision c fs fs' \<Longrightarrow> collision c (f # fs) (f' # fs')"
  unfolding collision_def by (meson list.set_intros(2))

lemma field_records_inject:
  "map (field_record c) fs = map (field_record c) fs' \<Longrightarrow>
   \<forall>f \<in> set fs. fst (snd f) \<longleftrightarrow> fst f \<in> H \<Longrightarrow> \<forall>f \<in> set fs'. fst (snd f) \<longleftrightarrow> fst f \<in> H \<Longrightarrow>
   fs = fs' \<or> collision c fs fs'"
proof (induction fs fs' rule: list_induct2')
  case (4 f fs f' fs')
  obtain t h v t' h' v' where f: "f = (t, h, v)" "f' = (t', h', v')" by (cases f, cases f') auto
  have t: "t = t'" and r: "(if h then sha256 c v else v) = (if h' then sha256 c v' else v')"
    using 4(2) by (auto simp: f field_record_def)
  have h: "h = h'" using 4(3,4) t f by simp
  have "fs = fs' \<or> collision c fs fs'" using 4(2,3,4) by (intro 4(1)) auto
  then show ?case
  proof
    assume "fs = fs'"
    then show ?thesis using t r h unfolding f collision_def by (cases h) auto
  qed (simp add: collision_Cons)
qed simp_all

lemma of_char_u8_inject: "(of_char x :: u8) = of_char y \<longleftrightarrow> x = y"
proof
  have u: "unat (of_char z :: u8) = of_char z" for z
  proof -
    have "(of_char z :: u8) = of_nat (of_char z)" by (rule of_nat_of_char [symmetric])
    then have "unat (of_char z :: u8) = of_char z mod 2 ^ 8" by (simp only: unat_of_nat) simp
    then show ?thesis by simp
  qed
  assume "(of_char x :: u8) = of_char y"
  then have "(of_char x :: nat) = of_char y" using u by metis
  then show "x = y" by simp
qed simp

lemma str_bytes_inject [simp]: "str_bytes s = str_bytes t \<longleftrightarrow> s = t"
  unfolding str_bytes_def by (rule inj_map_eq_map) (simp add: inj_def of_char_u8_inject)

lemma auth_fields_hashed: "\<forall>f \<in> set (auth_fields c auth call). fst (snd f) \<longleftrightarrow> fst f \<in> hashed_tags"
  by (cases call) (simp_all add: hashed_tags_def tag_simps split: option.splits)

text \<open>
  The requests all of whose arguments can be read off the fields. The others carry a list of strings, of which the
  transcript has the hash of the concatenation only, or an optional argument that is hashed like an empty one, or
  arguments that the transcript leaves out.
\<close>

fun fully_signed :: "auth_call \<Rightarrow> bool" where
  "fully_signed (InboxDeleteCall _ _) = False"
| "fully_signed (DiscoveryHandlesCall _ _ _) = False"
| "fully_signed (DiscoveryMatchCall _ _) = False"
| "fully_signed (ContactsUpsertCall _ _ _ _ _) = False"
| "fully_signed (GroupCreateCall _ _) = False"
| "fully_signed (GroupRelayCall _ _ _) = False"
| "fully_signed (PrekeysCall _) = False"
| "fully_signed (ProfileUpsertCall _ _ _ _ _ _) = False"
| "fully_signed (RotateInitCall _) = False"
| "fully_signed _ = True"

lemma fully_signed_inject:
  assumes "fully_signed call" "auth_endpoint call = auth_endpoint call'" "auth_fields c a call = auth_fields c a' call'"
  shows "call = call'"
  using assms by (cases call; cases call'; simp add: i64_to_be_bytes_def split: if_splits)


subsection \<open>Concrete instances\<close>

definition toy_mldsa :: sig_backend where
  "toy_mldsa = \<lparr>sb_available = True, sb_pk_len = 1952, sb_sk_len = 4032, sb_sig_len = 3309,
     sb_pk_ok = (\<lambda>k. length k = 1952), sb_sk_ok = (\<lambda>k. length k = 4032), sb_sig_ok = (\<lambda>s. length s = 3309),
     sb_keygen = (\<lambda>r. (None, r)), sb_sign = (\<lambda>sk m r. (Some (take 3309 (m @ replicate 3309 0)), r)),
     sb_verify = (\<lambda>pk m s. s = take 3309 (m @ replicate 3309 0))\<rparr>"

theorem server_prekeys_client_valid_witness:
  "\<exists>b s1 s2. verify_hybrid_prekey_signatures toy_crypto toy_features toy_mldsa (pb_signature_public_key b) (replicate 1952 0)
      (pb_signed_prekey b) (pb_spk_signature b) (pb_pq_signed_prekey b) (pb_pqspk_signature b) s1 s2 = Ok ()
    \<and> validate_hybrid_prekey_bundle_signatures b (Ed25519SignatureVerifier_verify toy_crypto)
        (mldsa_provider toy_features toy_mldsa) = Ok ()"
proof -
  obtain m1 where m1: "signed_prekey_signature_message PROTOCOL_VERSION_V1 (replicate 32 3) = Ok m1"
    by (simp add: signed_prekey_signature_message_def signature_message_def sig_records_def encode_fits str_bytes_def)
  obtain m2 where m2: "pq_signed_prekey_signature_message PROTOCOL_VERSION_V1 (replicate 32 5) = Ok m2"
    by (simp add: pq_signed_prekey_signature_message_def signature_message_def sig_records_def encode_fits str_bytes_def)
  define pk :: bytes where "pk = replicate 32 7"
  define s1 where "s1 = take 3309 (m1 @ replicate 3309 (0 :: u8))"
  define s2 where "s2 = take 3309 (m2 @ replicate 3309 (0 :: u8))"
  define b where "b = (pb_new [66] (replicate 32 2) (replicate 32 3) (replicate 32 5) (ed25519_sign toy_crypto pk m1)
    (ed25519_sign toy_crypto pk m2) pk)
      \<lparr>pb_pq_sig_public_key := Some (replicate 1952 0), pb_pq_spk_signature := Some s1, pb_pq_pqspk_signature := Some s2\<rparr>"
  have b: "pb_protocol_version b = PROTOCOL_VERSION_V1" "pb_pq_sig_public_key b = Some (replicate 1952 0)"
    "pb_pq_spk_signature b = Some s1" "pb_pq_pqspk_signature b = Some s2" by (simp_all add: b_def pb_new_def)
  have l: "length s1 = 3309" "length s2 = 3309" by (simp_all add: s1_def s2_def)
  have "verify_hybrid_prekey_signatures toy_crypto toy_features toy_mldsa (pb_signature_public_key b) (replicate 1952 0)
      (pb_signed_prekey b) (pb_spk_signature b) (pb_pq_signed_prekey b) (pb_pqspk_signature b) s1 s2 = Ok ()"
    by (simp add: verify_hybrid_prekey_signatures_def b_def pb_new_def m1 m2 l pk_def SIG_PUB_KEY_LEN_def SIG_LEN_def
        X25519_KEY_LEN_def PQ_SIG_PUB_KEY_LEN_def PQ_SIG_LEN_def ML_DSA_65_PK_LEN_def ML_DSA_65_SIG_LEN_def
        validate_ml_dsa_public_key_def MlDsa65_new_def MlDsa65_verify_def pq_build_of_def toy_features_def toy_mldsa_def
        toy_crypto_def min_def) (simp add: s1_def s2_def)
  with server_prekeys_client_valid [OF b] show ?thesis by blast
qed

definition toy_request :: RequestAuth where
  "toy_request = \<lparr>ra_user_id = [97], ra_device_id = [100], ra_timestamp = 1000, ra_nonce = [1], ra_signature = []\<rparr>"


end
