(* ===== verification/Spec2Isabelle.thy ===== *)
theory Spec2Isabelle
  imports Codec Rust_Str Session_Thms Handshake Prover_Thms Sealed_Thms Storage Safety_Number Private_Groups_Crypto Server_Replay Server_Thms
begin

text \<open>
  A verification library for a post-quantum messaging application: the protocol library
  \<^verbatim>\<open>src/crates/pqmsg-core\<close>, and the parts of the server \<^verbatim>\<open>src/crates/pqmsg-server\<close> that decide
  without a database.

  \<^bold>\<open>The program.\<close> Two clients agree on a session key with a hybrid handshake (X25519 and ML-KEM-768 over
  signed prekeys that the server hands out), and then run a double ratchet session with a post-quantum
  ratchet beside it. Messages travel in TLV framed wire messages, optionally inside sealed envelopes that
  hide the sender and carry a certificate signed by the server. The server keeps a Merkle tree log of
  identity keys that clients audit. Private groups share a root secret that members hand on by invitation.
  Local secrets are wrapped under a passphrase, and users compare safety numbers.

  \<^bold>\<open>Conventions.\<close> Bytes are \<open>8 word\<close>, \<^verbatim>\<open>u16\<close>, \<^verbatim>\<open>u32\<close> and \<^verbatim>\<open>u64\<close> are words of their width, \<^verbatim>\<open>usize\<close> is \<open>nat\<close>.
  A \<^verbatim>\<open>Result\<close> is the sum type \<open>'a result\<close> with \<open>Ok\<close> and \<open>Err\<close>, and \<open>and_then\<close> is the question mark operator.
  Operations on a mutable structure take the record and return it, also on their error paths, so that what
  a failed call leaves behind is visible. A string is the list of its UTF-8 bytes. Random sources are
  streams of bytes that an operation returns advanced. A name of the source is kept where it is free; a
  method carries a prefix for its type.

  \<^bold>\<open>Primitives are parameters.\<close> The record \<open>crypto\<close> (\<^verbatim>\<open>Crypto\<close>) holds X25519, HKDF, SHA-256, ChaCha20-Poly1305,
  the AES-CTR key stream and Ed25519; \<open>kem_provider\<close>, \<open>pq_sig_provider\<close>, \<open>storage_libs\<close> and \<open>json_codec\<close>
  hold ML-KEM, ML-DSA, Argon2id with AES-GCM and base64, and the JSON form of a join package. What a theorem
  relies on is a named hypothesis that states documented behaviour: \<open>dh_ok\<close> (both sides compute the same
  secret), \<open>hkdf_ok\<close> and \<open>sha256_ok\<close> (output lengths), \<open>aead_ok\<close> (opening inverts sealing up to the size limit),
  \<open>aead_exact\<close> (only sealed texts open), \<open>ed25519_ok\<close>, \<open>kem_ok\<close>, \<open>pqsig_pair_ok\<close> and so on. No theorem assumes
  that an adversary cannot forge; soundness of hash trees names the strings on which SHA-256 would have to
  collide. Concrete instances (\<open>toy_crypto\<close>, \<open>toy_kem\<close>, \<open>toy_pqsig\<close>, \<open>toy_storage\<close>, \<open>toy_json\<close>) satisfy
  the hypotheses and serve the witnesses.

  \<^bold>\<open>Theories and sources.\<close> Files are those of \<^verbatim>\<open>src/crates/pqmsg-core/src\<close> unless named otherwise.
  \<^item> \<^verbatim>\<open>Prelude\<close>, \<^verbatim>\<open>Core_Error\<close> (\<^verbatim>\<open>error.rs\<close>), \<^verbatim>\<open>Rust_Str\<close>: results, big endian words, the standard library's strings.
  \<^item> \<^verbatim>\<open>Tlv\<close> (\<^verbatim>\<open>tlv.rs\<close>) and \<^verbatim>\<open>Codec\<close>: the framing, shown to accept exactly the encoder's outputs; the locale
    \<open>codec\<close> is the contract of a message format and is interpreted for both wire messages, the ratchet
    header, the capability lists, the hybrid signature, the initial message, the sender certificate and the
    sealed envelope.
  \<^item> \<^verbatim>\<open>Crypto\<close> (\<^verbatim>\<open>dh.rs\<close>, \<^verbatim>\<open>kdf.rs\<close>, \<^verbatim>\<open>aead.rs\<close>), \<^verbatim>\<open>Alg\<close> (\<^verbatim>\<open>alg.rs\<close>), \<^verbatim>\<open>Keys\<close> (\<^verbatim>\<open>keys.rs\<close>), \<^verbatim>\<open>Kem\<close> (\<^verbatim>\<open>kem.rs\<close>),
    \<^verbatim>\<open>Pq_Sig\<close> (\<^verbatim>\<open>pq_sig.rs\<close>), \<^verbatim>\<open>Wire\<close> (\<^verbatim>\<open>wire.rs\<close>): wrappers, policies and formats, with padding shown exact.
  \<^item> \<^verbatim>\<open>Ratchet\<close>, \<^verbatim>\<open>Pq_Ratchet\<close> (\<^verbatim>\<open>ratchet/mod.rs\<close>, \<^verbatim>\<open>ratchet/pq.rs\<close>): chain steps, the bounded cache of skipped keys
    (locale \<open>key_store\<close>, interpreted on the cache), the post-quantum key history.
  \<^item> \<^verbatim>\<open>Session\<close> (\<^verbatim>\<open>session.rs\<close>): the state machine. \<^verbatim>\<open>Session_Props\<close> treats single calls, \<^verbatim>\<open>Session_Pair\<close> two peers
    and every interleaving of sends and deliveries, \<^verbatim>\<open>Session_Delivery\<close> when a message goes through,
    \<^verbatim>\<open>Session_Inv\<close> arbitrary input, and \<^verbatim>\<open>Session_Thms\<close> concludes: delivery in any order, refusal of replays,
    bounded state, the key schedule, the message that a forged one makes unreadable, the Diffie-Hellman ratchet
    once its root keys are in step, and the reuse of the key stream of the headers.
  \<^item> \<^verbatim>\<open>Handshake\<close> (\<^verbatim>\<open>handshake.rs\<close>, \<^verbatim>\<open>ad.rs\<close>): both sides derive the same key; unsigned prekeys are refused.
  \<^item> \<^verbatim>\<open>Transparency\<close> (\<^verbatim>\<open>key_transparency.rs\<close> and the tree head of the server's \<^verbatim>\<open>handlers/transparency.rs\<close>), with
    \<^verbatim>\<open>Transparency_Thms\<close>, \<^verbatim>\<open>Consistency_Thms\<close>, \<^verbatim>\<open>Prover_Thms\<close>: the tree is that of RFC 6962, proofs are
    sound, inclusion proofs are complete, and consistency proofs are complete exactly where the split of the
    prover is right.
  \<^item> \<^verbatim>\<open>Sealed\<close>, \<^verbatim>\<open>Sealed_Thms\<close> (\<^verbatim>\<open>sealed.rs\<close>, and the certificate of the server's \<^verbatim>\<open>handlers/messaging.rs\<close>).
  \<^item> \<^verbatim>\<open>Storage\<close> (\<^verbatim>\<open>storage.rs\<close>), \<^verbatim>\<open>Safety_Number\<close> (\<^verbatim>\<open>safety_number.rs\<close>).
  \<^item> \<^verbatim>\<open>Private_Groups\<close> (\<^verbatim>\<open>groups.rs\<close>), \<^verbatim>\<open>Private_Groups_Thms\<close> (the member list as a state machine),
    \<^verbatim>\<open>Private_Groups_Crypto\<close> (invitations, group messages, removal).
  \<^item> \<^verbatim>\<open>Server_Validation\<close> (\<^verbatim>\<open>error.rs\<close> and \<^verbatim>\<open>validation.rs\<close> of \<^verbatim>\<open>pqmsg-server\<close>): the checks on input and the signature
    checks. \<^verbatim>\<open>Server_Auth\<close> (\<^verbatim>\<open>auth.rs\<close> and the replay cache of \<^verbatim>\<open>lib.rs\<close>): headers, the transcript of each
    endpoint and the verification of a request, with the queries on users and devices as arguments.
    \<^verbatim>\<open>Server_Thms\<close> shows what a transcript determines and that the server accepts the prekeys that
    clients accept; \<^verbatim>\<open>Server_Replay\<close> shows for which requests and how long the cache in memory refuses
    replays. In its pilot and production modes the server asks Redis instead, whose answers are arguments.
  \<^bold>\<open>Bounds and termination.\<close> No definition uses fuel. Loops over a cursor are functions on the rest of the input
  with a measure; the loops of the tree are structural or decrease the number of nodes; the skip loop of a
  session decreases the distance to the message number. Length hypotheses of the form
  \<open>length p \<le> n\<close> are the TLV limit of 65535 bytes per value, less the other fields of the record, and the
  AEAD's size limit. Wrap-around is kept where the source adds on machine words (message counters, expiry
  times, epochs).

  \<^bold>\<open>Not modelled.\<close> Zeroisation, constant time comparison, \<^verbatim>\<open>Debug\<close> output and serde derive macros have no
  counterpart in a functional model. \<^verbatim>\<open>hsm.rs\<close> calls a PKCS\#11 library or is a placeholder; \<^verbatim>\<open>wasm_bindings.rs\<close>,
  \<^verbatim>\<open>pqmsg-android\<close>, \<^verbatim>\<open>pqmsg-ios\<close> and \<^verbatim>\<open>pqmsg-cli\<close> translate between JSON, files or foreign interfaces and the
  modelled functions. The server's handlers, its database, its rate limiter (floating point) and its Redis and push
  connections are HTTP and SQL around the modelled checks. A poisoned lock of the replay cache is not modelled. \<^verbatim>\<open>pqmsg-discovery\<close> is a
  separate HTTP service inside an enclave; \<^verbatim>\<open>mobile\<close>, \<^verbatim>\<open>desktop\<close> and \<^verbatim>\<open>scripts\<close> are user interface and deployment.
\<close>

section \<open>Across components\<close>

lemma sc_signing_body_length:
  "sc_signing_body cert = Ok body \<Longrightarrow>
    length body = length (sc_sender_user_id cert) + length (sc_sender_device_id cert)
      + length (sc_sender_identity_pub cert) + 24"
  by (auto simp: sc_signing_body_def sc_body_records_def encode_eq_Ok_iff record_bytes_def)

text \<open>
  C33. The server signs tree heads and sender certificates with one key, and no string signed for the one
  purpose is a string signed for the other: with identity keys and root hashes of 32 bytes a signature on a
  certificate never verifies as a signature on a tree head, nor conversely. The contact discovery tickets that the
  server signs with this key as well, which are JSON texts, are not compared.
\<close>

theorem server_signatures_separated:
  assumes "length (sc_sender_identity_pub cert) = 32" "length (sth_root_hash sth) = 32"
  shows "sc_signing_body cert \<noteq> Ok (signing_body sth)"
proof
  assume "sc_signing_body cert = Ok (signing_body sth)"
  from sc_signing_body_length [OF this] show False using assms by (simp add: signing_body_def)
qed

theorem server_signatures_separated_witness:
  "\<exists>cert sth body. sc_signing_body cert = Ok body \<and> body \<noteq> signing_body sth
    \<and> length (sc_sender_identity_pub cert) = 32 \<and> length (sth_root_hash sth) = 32"
proof -
  define cert where "cert = \<lparr>sc_sender_user_id = [97], sc_sender_device_id = [98], sc_sender_identity_pub = replicate 32 1,
    sc_expires_at = 0, sc_server_signature = []\<rparr>"
  define sth where "sth = \<lparr>sth_epoch = 0, sth_tree_size = 0, sth_root_hash = replicate 32 1, sth_signature = []\<rparr>"
  have l: "length (sc_sender_identity_pub cert) = 32" "length (sth_root_hash sth) = 32" by (simp_all add: cert_def sth_def)
  have "fits (sc_body_records cert)" by (simp add: sc_body_records_def cert_def)
  then obtain body where "sc_signing_body cert = Ok body" by (simp add: sc_signing_body_def encode_eq_Ok_iff)
  with server_signatures_separated [OF l] l show ?thesis by auto
qed

end
